theory Spec2Isabelle
  imports Complex_Main
begin

section \<open>Run/spinup orchestration and finite-difference scheduling of \<open>model/eval.py\<close>\<close>

text \<open>
  The class \<open>Model\<close> of \<open>model/eval.py\<close> drives an external simulation through a
  directory hierarchy. The embedding keeps the directory tree, the parameter database, the
  interpolator cache and a log of the effects on the outside world in an explicit state.
  Numbers that Python holds as floats are reals here: rounding, infinities and NaN are not
  part of the model. Years are integers.
\<close>

subsection \<open>Errors\<close>

datatype error =
    Combination_Unknown string
  | Mask_Length nat nat
  | Accuracy_Order_Not_Supported int
  | Points_Length nat
  | Concentration_Factor_Negative real
  | Model_Parameters_Length nat nat
  | Below_Lower_Bound
  | Above_Upper_Bound
  | Zero_Size_Array
  | Shape_Mismatch
  | TypeError
  | UnboundLocalError
  | IndexError
  | AssertionError
  | OSError
  | Division_By_Zero

text \<open>
  The first ten constructors are the \<open>ValueError\<close>s of the source and of numpy.
  \<open>Division_By_Zero\<close> is no exception of Python: numpy divides by zero to an infinity or
  NaN and goes on, and the model, which has only real numbers, stops there.
\<close>

fun is_ValueError :: "error \<Rightarrow> bool" where
  "is_ValueError (Combination_Unknown c) = True"
| "is_ValueError (Mask_Length m n) = True"
| "is_ValueError (Accuracy_Order_Not_Supported k) = True"
| "is_ValueError (Points_Length n) = True"
| "is_ValueError (Concentration_Factor_Negative c) = True"
| "is_ValueError (Model_Parameters_Length m n) = True"
| "is_ValueError Below_Lower_Bound = True"
| "is_ValueError Above_Upper_Bound = True"
| "is_ValueError Zero_Size_Array = True"
| "is_ValueError Shape_Mismatch = True"
| "is_ValueError TypeError = False"
| "is_ValueError UnboundLocalError = False"
| "is_ValueError IndexError = False"
| "is_ValueError AssertionError = False"
| "is_ValueError OSError = False"
| "is_ValueError Division_By_Zero = False"

subsection \<open>Directories, jobs and the state\<close>

text \<open>
  A directory that holds numbered runs is either the spinup directory of a parameter set
  (given by its database index) or a partial derivative directory, which
  \<open>DATABASE_DERIVATIVE_DIRNAME\<close> and \<open>DATABASE_PARTIAL_DERIVATIVE_DIRNAME\<close> name by step
  size, parameter index and sign. A run directory is such a directory and a run index.
\<close>

datatype dir =
    Spinup_Dir nat
  | Partial_Derivative_Dir nat real nat int

type_synonym run_dir = "dir \<times> nat"

datatype job_setup_kind = Spinup | Derivative | Trajectory

text \<open>
  \<open>job_options\<close> is what \<open>Metos3D_Job.write_job_file\<close> receives from \<open>start_run\<close>;
  a job adds the two values the external simulation reports.
\<close>

record job_options =
  job_model_parameters :: "real list"
  job_years :: int
  job_tolerance :: real
  job_total_concentration_factor :: real
  job_write_trajectory :: bool
  job_tracer_input_dir :: "run_dir option"
  job_setup_of :: job_setup_kind

record job =
  options :: job_options
  last_year :: int
  last_tolerance :: real

text \<open>
  The effects on the outside world, in the order in which they happen. A trajectory job
  runs in a temporary directory that \<open>_get_trajectory\<close> removes again; it is named by
  the run it takes its tracer input from.
\<close>

datatype event =
    Make_Run_Dir run_dir
  | Start_Job run_dir
  | Wait_Job run_dir
  | Remove_Contents run_dir
  | Add_Value nat
  | Start_Trajectory_Job "run_dir option"
  | Wait_Trajectory_Job "run_dir option"

datatype warning = Max_Spinup_Years_Reached run_dir real int

text \<open>
  \<open>run_dirs_in d\<close> lists the run directories below \<open>d\<close> in run order, each with its
  job options file if it has one. \<open>parameter_db\<close> holds the stored database entries, the
  index of an entry being its position.
\<close>

record state =
  run_dirs_in :: "dir \<Rightarrow> job option list"
  parameter_db :: "real list list"
  interpolator_cached :: "real list list option"
  events :: "event list"
  warnings :: "warning list"

record spinup_options =
  years :: int
  tolerance :: real
  combination :: string

subsection \<open>Access to run directories\<close>

definition run_dirs :: "state \<Rightarrow> dir \<Rightarrow> job option list" where
  "run_dirs s search_path = run_dirs_in s search_path"

text \<open>
  Reading a value of a job whose options file is missing fails; the source catches
  \<open>OSError\<close> around such reads in \<open>_df\<close>.
\<close>

definition load_job :: "state \<Rightarrow> run_dir \<Rightarrow> error + job" where
  "load_job s rd =
     (if snd rd < length (run_dirs s (fst rd))
      then (case run_dirs s (fst rd) ! snd rd of None \<Rightarrow> Inl OSError | Some j \<Rightarrow> Inr j)
      else Inl OSError)"

definition last_run_dir :: "state \<Rightarrow> dir \<Rightarrow> run_dir option" where
  "last_run_dir s search_path =
     (let last_run_index = int (length (run_dirs s search_path)) - 1
      in if last_run_index \<ge> 0 then Some (search_path, nat last_run_index) else None)"

definition previous_run_dir :: "run_dir \<Rightarrow> run_dir option" where
  "previous_run_dir rd =
     (let run_index = snd rd
      in if run_index > 0 then Some (fst rd, run_index - 1) else None)"

text \<open>
  The loop of \<open>get_total_years\<close> walks from a run down to run 0 of its directory, adding
  \<open>last_year\<close> of each job.
\<close>

fun total_years_loop :: "state \<Rightarrow> int \<Rightarrow> dir \<Rightarrow> nat \<Rightarrow> error + int" where
  "total_years_loop s total_years d 0 =
     (case load_job s (d, 0) of
        Inl e \<Rightarrow> Inl e
      | Inr j \<Rightarrow> Inr (total_years + last_year j))"
| "total_years_loop s total_years d (Suc k) =
     (case load_job s (d, Suc k) of
        Inl e \<Rightarrow> Inl e
      | Inr j \<Rightarrow> total_years_loop s (total_years + last_year j) d k)"

fun get_total_years :: "state \<Rightarrow> run_dir option \<Rightarrow> error + int" where
  "get_total_years s None = Inr 0"
| "get_total_years s (Some rd) = total_years_loop s 0 (fst rd) (snd rd)"

definition get_real_tolerance :: "state \<Rightarrow> run_dir \<Rightarrow> error + real" where
  "get_real_tolerance s rd =
     (case load_job s rd of Inl e \<Rightarrow> Inl e | Inr j \<Rightarrow> Inr (last_tolerance j))"

subsection \<open>The matching predicate\<close>

definition warn :: "warning \<Rightarrow> state \<Rightarrow> state" where
  "warn w s = s\<lparr>warnings := warnings s @ [w]\<rparr>"

text \<open>
  A function that can change the state returns its result or its error together with the
  state it leaves behind. \<open>is_run_matching_options\<close> takes the imported constant
  \<open>MODEL_SPINUP_MAX_YEARS\<close> as its first argument.
\<close>

definition is_run_matching_options ::
  "int \<Rightarrow> state \<Rightarrow> run_dir option \<Rightarrow> spinup_options \<Rightarrow> (error + bool) \<times> state" where
  "is_run_matching_options MAX_YEARS s run_dir_opt opts =
     (case run_dir_opt of
        None \<Rightarrow> (Inr False, s)
      | Some rd \<Rightarrow>
          (case get_total_years s (Some rd) of
             Inl e \<Rightarrow> (Inl e, s)
           | Inr run_years \<Rightarrow>
               (case get_real_tolerance s rd of
                  Inl e \<Rightarrow> (Inl e, s)
                | Inr run_tolerance \<Rightarrow>
                    if combination opts = ''and'' then
                      (let is_matching =
                             ((run_years \<ge> years opts \<and> run_tolerance \<le> tolerance opts)
                              \<or> run_years \<ge> MAX_YEARS)
                       in if is_matching \<and> run_tolerance > tolerance opts
                          then (Inr is_matching,
                                warn (Max_Spinup_Years_Reached rd (tolerance opts) MAX_YEARS) s)
                          else (Inr is_matching, s))
                    else if combination opts = ''or'' then
                      (Inr (run_years \<ge> years opts \<or> run_tolerance \<le> tolerance opts), s)
                    else (Inl (Combination_Unknown (combination opts)), s))))"

subsection \<open>The model object\<close>

text \<open>
  The attributes of \<open>Model\<close> that the functions below read, the constants they import
  from \<open>simulation.model.constants\<close> (which is not part of the source at hand), and
  the behaviour of the collaborators they call: the parameter database
  (\<open>db_index\<close>, \<open>db_closest_index\<close>, \<open>db_closest_indices\<close>, each reading the stored
  entries), the external simulation (\<open>execute\<close> gives \<open>last_year\<close> and
  \<open>last_tolerance\<close> of a job started in a given directory tree, \<open>trajectory_output\<close>
  the rows that a trajectory job writes for a tracer), the loader of gridded trajectories,
  the interpolator (\<open>None\<close> when its result contains NaN) and the land-sea mask
  (its two-dimensional mask \<open>lsm\<close>, its number of layers \<open>z_dim\<close> and the number of
  time steps \<open>t_dim\<close> that line 107 gives it).
  Every theorem holds for all values of these fields.
\<close>

record model =
  total_concentration_factor_included_in_parameters :: bool
  parameters_lower_bound :: "real list"
  parameters_upper_bound :: "real list"
  parameters_typical_values :: "real list"
  model_spinup_options :: spinup_options
  derivative_years :: int
  derivative_step_size :: real
  derivative_accuracy_order :: int
  lsm_lsm :: "int list list"
  lsm_z_dim :: int
  lsm_t_dim :: int
  MODEL_SPINUP_MAX_YEARS :: int
  METOS_TRACER_DIM :: nat
  MODEL_START_FROM_CLOSEST_PARAMETER_SET :: bool
  MODEL_INTERPOLATOR_NUMBER_OF_LINEAR_INTERPOLATOR :: int
  db_index :: "real list list \<Rightarrow> real list \<Rightarrow> nat option"
  db_closest_index :: "real list list \<Rightarrow> real list \<Rightarrow> nat option"
  db_closest_indices :: "real list list \<Rightarrow> real list \<Rightarrow> nat list"
  execute :: "(dir \<Rightarrow> job option list) \<Rightarrow> job_options \<Rightarrow> int \<times> real"
  trajectory_output :: "(dir \<Rightarrow> job option list) \<Rightarrow> job_options \<Rightarrow> nat \<Rightarrow> real list list"
  load_trajectories_to_map :: "real list list \<Rightarrow> nat \<Rightarrow> real list"
  interpolate :: "real list list \<Rightarrow> real list \<Rightarrow> real list list \<Rightarrow> real list option"
  coordinates_to_map_indices :: "real list list \<Rightarrow> real list list"

definition model_parameter_len :: "model \<Rightarrow> nat" where
  "model_parameter_len m = length (parameters_lower_bound m)"

definition parameter_len :: "model \<Rightarrow> nat" where
  "parameter_len m =
     model_parameter_len m + (if total_concentration_factor_included_in_parameters m then 1 else 0)"

subsection \<open>Checking model parameters\<close>

text \<open>
  The dictionary that \<open>metos3d_model_parameters_dict\<close> returns is the pair of its two
  values. \<open>parameters[-1]\<close> raises \<open>IndexError\<close> on an empty vector.
\<close>

definition metos3d_model_parameters_dict :: "model \<Rightarrow> real list \<Rightarrow> error + (real list \<times> real)" where
  "metos3d_model_parameters_dict m parameters =
     (if total_concentration_factor_included_in_parameters m
      then (if parameters = [] then Inl IndexError
            else Inr (butlast parameters, last parameters))
      else Inr (parameters, 1))"

text \<open>
  The comparisons with the bounds are elementwise; they are reached only when the model
  parameters have the length of the lower bounds.
\<close>

definition check_parameters :: "model \<Rightarrow> real list \<Rightarrow> error + real list" where
  "check_parameters m parameters =
     (case metos3d_model_parameters_dict m parameters of
        Inl e \<Rightarrow> Inl e
      | Inr (model_parameters, total_concentration_factor) \<Rightarrow>
          if total_concentration_factor_included_in_parameters m \<and> total_concentration_factor < 0
          then Inl (Concentration_Factor_Negative total_concentration_factor)
          else if length model_parameters \<noteq> model_parameter_len m
          then Inl (Model_Parameters_Length (model_parameter_len m) (length model_parameters))
          else if list_ex (\<lambda>(p, b). p < b) (zip model_parameters (parameters_lower_bound m))
          then Inl Below_Lower_Bound
          else if list_ex (\<lambda>(p, b). p > b) (zip model_parameters (parameters_upper_bound m))
          then Inl Above_Upper_Bound
          else Inr parameters)"

text \<open>\<open>total_concentration_factor_included_in_database_entry\<close> is the constant \<open>True\<close>.\<close>

definition database_parameter_entry :: "model \<Rightarrow> real list \<Rightarrow> error + real list" where
  "database_parameter_entry m parameters =
     (case check_parameters m parameters of
        Inl e \<Rightarrow> Inl e
      | Inr _ \<Rightarrow>
          if total_concentration_factor_included_in_parameters m
          then Inr parameters
          else Inr (parameters @ [1]))"

definition database_parameter_entry_to_metos3d_model_parameters_dict ::
  "real list \<Rightarrow> error + (real list \<times> real)" where
  "database_parameter_entry_to_metos3d_model_parameters_dict entry =
     (if entry = [] then Inl IndexError else Inr (butlast entry, last entry))"

subsection \<open>Access to directories\<close>

text \<open>
  A parameter set directory is named by its index. \<open>add_value\<close> of the database stores
  the entry under the next free index.
\<close>

definition add_value :: "real list \<Rightarrow> state \<Rightarrow> nat \<times> state" where
  "add_value entry s =
     (let index = length (parameter_db s)
      in (index, s\<lparr>parameter_db := parameter_db s @ [entry],
                    events := events s @ [Add_Value index]\<rparr>))"

definition parameter_set_dir ::
  "model \<Rightarrow> state \<Rightarrow> real list \<Rightarrow> bool \<Rightarrow> (error + nat option) \<times> state" where
  "parameter_set_dir m s parameters create =
     (case database_parameter_entry m parameters of
        Inl e \<Rightarrow> (Inl e, s)
      | Inr entry \<Rightarrow>
          (case db_index m (parameter_db s) entry of
             Some index \<Rightarrow> (Inr (Some index), s)
           | None \<Rightarrow>
               if create
               then (let (index, s') = add_value entry s in (Inr (Some index), s'))
               else (Inr None, s)))"

datatype parameters_or_parameter_set_dir =
    Parameters "real list"
  | Parameter_Set_Dir nat

text \<open>
  \<open>spinup_dir\<close> returns the index whose spinup directory it means. Joining a path to
  \<open>None\<close> is a \<open>TypeError\<close>.
\<close>

definition spinup_dir ::
  "model \<Rightarrow> state \<Rightarrow> parameters_or_parameter_set_dir \<Rightarrow> bool \<Rightarrow> (error + nat) \<times> state" where
  "spinup_dir m s parameters_or_parameter_set_dir create =
     (case parameters_or_parameter_set_dir of
        Parameter_Set_Dir index \<Rightarrow> (Inr index, s)
      | Parameters parameters \<Rightarrow>
          (case parameter_set_dir m s parameters create of
             (Inl e, s') \<Rightarrow> (Inl e, s')
           | (Inr None, s') \<Rightarrow> (Inl TypeError, s')
           | (Inr (Some index), s') \<Rightarrow> (Inr index, s')))"

text \<open>
  \<open>closest_parameter_set_dir\<close>. Without \<open>no_spinup_okay\<close> the loop condition evaluates
  \<open>self.spinup_dir_with_index[i]\<close>, the subscript of a bound method, as soon as there is a
  closest index: a \<open>TypeError\<close>. With no closest index the result is \<open>None\<close>.
\<close>

definition closest_parameter_set_dir ::
  "model \<Rightarrow> state \<Rightarrow> real list \<Rightarrow> bool \<Rightarrow> error + nat option" where
  "closest_parameter_set_dir m s parameters no_spinup_okay =
     (case database_parameter_entry m parameters of
        Inl e \<Rightarrow> Inl e
      | Inr entry \<Rightarrow>
          if no_spinup_okay
          then Inr (db_closest_index m (parameter_db s) entry)
          else (let closest_indices = db_closest_indices m (parameter_db s) entry
                in if 0 < length closest_indices then Inl TypeError else Inr None))"

definition make_new_run_dir :: "state \<Rightarrow> dir \<Rightarrow> run_dir \<times> state" where
  "make_new_run_dir s output_path =
     (let next_run_index = length (run_dirs s output_path);
          rd = (output_path, next_run_index)
      in (rd, s\<lparr>run_dirs_in := (run_dirs_in s)(output_path := run_dirs_in s output_path @ [None]),
                 events := events s @ [Make_Run_Dir rd]\<rparr>))"

text \<open>\<open>np.loadtxt\<close> of the parameter file of a parameter set directory.\<close>

definition load_parameters :: "state \<Rightarrow> nat \<Rightarrow> error + real list" where
  "load_parameters s index =
     (if index < length (parameter_db s) then Inr (parameter_db s ! index) else Inl OSError)"

subsection \<open>Running jobs\<close>

datatype output_path =
    Run_Path run_dir
  | Trajectory_Tmp_Path "run_dir option"

definition wait_until_run_job_finished :: "output_path \<Rightarrow> state \<Rightarrow> state" where
  "wait_until_run_job_finished output_path s =
     (case output_path of
        Run_Path rd \<Rightarrow> s\<lparr>events := events s @ [Wait_Job rd]\<rparr>
      | Trajectory_Tmp_Path input \<Rightarrow> s\<lparr>events := events s @ [Wait_Trajectory_Job input]\<rparr>)"

text \<open>
  \<open>start_run\<close> writes the job file, starts the job and, if asked to, waits for it. The
  values that the job will report are fixed by \<open>execute\<close> when it starts. A job in a
  temporary trajectory directory leaves no run directory behind.
\<close>

definition start_run ::
  "model \<Rightarrow> real list \<Rightarrow> output_path \<Rightarrow> int \<Rightarrow> real \<Rightarrow> job_setup_kind \<Rightarrow> bool \<Rightarrow> real
     \<Rightarrow> run_dir option \<Rightarrow> bool \<Rightarrow> state \<Rightarrow> state" where
  "start_run m model_parameters output_path years_arg tolerance_arg job_setup write_trajectory
       total_concentration_factor tracer_input_dir wait_until_finished s =
     (let opts = \<lparr>job_model_parameters = model_parameters, job_years = years_arg,
                   job_tolerance = tolerance_arg,
                   job_total_concentration_factor = total_concentration_factor,
                   job_write_trajectory = write_trajectory,
                   job_tracer_input_dir = tracer_input_dir, job_setup_of = job_setup\<rparr>;
          s1 = (case output_path of
                  Run_Path rd \<Rightarrow>
                    (let (y, t) = execute m (run_dirs_in s) opts;
                         j = \<lparr>options = opts, last_year = y, last_tolerance = t\<rparr>
                     in s\<lparr>run_dirs_in := (run_dirs_in s)
                                (fst rd := (run_dirs_in s (fst rd))[snd rd := Some j]),
                           events := events s @ [Start_Job rd]\<rparr>)
                | Trajectory_Tmp_Path input \<Rightarrow>
                    s\<lparr>events := events s @ [Start_Trajectory_Job input]\<rparr>)
      in if wait_until_finished then wait_until_run_job_finished output_path s1 else s1)"

subsection \<open>The spinup matching engine\<close>

text \<open>
  \<open>matching_run_dir\<close>. An \<open>and\<close> target calls the function twice with \<open>or\<close> targets.
  With a combination that is neither, \<open>run_dir\<close> is never bound and the debug line that
  formats it raises \<open>UnboundLocalError\<close>.
\<close>

function matching_run_dir ::
  "model \<Rightarrow> state \<Rightarrow> parameters_or_parameter_set_dir \<Rightarrow> spinup_options \<Rightarrow> bool
     \<Rightarrow> (error + run_dir option) \<times> state" where
  "matching_run_dir m s parameters_or_parameter_set_dir opts start_from_closest_parameters =
     (case spinup_dir m s parameters_or_parameter_set_dir True of
        (Inl e, s0) \<Rightarrow> (Inl e, s0)
      | (Inr parameter_set_index, s0) \<Rightarrow>
     (let chain_last = last_run_dir s0 (Spinup_Dir parameter_set_index) in
      case is_run_matching_options (MODEL_SPINUP_MAX_YEARS m) s0 chain_last opts of
        (Inl e, s1) \<Rightarrow> (Inl e, s1)
      | (Inr True, s1) \<Rightarrow> (Inr chain_last, s1)
      | (Inr False, s1) \<Rightarrow>
     (case load_parameters s1 parameter_set_index of
        Inl e \<Rightarrow> (Inl e, s1)
      | Inr parameters \<Rightarrow>
     (case (if chain_last = None \<and> start_from_closest_parameters
            then (case closest_parameter_set_dir m s1 parameters False of
                    Inl e \<Rightarrow> Inl e
                  | Inr None \<Rightarrow> Inl TypeError
                  | Inr (Some closest) \<Rightarrow> Inr (last_run_dir s1 (Spinup_Dir closest)))
            else Inr chain_last) of
        Inl e \<Rightarrow> (Inl e, s1)
      | Inr last_run \<Rightarrow>
     (let s2 = (case last_run of
                  None \<Rightarrow> s1
                | Some rd \<Rightarrow> wait_until_run_job_finished (Run_Path rd) s1)
      in
      if combination opts = ''or'' then
        (let (rd, s3) = make_new_run_dir s2 (Spinup_Dir parameter_set_index) in
         if last_run = None \<and> parameters = [] then (Inl IndexError, s3)
         else
           (let total_concentration_factor = (if last_run = None then last parameters else 1);
                model_parameters = butlast parameters
            in case get_total_years s3 last_run of
                 Inl e \<Rightarrow> (Inl e, s3)
               | Inr last_years \<Rightarrow>
                   (Inr (Some rd),
                    start_run m model_parameters (Run_Path rd) (years opts - last_years)
                      (tolerance opts) Spinup False total_concentration_factor last_run True s3)))
      else if combination opts = ''and'' then
        (case matching_run_dir m s2 (Parameter_Set_Dir parameter_set_index)
                \<lparr>years = years opts, tolerance = 0, combination = ''or''\<rparr>
                start_from_closest_parameters of
           (Inl e, s3) \<Rightarrow> (Inl e, s3)
         | (Inr _, s3) \<Rightarrow>
             matching_run_dir m s3 (Parameter_Set_Dir parameter_set_index)
               \<lparr>years = MODEL_SPINUP_MAX_YEARS m, tolerance = tolerance opts,
                combination = ''or''\<rparr>
               start_from_closest_parameters)
      else (Inl UnboundLocalError, s2))))))"
  by pat_completeness auto
termination
  by (relation "measure (\<lambda>(m, s, p, opts, c). if combination opts = ''and'' then 1 else 0)") auto

declare matching_run_dir.simps [simp del]

subsection \<open>Trajectories\<close>

text \<open>
  An array is the list of its elements; its shape is its length. A load function reads
  what a trajectory job wrote for one tracer. Of the state it can use the interpolator
  cache only, which it takes and returns.
\<close>

type_synonym array = "real list"

type_synonym interpolator_cache = "real list list option"

type_synonym load_trajectory_function =
  "(nat \<Rightarrow> real list list) \<Rightarrow> nat \<Rightarrow> interpolator_cache
     \<Rightarrow> (error + array) \<times> interpolator_cache"

fun load_tracers ::
  "load_trajectory_function \<Rightarrow> (nat \<Rightarrow> real list list) \<Rightarrow> nat list \<Rightarrow> state
     \<Rightarrow> (error + array list) \<times> state" where
  "load_tracers load out [] s = (Inr [], s)"
| "load_tracers load out (tracer_index # rest) s =
     (case load out tracer_index (interpolator_cached s) of
        (Inl e, cache) \<Rightarrow> (Inl e, s\<lparr>interpolator_cached := cache\<rparr>)
      | (Inr tracer_trajectory_values, cache) \<Rightarrow>
          (case load_tracers load out rest (s\<lparr>interpolator_cached := cache\<rparr>) of
             (Inl e, s2) \<Rightarrow> (Inl e, s2)
           | (Inr trajectory_values, s2) \<Rightarrow>
               (Inr (tracer_trajectory_values # trajectory_values), s2)))"

text \<open>
  \<open>_get_trajectory\<close> (names cannot start with an underscore here): a job of one year in a
  temporary directory, started from \<open>run_dir\<close>, writes the trajectory, which is loaded
  tracer by tracer; the directory is then removed.
\<close>

definition p_get_trajectory ::
  "model \<Rightarrow> load_trajectory_function \<Rightarrow> run_dir option \<Rightarrow> real list \<Rightarrow> state
     \<Rightarrow> (error + array list) \<times> state" where
  "p_get_trajectory m load run_dir_opt model_parameters s =
     (let s1 = start_run m model_parameters (Trajectory_Tmp_Path run_dir_opt) 1 0 Trajectory True
                 1 run_dir_opt True s;
          out = trajectory_output m (run_dirs_in s1)
                  \<lparr>job_model_parameters = model_parameters, job_years = 1, job_tolerance = 0,
                   job_total_concentration_factor = 1, job_write_trajectory = True,
                   job_tracer_input_dir = run_dir_opt, job_setup_of = Trajectory\<rparr>
      in load_tracers load out [0..<METOS_TRACER_DIM m] s1)"

definition p_get_load_trajectory_function_for_all :: "model \<Rightarrow> nat \<Rightarrow> load_trajectory_function" where
  "p_get_load_trajectory_function_for_all m time_dim_desired =
     (\<lambda>out tracer_index cache.
        (Inr (load_trajectories_to_map m (out tracer_index) time_dim_desired), cache))"

text \<open>
  \<open>_interpolate\<close>, which the source calls without \<open>use_cache\<close> only. The cached
  interpolator keeps the data points it was built with; only its values are replaced.
\<close>

definition p_interpolate ::
  "model \<Rightarrow> real list list \<Rightarrow> real list list \<Rightarrow> interpolator_cache
     \<Rightarrow> (error + array) \<times> interpolator_cache" where
  "p_interpolate m data interpolation_points cache =
     (if list_ex (\<lambda>row. row = []) data then (Inl IndexError, cache)
      else
        (let data_points = map butlast data;
             data_values = map last data;
             interpolator = (case cache of
                               Some cached \<Rightarrow> cached
                             | None \<Rightarrow> data_points)
         in case interpolate m interpolator data_values interpolation_points of
              None \<Rightarrow> (Inl AssertionError, Some interpolator)
            | Some interpolated_values \<Rightarrow> (Inr interpolated_values, Some interpolator)))"

subsection \<open>Query points\<close>

text \<open>
  \<open>np.where(self.lsm.lsm > 0)[1]\<close>: the indices along the second axis of the entries of
  the mask that are positive. \<open>min\<close> and \<open>max\<close> of an empty array raise \<open>ValueError\<close>.
\<close>

definition where_positive_1 :: "int list list \<Rightarrow> nat list" where
  "where_positive_1 lsm = concat (map (\<lambda>row. filter (\<lambda>j. row ! j > 0) [0..<length row]) lsm)"

definition array_min :: "nat list \<Rightarrow> error + nat" where
  "array_min xs = (case xs of [] \<Rightarrow> Inl Zero_Size_Array | x # rest \<Rightarrow> Inr (fold min rest x))"

definition array_max :: "nat list \<Rightarrow> error + nat" where
  "array_max xs = (case xs of [] \<Rightarrow> Inl Zero_Size_Array | x # rest \<Rightarrow> Inr (fold max rest x))"

text \<open>The two inner loops of lines 707 to 714: column \<open>index\<close> of every point.\<close>

definition clamp_below :: "real \<Rightarrow> nat \<Rightarrow> real list list \<Rightarrow> real list list" where
  "clamp_below value_min index pts =
     map (\<lambda>p. if p ! index < value_min then p[index := value_min] else p) pts"

definition clamp_above :: "real \<Rightarrow> nat \<Rightarrow> real list list \<Rightarrow> real list list" where
  "clamp_above value_max index pts =
     map (\<lambda>p. if p ! index > value_max then p[index := value_max] else p) pts"

text \<open>
  The body of the loop over \<open>points\<close> (lines 702 to 716) for the points of one tracer.
  The assertion wants a two-dimensional array with four columns.
\<close>

definition tracer_interpolation_points :: "model \<Rightarrow> real list list \<Rightarrow> error + real list list" where
  "tracer_interpolation_points m tracer_points =
     (let pts = coordinates_to_map_indices m tracer_points in
      if \<not> list_all (\<lambda>p. length p = 4) pts then Inl AssertionError
      else if MODEL_INTERPOLATOR_NUMBER_OF_LINEAR_INTERPOLATOR m > 0 then
        (case array_min (where_positive_1 (lsm_lsm m)) of
           Inl e \<Rightarrow> Inl e
         | Inr value_min \<Rightarrow>
             (let pts1 = clamp_below 0 3 (clamp_below (real value_min) 2 pts) in
              case array_max (where_positive_1 (lsm_lsm m)) of
                Inl e \<Rightarrow> Inl e
              | Inr value_max \<Rightarrow>
                  Inr (clamp_above (real_of_int (lsm_z_dim m - 1)) 3
                         (clamp_above (real value_max) 2 pts1))))
      else Inr pts)"

fun interpolation_points_of :: "model \<Rightarrow> real list list list \<Rightarrow> error + real list list list" where
  "interpolation_points_of m [] = Inr []"
| "interpolation_points_of m (tracer_points # rest) =
     (case tracer_interpolation_points m tracer_points of
        Inl e \<Rightarrow> Inl e
      | Inr pts \<Rightarrow>
          (case interpolation_points_of m rest of
             Inl e \<Rightarrow> Inl e
           | Inr others \<Rightarrow> Inr (pts # others)))"

text \<open>
  \<open>_get_load_trajectory_function_for_points\<close>. The rows of a trajectory are the rows that
  \<open>load_trajectories_to_map_index_array\<close> returns.
\<close>

definition p_get_load_trajectory_function_for_points ::
  "model \<Rightarrow> real list list list \<Rightarrow> error + load_trajectory_function" where
  "p_get_load_trajectory_function_for_points m points =
     (case interpolation_points_of m points of
        Inl e \<Rightarrow> Inl e
      | Inr interpolation_points \<Rightarrow>
          Inr (\<lambda>out tracer_index cache.
                 if tracer_index < length interpolation_points
                 then p_interpolate m (out tracer_index) (interpolation_points ! tracer_index)
                        cache
                 else (Inl IndexError, cache)))"

subsection \<open>Model values\<close>

definition p_f ::
  "model \<Rightarrow> load_trajectory_function \<Rightarrow> real list \<Rightarrow> spinup_options \<Rightarrow> state
     \<Rightarrow> (error + array list) \<times> state" where
  "p_f m load parameters opts s =
     (case matching_run_dir m s (Parameters parameters) opts
             (MODEL_START_FROM_CLOSEST_PARAMETER_SET m) of
        (Inl e, s1) \<Rightarrow> (Inl e, s1)
      | (Inr matching, s1) \<Rightarrow>
          (case metos3d_model_parameters_dict m parameters of
             Inl e \<Rightarrow> (Inl e, s1)
           | Inr (model_parameters, total_concentration_factor) \<Rightarrow>
               p_get_trajectory m load matching model_parameters s1))"

subsection \<open>Finite differences\<close>

text \<open>
  An in-place operation of numpy on arrays of one dimension: the right operand has the shape
  of the left one or a single element, which is then used for every place. Arrays of more
  dimensions are taken flat. A division stops the model where numpy would divide by zero.
\<close>

definition inplace :: "(real \<Rightarrow> real \<Rightarrow> real) \<Rightarrow> array \<Rightarrow> array \<Rightarrow> error + array" where
  "inplace op a b =
     (if length b = length a then Inr (map2 op a b)
      else if length b = 1 then Inr (map (\<lambda>x. op x (hd b)) a)
      else Inl Shape_Mismatch)"

definition inplace_divide :: "array \<Rightarrow> array \<Rightarrow> error + array" where
  "inplace_divide a b =
     (case inplace (/) a b of
        Inl e \<Rightarrow> Inl e
      | Inr r \<Rightarrow> if a \<noteq> [] \<and> list_ex (\<lambda>x. x = 0) b then Inl Division_By_Zero else Inr r)"

fun map_result :: "('a \<Rightarrow> error + 'b) \<Rightarrow> 'a list \<Rightarrow> error + 'b list" where
  "map_result g [] = Inr []"
| "map_result g (x # xs) =
     (case g x of
        Inl e \<Rightarrow> Inl e
      | Inr y \<Rightarrow> (case map_result g xs of Inl e \<Rightarrow> Inl e | Inr ys \<Rightarrow> Inr (y # ys)))"

text \<open>
  The bounds and typical values with the entry for the total concentration factor appended.
  The upper bound of the factor is \<open>float('inf')\<close>, here \<open>None\<close>: no value exceeds it.
\<close>

definition parameters_lower_bound_ext :: "model \<Rightarrow> real list" where
  "parameters_lower_bound_ext m = parameters_lower_bound m @ [0]"

definition parameters_upper_bound_ext :: "model \<Rightarrow> real option list" where
  "parameters_upper_bound_ext m = map Some (parameters_upper_bound m) @ [None]"

definition parameters_typical_values_ext :: "model \<Rightarrow> real list" where
  "parameters_typical_values_ext m = parameters_typical_values m @ [1]"

definition violates_upper :: "real \<Rightarrow> real option \<Rightarrow> bool" where
  "violates_upper v upper_bound = (case upper_bound of None \<Rightarrow> False | Some u \<Rightarrow> v > u)"

text \<open>
  Lines 859 to 878 for the perturbed component: \<open>entry_i\<close> is
  \<open>database_parameter_entry[parameter_index]\<close>, \<open>parameter_i\<close> is
  \<open>parameters[parameter_index]\<close> and \<open>h_nominal\<close> is \<open>h_factors[h_factor_index] * h_i\<close>.
  The result is the perturbed value and the value of \<open>h\<close> that is kept.
\<close>

definition perturbation ::
  "int \<Rightarrow> real \<Rightarrow> real \<Rightarrow> real \<Rightarrow> real option \<Rightarrow> real \<Rightarrow> real \<times> real" where
  "perturbation accuracy_order entry_i parameter_i lower_bound upper_bound h_nominal =
     (let v0 = entry_i + h_nominal;
          violates_lower_bound = v0 < lower_bound;
          violates_upper_bound = violates_upper v0 upper_bound;
          v = (if accuracy_order = 1
               then (if violates_lower_bound \<or> violates_upper_bound
                     then parameter_i + h_nominal * (- 1)
                     else v0)
               else (if violates_lower_bound then lower_bound
                     else if violates_upper_bound
                     then (case upper_bound of Some u \<Rightarrow> u | None \<Rightarrow> v0)
                     else v0))
      in (v, v - parameter_i))"

text \<open>The local variables of \<open>_df\<close> that its two loops read.\<close>

record df_locals =
  parameter_set_index :: nat
  spinup_options_derivative_base :: spinup_options
  spinup_matching_run_dir :: "run_dir option"
  database_entry :: "real list"
  parameters_now :: "real list"
  partial_derivatives_mask :: "bool list"
  h_factors :: "real list"

definition sign_int :: "real \<Rightarrow> int" where
  "sign_int h = (if h > 0 then 1 else if h < 0 then - 1 else 0)"

text \<open>
  \<open>remove_recursively\<close> with \<open>exclude_dir=True\<close> empties a run directory and leaves the
  directory itself.
\<close>

definition remove_contents :: "run_dir \<Rightarrow> state \<Rightarrow> state" where
  "remove_contents rd s =
     s\<lparr>run_dirs_in := (run_dirs_in s)(fst rd := (run_dirs_in s (fst rd))[snd rd := None]),
       events := events s @ [Remove_Contents rd]\<rparr>"

text \<open>
  Lines 882 to 920: the run directory of one perturbation. An existing last run is reused if
  it matches the derivative years and the run it started from matches the base target;
  otherwise it is emptied and a new run is started, without waiting for it.
\<close>

definition partial_derivative_run ::
  "model \<Rightarrow> df_locals \<Rightarrow> nat \<Rightarrow> real list \<Rightarrow> real \<Rightarrow> state \<Rightarrow> (error + run_dir option) \<times> state" where
  "partial_derivative_run m loc parameter_index parameters_for_derivative h s =
     (let h_factor = sign_int h;
          partial_derivative_dir =
            Partial_Derivative_Dir (parameter_set_index loc) (derivative_step_size m)
              parameter_index h_factor;
          partial_derivative_run_dir = last_run_dir s partial_derivative_dir;
          partial_derivative_spinup_run_dir =
            (case partial_derivative_run_dir of
               None \<Rightarrow> None
             | Some rd \<Rightarrow>
                 (case load_job s rd of
                    Inl e \<Rightarrow> None
                  | Inr j \<Rightarrow> job_tracer_input_dir (options j)))
      in case is_run_matching_options (MODEL_SPINUP_MAX_YEARS m) s partial_derivative_run_dir
                \<lparr>years = derivative_years m, tolerance = 0, combination = ''or''\<rparr> of
           (Inl e, s1) \<Rightarrow> (Inl e, s1)
         | (Inr run_matching, s1) \<Rightarrow>
             (case (if \<not> run_matching then (Inr True, s1)
                    else (case is_run_matching_options (MODEL_SPINUP_MAX_YEARS m) s1
                                 partial_derivative_spinup_run_dir
                                 (spinup_options_derivative_base loc) of
                            (Inl e, s2) \<Rightarrow> (Inl e, s2)
                          | (Inr spinup_matching, s2) \<Rightarrow> (Inr (\<not> spinup_matching), s2))) of
                (Inl e, s2) \<Rightarrow> (Inl e, s2)
              | (Inr False, s2) \<Rightarrow> (Inr partial_derivative_run_dir, s2)
              | (Inr True, s2) \<Rightarrow>
                  (let s3 = (case partial_derivative_run_dir of
                               None \<Rightarrow> s2
                             | Some rd \<Rightarrow> remove_contents rd s2);
                       (rd, s4) = make_new_run_dir s3 partial_derivative_dir
                   in case database_parameter_entry_to_metos3d_model_parameters_dict
                             parameters_for_derivative of
                        Inl e \<Rightarrow> (Inl e, s4)
                      | Inr (model_parameters, total_concentration_factor) \<Rightarrow>
                          (Inr (Some rd),
                           start_run m model_parameters (Run_Path rd) (derivative_years m) 0
                             Derivative False total_concentration_factor
                             (spinup_matching_run_dir loc) False s4))))"

text \<open>
  The loop over \<open>h_factor_index\<close> of lines 856 to 920 for one parameter. Each step gives the
  perturbed parameters, the value of \<open>h\<close> and the run directory of the perturbation.
\<close>

type_synonym perturbation_run = "real list \<times> real \<times> run_dir option"

fun start_h_factor_runs ::
  "model \<Rightarrow> df_locals \<Rightarrow> nat \<Rightarrow> real \<Rightarrow> real list \<Rightarrow> state
     \<Rightarrow> (error + perturbation_run list) \<times> state" where
  "start_h_factor_runs m loc parameter_index h_i [] s = (Inr [], s)"
| "start_h_factor_runs m loc parameter_index h_i (h_factor # rest) s =
     (let (v, h) = perturbation (derivative_accuracy_order m)
                     (database_entry loc ! parameter_index)
                     (parameters_now loc ! parameter_index)
                     (parameters_lower_bound_ext m ! parameter_index)
                     (parameters_upper_bound_ext m ! parameter_index)
                     (h_factor * h_i);
          parameters_for_derivative = (database_entry loc)[parameter_index := v]
      in case partial_derivative_run m loc parameter_index parameters_for_derivative h s of
           (Inl e, s1) \<Rightarrow> (Inl e, s1)
         | (Inr rd, s1) \<Rightarrow>
             (case start_h_factor_runs m loc parameter_index h_i rest s1 of
                (Inl e, s2) \<Rightarrow> (Inl e, s2)
              | (Inr runs, s2) \<Rightarrow> (Inr ((parameters_for_derivative, h, rd) # runs), s2)))"

text \<open>
  The first loop of \<open>_df\<close> (lines 851 to 920) over the parameter indices. A parameter that
  the mask leaves out gets no runs. An index outside one of the arrays raises
  \<open>IndexError\<close> before anything is done for that parameter.
\<close>

fun start_partial_derivative_runs ::
  "model \<Rightarrow> df_locals \<Rightarrow> nat list \<Rightarrow> state \<Rightarrow> (error + perturbation_run list list) \<times> state" where
  "start_partial_derivative_runs m loc [] s = (Inr [], s)"
| "start_partial_derivative_runs m loc (parameter_index # rest) s =
     (if parameter_index \<ge> length (partial_derivatives_mask loc) then (Inl IndexError, s)
      else if partial_derivatives_mask loc ! parameter_index then
        (if parameter_index \<ge> length (parameters_typical_values_ext m)
            \<or> parameter_index \<ge> length (database_entry loc)
            \<or> parameter_index \<ge> length (parameters_lower_bound_ext m)
            \<or> parameter_index \<ge> length (parameters_upper_bound_ext m)
            \<or> parameter_index \<ge> length (parameters_now loc)
         then (Inl IndexError, s)
         else
           (let h_i = parameters_typical_values_ext m ! parameter_index * derivative_step_size m
            in case start_h_factor_runs m loc parameter_index h_i (h_factors loc) s of
                 (Inl e, s1) \<Rightarrow> (Inl e, s1)
               | (Inr runs, s1) \<Rightarrow>
                   (case start_partial_derivative_runs m loc rest s1 of
                      (Inl e, s2) \<Rightarrow> (Inl e, s2)
                    | (Inr table, s2) \<Rightarrow> (Inr (runs # table), s2))))
      else
        (case start_partial_derivative_runs m loc rest s of
           (Inl e, s2) \<Rightarrow> (Inl e, s2)
         | (Inr table, s2) \<Rightarrow> (Inr ([] # table), s2)))"

text \<open>
  \<open>df\<close> holds, for every tracer, \<open>None\<close> or an array with one row per parameter. Lines 940
  to 943 add the trajectory of one perturbation, with its sign, to the row of the parameter.
\<close>

type_synonym df_arrays = "array list option list"

definition add_trajectory ::
  "nat \<Rightarrow> nat \<Rightarrow> nat \<Rightarrow> array list \<Rightarrow> df_arrays \<Rightarrow> error + df_arrays" where
  "add_trajectory parameters_len parameter_index h_factor_index trajectory df =
     map_result
       (\<lambda>(d, tracer_trajectory).
          let rows = (case d of
                        None \<Rightarrow> replicate parameters_len (replicate (length tracer_trajectory) 0)
                      | Some rows \<Rightarrow> rows)
          in if parameter_index \<ge> length rows then Inl IndexError
             else (case inplace (+) (rows ! parameter_index)
                          (map (\<lambda>x. (- 1) ^ h_factor_index * x) tracer_trajectory) of
                     Inl e \<Rightarrow> Inl e
                   | Inr row \<Rightarrow> Inr (Some (rows[parameter_index := row]))))
       (zip df trajectory)"

text \<open>
  The loop over \<open>h_factor_index\<close> of lines 930 to 943: wait for the run of the perturbation,
  get its trajectory, add it.
\<close>

fun add_trajectories ::
  "model \<Rightarrow> load_trajectory_function \<Rightarrow> nat \<Rightarrow> nat \<Rightarrow> nat \<Rightarrow> perturbation_run list
     \<Rightarrow> df_arrays \<Rightarrow> state \<Rightarrow> (error + df_arrays) \<times> state" where
  "add_trajectories m load parameters_len parameter_index h_factor_index [] df s = (Inr df, s)"
| "add_trajectories m load parameters_len parameter_index h_factor_index
       ((parameters_for_derivative, h, rd_opt) # rest) df s =
     (case rd_opt of
        None \<Rightarrow> (Inl TypeError, s)
      | Some rd \<Rightarrow>
          (let s1 = wait_until_run_job_finished (Run_Path rd) s in
           case database_parameter_entry_to_metos3d_model_parameters_dict
                  parameters_for_derivative of
             Inl e \<Rightarrow> (Inl e, s1)
           | Inr (model_parameters, total_concentration_factor) \<Rightarrow>
               (case p_get_trajectory m load (Some rd) model_parameters s1 of
                  (Inl e, s2) \<Rightarrow> (Inl e, s2)
                | (Inr trajectory, s2) \<Rightarrow>
                    (case add_trajectory parameters_len parameter_index h_factor_index
                            trajectory df of
                       Inl e \<Rightarrow> (Inl e, s2)
                     | Inr df' \<Rightarrow>
                         add_trajectories m load parameters_len parameter_index
                           (Suc h_factor_index) rest df' s2))))"

text \<open>
  Lines 946 to 951 for one parameter: \<open>h_row\<close> is \<open>h[parameter_index]\<close>. With accuracy
  order 1 the base trajectory \<open>f\<close> is subtracted and the row divided by \<open>h_row\<close>, otherwise
  the row is divided by the sum of the absolute values of \<open>h_row\<close>.
\<close>

definition finish_parameter ::
  "int \<Rightarrow> array list \<Rightarrow> nat \<Rightarrow> real list \<Rightarrow> df_arrays \<Rightarrow> error + df_arrays" where
  "finish_parameter accuracy_order f parameter_index h_row df =
     map_result
       (\<lambda>(tracer_index, d).
          case d of
            None \<Rightarrow> Inl TypeError
          | Some rows \<Rightarrow>
              if parameter_index \<ge> length rows then Inl IndexError
              else
                (case (if accuracy_order = 1
                       then (if tracer_index \<ge> length f then Inl IndexError
                             else (case inplace (-) (rows ! parameter_index) (f ! tracer_index) of
                                     Inl e \<Rightarrow> Inl e
                                   | Inr r \<Rightarrow> inplace_divide r h_row))
                       else inplace_divide (rows ! parameter_index) [sum_list (map abs h_row)]) of
                   Inl e \<Rightarrow> Inl e
                 | Inr row \<Rightarrow> Inr (Some (rows[parameter_index := row]))))
       (zip [0..<length df] df)"

text \<open>The second loop of \<open>_df\<close> (lines 926 to 951) over the parameter indices.\<close>

fun calculate_df ::
  "model \<Rightarrow> load_trajectory_function \<Rightarrow> array list \<Rightarrow> nat \<Rightarrow> bool list
     \<Rightarrow> (nat \<times> perturbation_run list) list \<Rightarrow> df_arrays \<Rightarrow> state
     \<Rightarrow> (error + df_arrays) \<times> state" where
  "calculate_df m load f parameters_len msk [] df s = (Inr df, s)"
| "calculate_df m load f parameters_len msk ((parameter_index, runs) # rest) df s =
     (if parameter_index \<ge> length msk then (Inl IndexError, s)
      else if msk ! parameter_index then
        (case add_trajectories m load parameters_len parameter_index 0 runs df s of
           (Inl e, s1) \<Rightarrow> (Inl e, s1)
         | (Inr df1, s1) \<Rightarrow>
             (case finish_parameter (derivative_accuracy_order m) f parameter_index
                     (map (\<lambda>(parameters_for_derivative, h, rd). h) runs) df1 of
                Inl e \<Rightarrow> (Inl e, s1)
              | Inr df2 \<Rightarrow> calculate_df m load f parameters_len msk rest df2 s1))
      else calculate_df m load f parameters_len msk rest df s)"

text \<open>
  Lines 954 to 956: the rows of the parameters in the mask, in their order, and the
  assertion on their number.
\<close>

definition apply_mask :: "bool list \<Rightarrow> df_arrays \<Rightarrow> error + array list list" where
  "apply_mask msk df =
     map_result
       (\<lambda>d. case d of
               None \<Rightarrow> Inl TypeError
             | Some rows \<Rightarrow>
                 if length msk \<noteq> length rows then Inl IndexError
                 else (let selected = map fst (filter snd (zip rows msk))
                       in if length selected \<noteq> length (filter id msk) then Inl AssertionError
                          else Inr selected))
       df"

text \<open>Lines 791 to 799 and 804 to 810.\<close>

definition prepare_mask :: "model \<Rightarrow> real list \<Rightarrow> bool list option \<Rightarrow> error + bool list" where
  "prepare_mask m parameters mask_opt =
     (case (case mask_opt of
              None \<Rightarrow> Inr (replicate (length parameters) True)
            | Some given \<Rightarrow>
                if length given \<noteq> length parameters
                then Inl (Mask_Length (length given) (length parameters))
                else Inr given) of
        Inl e \<Rightarrow> Inl e
      | Inr msk \<Rightarrow>
          if \<not> total_concentration_factor_included_in_parameters m
          then Inr (msk @ [False])
          else Inr msk)"

definition choose_h_factors :: "int \<Rightarrow> error + real list" where
  "choose_h_factors accuracy_order =
     (if accuracy_order = 1 then Inr [1]
      else if accuracy_order = 2 then Inr [1, - 1]
      else Inl (Accuracy_Order_Not_Supported accuracy_order))"

text \<open>
  Lines 825 to 832: with accuracy order 1 the base run is the run before the matching
  spinup run if their years differ by the derivative years, and \<open>f\<close> is computed.
  \<open>previous_run_dir\<close> splits the path of the run directory, a \<open>TypeError\<close> for \<open>None\<close>.
\<close>

definition base_run_and_f ::
  "model \<Rightarrow> load_trajectory_function \<Rightarrow> real list \<Rightarrow> run_dir option \<Rightarrow> int \<Rightarrow> state
     \<Rightarrow> (error + (run_dir option \<times> array list)) \<times> state" where
  "base_run_and_f m load parameters spinup_matching spinup_matching_run_years s =
     (if derivative_accuracy_order m = 1 then
        (case spinup_matching of
           None \<Rightarrow> (Inl TypeError, s)
         | Some rd \<Rightarrow>
             (let spinup_previous_run_dir = previous_run_dir rd in
              case get_total_years s spinup_previous_run_dir of
                Inl e \<Rightarrow> (Inl e, s)
              | Inr spinup_previous_run_years \<Rightarrow>
                  (let (base_dir, base_years) =
                         (if spinup_previous_run_years
                               = spinup_matching_run_years - derivative_years m
                          then (spinup_previous_run_dir, spinup_previous_run_years)
                          else (spinup_matching, spinup_matching_run_years))
                   in case p_f m load parameters
                             \<lparr>years = base_years + derivative_years m, tolerance = 0,
                              combination = ''or''\<rparr> s of
                        (Inl e, s1) \<Rightarrow> (Inl e, s1)
                      | (Inr f, s1) \<Rightarrow> (Inr (base_dir, f), s1))))
      else (Inr (spinup_matching, []), s))"

text \<open>
  \<open>_df\<close>. With the total concentration factor among the parameters,
  \<open>database_parameter_entry\<close> returns the array \<open>parameters\<close> itself, so the assignment
  of line 836 to its last element also changes \<open>parameters\<close>: \<open>parameters_now\<close> is what
  the loops read as \<open>parameters\<close>.
\<close>

definition p_df ::
  "model \<Rightarrow> load_trajectory_function \<Rightarrow> real list \<Rightarrow> spinup_options \<Rightarrow> bool list option
     \<Rightarrow> state \<Rightarrow> (error + array list list) \<times> state" where
  "p_df m load parameters opts mask_opt s =
     (case prepare_mask m parameters mask_opt of
        Inl e \<Rightarrow> (Inl e, s)
      | Inr msk \<Rightarrow>
     (case choose_h_factors (derivative_accuracy_order m) of
        Inl e \<Rightarrow> (Inl e, s)
      | Inr factors \<Rightarrow>
     (case parameter_set_dir m s parameters True of
        (Inl e, s1) \<Rightarrow> (Inl e, s1)
      | (Inr None, s1) \<Rightarrow> (Inl TypeError, s1)
      | (Inr (Some index), s1) \<Rightarrow>
     (let base = \<lparr>years = years opts - derivative_years m, tolerance = tolerance opts,
                  combination = combination opts\<rparr>
      in
      case matching_run_dir m s1 (Parameter_Set_Dir index) base
             (MODEL_START_FROM_CLOSEST_PARAMETER_SET m) of
        (Inl e, s2) \<Rightarrow> (Inl e, s2)
      | (Inr spinup_matching, s2) \<Rightarrow>
     (case get_total_years s2 spinup_matching of
        Inl e \<Rightarrow> (Inl e, s2)
      | Inr spinup_matching_run_years \<Rightarrow>
     (case base_run_and_f m load parameters spinup_matching spinup_matching_run_years s2 of
        (Inl e, s3) \<Rightarrow> (Inl e, s3)
      | (Inr (base_dir, f), s3) \<Rightarrow>
     (case database_parameter_entry m parameters of
        Inl e \<Rightarrow> (Inl e, s3)
      | Inr entry0 \<Rightarrow>
          if entry0 = [] then (Inl IndexError, s3)
          else
     (let entry = entry0[length entry0 - 1 := 1];
          parameters_len = length entry;
          loc = \<lparr>parameter_set_index = index,
                 spinup_options_derivative_base = base,
                 spinup_matching_run_dir = base_dir,
                 database_entry = entry,
                 parameters_now =
                   (if total_concentration_factor_included_in_parameters m
                    then entry else parameters),
                 partial_derivatives_mask = msk,
                 h_factors = factors\<rparr>
      in
      case start_partial_derivative_runs m loc [0..<parameters_len] s3 of
        (Inl e, s4) \<Rightarrow> (Inl e, s4)
      | (Inr table, s4) \<Rightarrow>
     (case calculate_df m load f parameters_len msk (zip [0..<parameters_len] table)
             (replicate (METOS_TRACER_DIM m) None) s4 of
        (Inl e, s5) \<Rightarrow> (Inl e, s5)
      | (Inr df, s5) \<Rightarrow>
     (case apply_mask msk df of
        Inl e \<Rightarrow> (Inl e, s5)
      | Inr result \<Rightarrow> (Inr result, s5)))))))))))"

subsection \<open>Model values at points\<close>

text \<open>
  \<open>f_points\<close> and \<open>df_points\<close>. The debug line before the check takes the length of
  every element of \<open>points\<close>, which has no effect on a sequence of point arrays. The last
  assertions are on the number of tracers; there is no NaN among reals.
\<close>

definition f_points ::
  "model \<Rightarrow> real list \<Rightarrow> real list list list \<Rightarrow> state \<Rightarrow> (error + array list) \<times> state" where
  "f_points m parameters points s =
     (if length points \<noteq> 2 then (Inl (Points_Length (length points)), s)
      else
        (case check_parameters m parameters of
           Inl e \<Rightarrow> (Inl e, s)
         | Inr _ \<Rightarrow>
             (case p_get_load_trajectory_function_for_points m points of
                Inl e \<Rightarrow> (Inl e, s)
              | Inr load \<Rightarrow>
                  (case p_f m load parameters (model_spinup_options m) s of
                     (Inl e, s1) \<Rightarrow> (Inl e, s1)
                   | (Inr f, s1) \<Rightarrow>
                       if length f \<noteq> 2 then (Inl AssertionError, s1) else (Inr f, s1)))))"

definition df_points ::
  "model \<Rightarrow> real list \<Rightarrow> real list list list \<Rightarrow> bool list option \<Rightarrow> state
     \<Rightarrow> (error + array list list) \<times> state" where
  "df_points m parameters points mask_opt s =
     (if length points \<noteq> 2 then (Inl (Points_Length (length points)), s)
      else
        (case check_parameters m parameters of
           Inl e \<Rightarrow> (Inl e, s)
         | Inr _ \<Rightarrow>
             (case p_get_load_trajectory_function_for_points m points of
                Inl e \<Rightarrow> (Inl e, s)
              | Inr load \<Rightarrow>
                  (case p_df m load parameters (model_spinup_options m) mask_opt s of
                     (Inl e, s1) \<Rightarrow> (Inl e, s1)
                   | (Inr df, s1) \<Rightarrow>
                       if length df \<noteq> 2 then (Inl AssertionError, s1) else (Inr df, s1)))))"

subsection \<open>Notions used in the statements\<close>

text \<open>The events that create a run directory or start a job.\<close>

fun creates_or_launches :: "event \<Rightarrow> bool" where
  "creates_or_launches (Make_Run_Dir rd) = True"
| "creates_or_launches (Start_Job rd) = True"
| "creates_or_launches (Start_Trajectory_Job i) = True"
| "creates_or_launches (Wait_Job rd) = False"
| "creates_or_launches (Remove_Contents rd) = False"
| "creates_or_launches (Add_Value n) = False"
| "creates_or_launches (Wait_Trajectory_Job i) = False"


text \<open>
  Lines 515 to 519 of \<open>matching_run_dir\<close> on their own: the run that a new run starts
  from.
\<close>

definition seed_last_run ::
  "model \<Rightarrow> state \<Rightarrow> run_dir option \<Rightarrow> real list \<Rightarrow> bool \<Rightarrow> error + run_dir option" where
  "seed_last_run m s1 chain_last parameters c =
     (if chain_last = None \<and> c
      then (case closest_parameter_set_dir m s1 parameters False of
              Inl e \<Rightarrow> Inl e
            | Inr None \<Rightarrow> Inl TypeError
            | Inr (Some closest) \<Rightarrow> Inr (last_run_dir s1 (Spinup_Dir closest)))
      else Inr chain_last)"


text \<open>
  The converted points of one tracer with the third and fourth column brought into the
  range of the mask: the third between the least and the greatest index along the second
  axis of the mask at which the mask is positive, the fourth between 0 and \<open>z_dim - 1\<close>.
\<close>

definition clamped_points :: "model \<Rightarrow> real list list \<Rightarrow> real list list" where
  "clamped_points m pts =
     map (\<lambda>p. [p ! 0, p ! 1,
                min (real (Max (set (where_positive_1 (lsm_lsm m)))))
                    (max (real (Min (set (where_positive_1 (lsm_lsm m))))) (p ! 2)),
                min (real_of_int (lsm_z_dim m - 1)) (max 0 (p ! 3))]) pts"


text \<open>
  The reading of the clamping that has the temporal and the vertical coordinate clamped: the
  first column of every point, its index along the time axis, lies between 0 and
  \<open>t_dim - 1\<close>, and the fourth, its index along the vertical axis, between 0 and
  \<open>z_dim - 1\<close>.
\<close>

definition temporal_and_vertical_in_range :: "model \<Rightarrow> real list list \<Rightarrow> bool" where
  "temporal_and_vertical_in_range m pts =
     list_all (\<lambda>p. 0 \<le> p ! 0 \<and> p ! 0 \<le> real_of_int (lsm_t_dim m - 1)
                  \<and> 0 \<le> p ! 3 \<and> p ! 3 \<le> real_of_int (lsm_z_dim m - 1)) pts"


subsection \<open>Notions used in the statements about the derivative\<close>

text \<open>
  The right operand of an in-place operation as numpy uses it for a left operand of
  length \<open>n\<close>: an array of that length is taken as it is, an array with one element is
  repeated.
\<close>

definition broadcast :: "nat \<Rightarrow> array \<Rightarrow> array" where
  "broadcast n b = (if length b = n then b else replicate n (hd b))"

text \<open>
  The steps of \<open>add_trajectory\<close> (lines 940 to 943) and of \<open>finish_parameter\<close> (lines
  946 to 951) for one tracer; \<open>signed\<close> is the trajectory with the sign
  \<open>(-1)**h_factor_index\<close>.
\<close>

definition signed :: "nat \<Rightarrow> array \<Rightarrow> array" where
  "signed k tr = map (\<lambda>x. (- 1) ^ k * x) tr"

definition add_to_tracer :: "nat \<Rightarrow> nat \<Rightarrow> nat \<Rightarrow> array list option \<Rightarrow> array \<Rightarrow> error + array list option" where
  "add_to_tracer plen i k d tr =
     (let rows = (case d of None \<Rightarrow> replicate plen (replicate (length tr) 0) | Some rows \<Rightarrow> rows)
      in if i \<ge> length rows then Inl IndexError
         else (case inplace (+) (rows ! i) (signed k tr) of
                 Inl e \<Rightarrow> Inl e
               | Inr row \<Rightarrow> Inr (Some (rows[i := row]))))"

definition finish_tracer ::
  "int \<Rightarrow> array list \<Rightarrow> nat \<Rightarrow> real list \<Rightarrow> nat \<Rightarrow> array list option \<Rightarrow> error + array list option" where
  "finish_tracer accuracy_order f i h_row tracer_index d =
     (case d of
        None \<Rightarrow> Inl TypeError
      | Some rows \<Rightarrow>
          if i \<ge> length rows then Inl IndexError
          else
            (case (if accuracy_order = 1
                   then (if tracer_index \<ge> length f then Inl IndexError
                         else (case inplace (-) (rows ! i) (f ! tracer_index) of
                                 Inl e \<Rightarrow> Inl e
                               | Inr r \<Rightarrow> inplace_divide r h_row))
                   else inplace_divide (rows ! i) [sum_list (map abs h_row)]) of
               Inl e \<Rightarrow> Inl e
             | Inr row \<Rightarrow> Inr (Some (rows[i := row]))))"

text \<open>
  The row of parameter \<open>i\<close> in the array of one tracer: still untouched (the array not
  yet made, or the row zero), or equal to \<open>R\<close>.
\<close>

definition pristine_row :: "nat \<Rightarrow> nat \<Rightarrow> array list option \<Rightarrow> bool" where
  "pristine_row plen i d =
     (case d of None \<Rightarrow> True
      | Some rows \<Rightarrow> length rows = plen \<and> rows ! i = replicate (length (rows ! i)) 0)"

definition has_row :: "nat \<Rightarrow> nat \<Rightarrow> array \<Rightarrow> array list option \<Rightarrow> bool" where
  "has_row plen i R d =
     (case d of None \<Rightarrow> False | Some rows \<Rightarrow> length rows = plen \<and> rows ! i = R)"

text \<open>
  The run directory that an event is about, the parameter that the directory of a
  perturbation belongs to, and the events about the runs of perturbations: all of them, and
  those of parameter \<open>i\<close>. Trajectory jobs run in temporary directories and are not among
  them.
\<close>

fun event_run_dir :: "event \<Rightarrow> run_dir option" where
  "event_run_dir (Make_Run_Dir rd) = Some rd"
| "event_run_dir (Start_Job rd) = Some rd"
| "event_run_dir (Wait_Job rd) = Some rd"
| "event_run_dir (Remove_Contents rd) = Some rd"
| "event_run_dir (Add_Value n) = None"
| "event_run_dir (Start_Trajectory_Job i) = None"
| "event_run_dir (Wait_Trajectory_Job i) = None"

fun perturbed_parameter :: "dir \<Rightarrow> nat option" where
  "perturbed_parameter (Spinup_Dir n) = None"
| "perturbed_parameter (Partial_Derivative_Dir n step_size i sign) = Some i"

definition perturbation_event :: "event \<Rightarrow> bool" where
  "perturbation_event e =
     (case event_run_dir e of None \<Rightarrow> False | Some rd \<Rightarrow> perturbed_parameter (fst rd) \<noteq> None)"


text \<open>The wait for a run, and the start of a run.\<close>

fun is_wait :: "event \<Rightarrow> bool" where
  "is_wait (Wait_Job rd) = True"
| "is_wait (Make_Run_Dir rd) = False"
| "is_wait (Start_Job rd) = False"
| "is_wait (Remove_Contents rd) = False"
| "is_wait (Add_Value n) = False"
| "is_wait (Start_Trajectory_Job i) = False"
| "is_wait (Wait_Trajectory_Job i) = False"

fun is_start :: "event \<Rightarrow> bool" where
  "is_start (Start_Job rd) = True"
| "is_start (Make_Run_Dir rd) = False"
| "is_start (Wait_Job rd) = False"
| "is_start (Remove_Contents rd) = False"
| "is_start (Add_Value n) = False"
| "is_start (Start_Trajectory_Job i) = False"
| "is_start (Wait_Trajectory_Job i) = False"

text \<open>
  \<open>s'\<close> has the events of \<open>s\<close> followed by events that all satisfy \<open>Q\<close>.
\<close>

definition appends :: "(event \<Rightarrow> bool) \<Rightarrow> state \<Rightarrow> state \<Rightarrow> bool" where
  "appends Q s s' =
     (take (length (events s)) (events s') = events s
      \<and> length (events s) \<le> length (events s')
      \<and> list_all Q (drop (length (events s)) (events s')))"

text \<open>
  The run of a perturbation lies in the partial derivative directory of parameter \<open>i\<close>
  and of the sign of its \<open>h\<close>.
\<close>

definition in_parameter_dir :: "model \<Rightarrow> df_locals \<Rightarrow> nat \<Rightarrow> perturbation_run \<Rightarrow> bool" where
  "in_parameter_dir m loc i run =
     (case snd (snd run) of
        None \<Rightarrow> False
      | Some rd \<Rightarrow>
          fst rd = Partial_Derivative_Dir (parameter_set_index loc) (derivative_step_size m) i
                     (sign_int (fst (snd run))))"

text \<open>
  The place of parameter \<open>i\<close> among the parameters that a mask selects: the number of
  selected parameters before it.
\<close>

definition masked_position :: "bool list \<Rightarrow> nat \<Rightarrow> nat" where
  "masked_position msk i = length (filter id (take i msk))"


subsection \<open>A concrete model and concrete states\<close>

text \<open>
  A model with one model parameter whose jobs report the years they were asked for and the
  tolerance \<open>1/2\<close>; a database with the entry \<open>[1, 1]\<close>; a state without runs, one
  with a spinup run of 100 years, and the latter after that run was started from the former.
\<close>

definition model0 :: model where
  "model0 =
     \<lparr>total_concentration_factor_included_in_parameters = False,
      parameters_lower_bound = [0],
      parameters_upper_bound = [10],
      parameters_typical_values = [1],
      model_spinup_options = \<lparr>years = 100, tolerance = 0, combination = ''or''\<rparr>,
      derivative_years = 10,
      derivative_step_size = 1 / 10,
      derivative_accuracy_order = 2,
      lsm_lsm = [[0, 2], [3, 0]],
      lsm_z_dim = 4,
      lsm_t_dim = 12,
      MODEL_SPINUP_MAX_YEARS = 1000,
      METOS_TRACER_DIM = 2,
      MODEL_START_FROM_CLOSEST_PARAMETER_SET = False,
      MODEL_INTERPOLATOR_NUMBER_OF_LINEAR_INTERPOLATOR = 1,
      db_index = (\<lambda>db e. if db \<noteq> [] \<and> hd db = e then Some 0 else None),
      db_closest_index = (\<lambda>db e. if db = [] then None else Some 0),
      db_closest_indices = (\<lambda>db e. if db = [] then [] else [0]),
      execute = (\<lambda>fs opts. (job_years opts, 1 / 2)),
      trajectory_output = (\<lambda>fs opts tracer_index. [[0, 0, 0, 0, 1]]),
      load_trajectories_to_map = (\<lambda>rows time_dim. map last rows),
      interpolate = (\<lambda>data_points data_values points. Some (map (\<lambda>p. 1) points)),
      coordinates_to_map_indices = (\<lambda>points. points)\<rparr>"

text \<open>The same model with trajectories that depend on the model parameters.\<close>

definition model1 :: model where
  "model1 = model0\<lparr>trajectory_output :=
      (\<lambda>fs opts tracer_index. [[0, 0, 0, 0, sum_list (job_model_parameters opts)]])\<rparr>"

definition job0 :: job where
  "job0 =
     \<lparr>options =
        \<lparr>job_model_parameters = [1], job_years = 100, job_tolerance = 0,
         job_total_concentration_factor = 1, job_write_trajectory = False,
         job_tracer_input_dir = None, job_setup_of = Spinup\<rparr>,
      last_year = 100, last_tolerance = 1 / 2\<rparr>"

definition state_empty :: state where
  "state_empty =
     \<lparr>run_dirs_in = (\<lambda>d. []), parameter_db = [[1, 1]], interpolator_cached = None,
      events = [], warnings = []\<rparr>"

definition state0 :: state where
  "state0 = state_empty\<lparr>run_dirs_in := (\<lambda>d. [])(Spinup_Dir 0 := [Some job0])\<rparr>"

definition state1 :: state where
  "state1 = state0\<lparr>events := [Make_Run_Dir (Spinup_Dir 0, 0), Start_Job (Spinup_Dir 0, 0),
                                Wait_Job (Spinup_Dir 0, 0)]\<rparr>"


text \<open>Local variables of \<open>_df\<close> for a parameter at its lower bound.\<close>

definition loc0 :: df_locals where
  "loc0 =
     \<lparr>parameter_set_index = 0,
      spinup_options_derivative_base = \<lparr>years = 90, tolerance = 0, combination = ''or''\<rparr>,
      spinup_matching_run_dir = Some (Spinup_Dir 0, 0),
      database_entry = [0, 1],
      parameters_now = [0],
      partial_derivatives_mask = [True, False],
      h_factors = [1, - 1]\<rparr>"


section \<open>Properties\<close>

subsection \<open>Lemmas about the matching engine\<close>

lemma is_run_matching_options_frame:
  "is_run_matching_options M s r opts = (x, s') \<Longrightarrow>
     run_dirs_in s' = run_dirs_in s \<and> parameter_db s' = parameter_db s
     \<and> events s' = events s \<and> interpolator_cached s' = interpolator_cached s"
  by (auto simp: is_run_matching_options_def warn_def Let_def
           split: option.splits sum.splits if_splits)

lemma spinup_dir_frame:
  "spinup_dir m s p create = (x, s0) \<Longrightarrow>
     run_dirs_in s0 = run_dirs_in s
     \<and> filter creates_or_launches (events s0) = filter creates_or_launches (events s)"
  by (auto simp: spinup_dir_def parameter_set_dir_def add_value_def Let_def
           split: parameters_or_parameter_set_dir.splits option.splits sum.splits if_splits prod.splits)

lemma matching_run_dir_matched:
  assumes "spinup_dir m s p True = (Inr i, s0)"
    and "is_run_matching_options (MODEL_SPINUP_MAX_YEARS m) s0 (last_run_dir s0 (Spinup_Dir i)) opts
           = (Inr True, s1)"
  shows "matching_run_dir m s p opts c = (Inr (last_run_dir s0 (Spinup_Dir i)), s1)"
  using assms by (subst matching_run_dir.simps) (simp add: Let_def)

lemma matching_run_dir_match_error:
  assumes "spinup_dir m s p True = (Inr i, s0)"
    and "is_run_matching_options (MODEL_SPINUP_MAX_YEARS m) s0 (last_run_dir s0 (Spinup_Dir i)) opts
           = (Inl e, s1)"
  shows "matching_run_dir m s p opts c = (Inl e, s1)"
  using assms by (subst matching_run_dir.simps) (simp add: Let_def)

lemma seed_last_run_Inr:
  "seed_last_run m s1 chain_last parameters c = Inr l \<Longrightarrow> l = chain_last \<and> \<not> (chain_last = None \<and> c)"
  by (auto simp: seed_last_run_def closest_parameter_set_dir_def Let_def
           split: if_splits sum.splits option.splits)

lemma matching_run_dir_or_new:
  assumes "spinup_dir m s p True = (Inr i, s0)"
    and "is_run_matching_options (MODEL_SPINUP_MAX_YEARS m) s0 (last_run_dir s0 (Spinup_Dir i)) opts
           = (Inr False, s1)"
    and "combination opts = ''or''"
    and "load_parameters s1 i = Inr parameters"
    and "seed_last_run m s1 (last_run_dir s0 (Spinup_Dir i)) parameters c = Inr last_run"
  shows "matching_run_dir m s p opts c =
     (let s2 = (case last_run of None \<Rightarrow> s1
                | Some rd \<Rightarrow> wait_until_run_job_finished (Run_Path rd) s1);
          (rd, s3) = make_new_run_dir s2 (Spinup_Dir i)
      in if last_run = None \<and> parameters = [] then (Inl IndexError, s3)
         else (case get_total_years s3 last_run of
                 Inl e \<Rightarrow> (Inl e, s3)
               | Inr last_years \<Rightarrow>
                   (Inr (Some rd),
                    start_run m (butlast parameters) (Run_Path rd) (years opts - last_years)
                      (tolerance opts) Spinup False (if last_run = None then last parameters else 1)
                      last_run True s3)))"
  using assms
  by (subst matching_run_dir.simps)
     (cases last_run; clarsimp simp: Let_def seed_last_run_def split: prod.splits)

lemma matching_run_dir_and_unfold:
  assumes "spinup_dir m s p True = (Inr i, s0)"
    and "is_run_matching_options (MODEL_SPINUP_MAX_YEARS m) s0 (last_run_dir s0 (Spinup_Dir i)) opts
           = (Inr False, s1)"
    and "combination opts = ''and''"
    and "load_parameters s1 i = Inr parameters"
    and "seed_last_run m s1 (last_run_dir s0 (Spinup_Dir i)) parameters c = Inr last_run"
  shows "matching_run_dir m s p opts c =
     (let s2 = (case last_run of None \<Rightarrow> s1
                | Some rd \<Rightarrow> wait_until_run_job_finished (Run_Path rd) s1)
      in case matching_run_dir m s2 (Parameter_Set_Dir i)
                \<lparr>years = years opts, tolerance = 0, combination = ''or''\<rparr> c of
           (Inl e, s3) \<Rightarrow> (Inl e, s3)
         | (Inr r1, s3) \<Rightarrow>
             matching_run_dir m s3 (Parameter_Set_Dir i)
               \<lparr>years = MODEL_SPINUP_MAX_YEARS m, tolerance = tolerance opts,
                combination = ''or''\<rparr> c)"
  using assms
  by (subst matching_run_dir.simps)
     (cases last_run; clarsimp simp: Let_def seed_last_run_def split: prod.splits)

lemma matching_run_dir_not_matched_Inr:
  assumes "spinup_dir m s p True = (Inr i, s0)"
    and "is_run_matching_options (MODEL_SPINUP_MAX_YEARS m) s0 (last_run_dir s0 (Spinup_Dir i)) opts
           = (Inr False, s1)"
    and "matching_run_dir m s p opts c = (Inr r, s')"
  shows "\<exists>parameters. load_parameters s1 i = Inr parameters
           \<and> seed_last_run m s1 (last_run_dir s0 (Spinup_Dir i)) parameters c
               = Inr (last_run_dir s0 (Spinup_Dir i))
           \<and> (combination opts = ''or'' \<or> combination opts = ''and'')"
proof (cases "load_parameters s1 i")
  case (Inl e)
  with assms show ?thesis
    by (subst (asm) matching_run_dir.simps) (simp add: Let_def)
next
  case (Inr parameters)
  show ?thesis
  proof (cases "seed_last_run m s1 (last_run_dir s0 (Spinup_Dir i)) parameters c")
    case (Inl e)
    with assms Inr show ?thesis
      by (subst (asm) matching_run_dir.simps) (simp add: Let_def seed_last_run_def)
  next
    case seed: (Inr l)
    from seed_last_run_Inr [OF seed] have l: "l = last_run_dir s0 (Spinup_Dir i)" by simp
    have "combination opts = ''or'' \<or> combination opts = ''and''"
    proof (rule ccontr)
      assume "\<not> ?thesis"
      with assms Inr seed show False
        by (subst (asm) matching_run_dir.simps) (simp add: Let_def seed_last_run_def)
    qed
    with Inr seed l show ?thesis by simp
  qed
qed

lemma total_years_loop_cong:
  "(\<And>j. j \<le> k \<Longrightarrow> load_job s' (d, j) = load_job s (d, j)) \<Longrightarrow>
     total_years_loop s' t d k = total_years_loop s t d k"
  by (induction k arbitrary: t) (auto split: sum.splits)

lemma get_total_years_cong:
  "(\<And>d k j. r = Some (d, k) \<Longrightarrow> j \<le> k \<Longrightarrow> load_job s' (d, j) = load_job s (d, j)) \<Longrightarrow>
     get_total_years s' r = get_total_years s r"
  by (cases r) (auto intro: total_years_loop_cong)

lemma load_job_make_new_run_dir:
  "j < length (run_dirs_in s d') \<or> d \<noteq> d' \<Longrightarrow>
     load_job (snd (make_new_run_dir s d')) (d, j) = load_job s (d, j)"
  by (auto simp: load_job_def make_new_run_dir_def run_dirs_def Let_def nth_append)

lemma load_job_wait:
  "load_job (wait_until_run_job_finished p s) rd = load_job s rd"
  by (simp add: load_job_def wait_until_run_job_finished_def run_dirs_def split: output_path.splits)

lemma load_job_frame:
  "run_dirs_in s' = run_dirs_in s \<Longrightarrow> load_job s' rd = load_job s rd"
  by (simp add: load_job_def run_dirs_def)

lemma last_run_dir_Some:
  "last_run_dir s d = Some rd \<Longrightarrow> fst rd = d \<and> Suc (snd rd) = length (run_dirs_in s d)"
  by (cases "run_dirs_in s d") (auto simp: last_run_dir_def run_dirs_def Let_def split: if_splits)

lemma last_run_dir_None:
  "last_run_dir s d = None \<longleftrightarrow> run_dirs_in s d = []"
  by (auto simp: last_run_dir_def run_dirs_def Let_def split: if_splits)

lemma matching_run_dir_or_created:
  assumes sp: "spinup_dir m s p True = (Inr i, s0)"
    and nm: "is_run_matching_options (MODEL_SPINUP_MAX_YEARS m) s0 (last_run_dir s0 (Spinup_Dir i)) opts
           = (Inr False, s1)"
    and comb: "combination opts = ''or''"
    and res: "matching_run_dir m s p opts c = (Inr r, s')"
  defines "chain_last \<equiv> last_run_dir s0 (Spinup_Dir i)"
    and "rd \<equiv> (Spinup_Dir i, length (run_dirs_in s0 (Spinup_Dir i)))"
  shows "\<exists>Y parameters j.
           get_total_years s0 chain_last = Inr Y
         \<and> load_parameters s0 i = Inr parameters
         \<and> \<not> (chain_last = None \<and> c)
         \<and> r = Some rd
         \<and> load_job s' rd = Inr j
         \<and> options j =
             \<lparr>job_model_parameters = butlast parameters,
              job_years = years opts - Y,
              job_tolerance = tolerance opts,
              job_total_concentration_factor = (if chain_last = None then last parameters else 1),
              job_write_trajectory = False,
              job_tracer_input_dir = chain_last,
              job_setup_of = Spinup\<rparr>
         \<and> events s' = events s0
              @ (case chain_last of None \<Rightarrow> [] | Some l \<Rightarrow> [Wait_Job l])
              @ [Make_Run_Dir rd, Start_Job rd, Wait_Job rd]
         \<and> parameter_db s' = parameter_db s0
         \<and> run_dirs_in s' = (run_dirs_in s0)
               (Spinup_Dir i := run_dirs_in s0 (Spinup_Dir i) @ [Some j])"
proof -
  note fr = is_run_matching_options_frame [OF nm]
  from matching_run_dir_not_matched_Inr [OF sp nm res]
  obtain parameters where lp: "load_parameters s1 i = Inr parameters"
    and seed: "seed_last_run m s1 (last_run_dir s0 (Spinup_Dir i)) parameters c = Inr chain_last"
    by (auto simp: chain_last_def)
  from seed_last_run_Inr [OF seed] have nc: "\<not> (chain_last = None \<and> c)"
    by (simp add: chain_last_def)
  define s2 where "s2 = (case chain_last of None \<Rightarrow> s1
                | Some l \<Rightarrow> wait_until_run_job_finished (Run_Path l) s1)"
  define s3 where "s3 = snd (make_new_run_dir s2 (Spinup_Dir i))"
  have rd2: "run_dirs_in s2 = run_dirs_in s0"
    using fr by (simp add: s2_def wait_until_run_job_finished_def split: option.splits)
  have ev2: "events s2 = events s0 @ (case chain_last of None \<Rightarrow> [] | Some l \<Rightarrow> [Wait_Job l])"
    using fr by (simp add: s2_def wait_until_run_job_finished_def split: option.splits)
  have db2: "parameter_db s2 = parameter_db s0"
    using fr by (simp add: s2_def wait_until_run_job_finished_def split: option.splits)
  have mk: "make_new_run_dir s2 (Spinup_Dir i) = (rd, s3)"
    by (simp add: s3_def rd_def make_new_run_dir_def Let_def run_dirs_def rd2)
  have gty: "get_total_years s3 chain_last = get_total_years s0 chain_last"
  proof (rule get_total_years_cong)
    fix d k j assume cl: "chain_last = Some (d, k)" and jk: "j \<le> k"
    from last_run_dir_Some [of s0 "Spinup_Dir i" "(d, k)"] cl
    have "d = Spinup_Dir i" "Suc k = length (run_dirs_in s0 (Spinup_Dir i))"
      by (simp_all add: chain_last_def)
    with jk have "j < length (run_dirs_in s2 (Spinup_Dir i))" by (simp add: rd2)
    then have "load_job s3 (d, j) = load_job s2 (d, j)"
      unfolding s3_def by (intro load_job_make_new_run_dir) simp
    also have "\<dots> = load_job s0 (d, j)" by (rule load_job_frame [OF rd2])
    finally show "load_job s3 (d, j) = load_job s0 (d, j)" .
  qed
  have eq: "matching_run_dir m s p opts c =
      (if chain_last = None \<and> parameters = [] then (Inl IndexError, s3)
         else (case get_total_years s3 chain_last of
                 Inl e \<Rightarrow> (Inl e, s3)
               | Inr last_years \<Rightarrow>
                   (Inr (Some rd),
                    start_run m (butlast parameters) (Run_Path rd) (years opts - last_years)
                      (tolerance opts) Spinup False (if chain_last = None then last parameters else 1)
                      chain_last True s3)))"
    using matching_run_dir_or_new [OF sp nm comb lp seed] mk
    by (simp add: s2_def Let_def)
  from eq res obtain Y where Y: "get_total_years s3 chain_last = Inr Y"
    and r: "r = Some rd"
    and s': "s' = start_run m (butlast parameters) (Run_Path rd) (years opts - Y)
                      (tolerance opts) Spinup False (if chain_last = None then last parameters else 1)
                      chain_last True s3"
    by (auto split: if_splits sum.splits)
  have len3: "run_dirs_in s3 (Spinup_Dir i) = run_dirs_in s0 (Spinup_Dir i) @ [None]"
    and ev3: "events s3 = events s2 @ [Make_Run_Dir rd]"
    and db3: "parameter_db s3 = parameter_db s2"
    by (simp_all add: s3_def make_new_run_dir_def Let_def rd2 rd_def run_dirs_def)
  define jo where "jo =
             \<lparr>job_model_parameters = butlast parameters,
              job_years = years opts - Y,
              job_tolerance = tolerance opts,
              job_total_concentration_factor = (if chain_last = None then last parameters else 1),
              job_write_trajectory = False,
              job_tracer_input_dir = chain_last,
              job_setup_of = Spinup\<rparr>"
  have lj: "load_job s' rd = Inr \<lparr>options = jo,
                last_year = fst (execute m (run_dirs_in s3) jo),
                last_tolerance = snd (execute m (run_dirs_in s3) jo)\<rparr>"
    by (simp add: s' start_run_def Let_def wait_until_run_job_finished_def load_job_def run_dirs_def
          len3 rd_def jo_def case_prod_beta)
  define j where "j = \<lparr>options = jo,
                last_year = fst (execute m (run_dirs_in s3) jo),
                last_tolerance = snd (execute m (run_dirs_in s3) jo)\<rparr>"
  have j: "load_job s' rd = Inr j" and oj: "options j = jo"
    using lj by (simp_all add: j_def)
  have s3rd: "run_dirs_in s3 = (run_dirs_in s0)(Spinup_Dir i := run_dirs_in s0 (Spinup_Dir i) @ [None])"
    by (simp add: s3_def make_new_run_dir_def Let_def rd2)
  have rds: "run_dirs_in s' = (run_dirs_in s0)
               (Spinup_Dir i := run_dirs_in s0 (Spinup_Dir i) @ [Some j])"
    by (simp add: s' start_run_def Let_def wait_until_run_job_finished_def case_prod_beta
          rd_def j_def jo_def s3rd)
  have ev: "events s' = events s3 @ [Start_Job rd, Wait_Job rd]"
    and db: "parameter_db s' = parameter_db s3"
    by (simp_all add: s' start_run_def Let_def wait_until_run_job_finished_def case_prod_beta)
  have lp0: "load_parameters s0 i = Inr parameters"
    using lp fr by (auto simp: load_parameters_def split: if_splits)
  from Y gty lp0 nc r j oj ev ev3 ev2 db db3 db2 rds show ?thesis by (simp add: jo_def)
qed

lemma last_run_dir_cong:
  "run_dirs_in s' = run_dirs_in s \<Longrightarrow> last_run_dir s' d = last_run_dir s d"
  by (simp add: last_run_dir_def run_dirs_def)

lemma last_run_dir_append:
  "run_dirs_in s d = xs @ [x] \<Longrightarrow> last_run_dir s d = Some (d, length xs)"
  by (simp add: last_run_dir_def run_dirs_def Let_def)

lemma matching_run_dir_returns_last_or:
  assumes sp: "spinup_dir m s p True = (Inr i, s0)"
    and res: "matching_run_dir m s p opts c = (Inr r, s')"
    and comb: "combination opts \<noteq> ''and''"
  shows "r = last_run_dir s' (Spinup_Dir i)"
proof -
  obtain b s1 where irm: "is_run_matching_options (MODEL_SPINUP_MAX_YEARS m) s0
      (last_run_dir s0 (Spinup_Dir i)) opts = (b, s1)"
    by (cases "is_run_matching_options (MODEL_SPINUP_MAX_YEARS m) s0
      (last_run_dir s0 (Spinup_Dir i)) opts") auto
  note fr = is_run_matching_options_frame [OF irm]
  show ?thesis
  proof (cases b)
    case (Inl e)
    with irm have "is_run_matching_options (MODEL_SPINUP_MAX_YEARS m) s0
      (last_run_dir s0 (Spinup_Dir i)) opts = (Inl e, s1)" by simp
    from matching_run_dir_match_error [OF sp this] res show ?thesis by simp
  next
    case (Inr t)
    show ?thesis
    proof (cases t)
      case True
      with irm Inr have "is_run_matching_options (MODEL_SPINUP_MAX_YEARS m) s0
        (last_run_dir s0 (Spinup_Dir i)) opts = (Inr True, s1)" by simp
      from matching_run_dir_matched [OF sp this] res
      have "r = last_run_dir s0 (Spinup_Dir i)" "s' = s1" by simp_all
      with fr last_run_dir_cong [of s1 s0 "Spinup_Dir i"] show ?thesis by simp
    next
      case False
      with irm Inr have nm: "is_run_matching_options (MODEL_SPINUP_MAX_YEARS m) s0
          (last_run_dir s0 (Spinup_Dir i)) opts = (Inr False, s1)" by simp
      from matching_run_dir_not_matched_Inr [OF sp nm res] comb
      have or: "combination opts = ''or''" by blast
      from matching_run_dir_or_created [OF sp nm or res]
      have "\<exists>j. r = Some (Spinup_Dir i, length (run_dirs_in s0 (Spinup_Dir i)))
             \<and> run_dirs_in s' = (run_dirs_in s0)
               (Spinup_Dir i := run_dirs_in s0 (Spinup_Dir i) @ [Some j])"
        by blast
      then obtain j where r: "r = Some (Spinup_Dir i, length (run_dirs_in s0 (Spinup_Dir i)))"
        and rd: "run_dirs_in s' = (run_dirs_in s0)
               (Spinup_Dir i := run_dirs_in s0 (Spinup_Dir i) @ [Some j])"
        by (elim exE conjE)
      from rd have "run_dirs_in s' (Spinup_Dir i) = run_dirs_in s0 (Spinup_Dir i) @ [Some j]"
        by simp
      from last_run_dir_append [OF this] r show ?thesis by simp
    qed
  qed
qed


lemma spinup_dir_Parameter_Set_Dir:
  "spinup_dir m s (Parameter_Set_Dir i) create = (Inr i, s)"
  by (simp add: spinup_dir_def)

lemma matching_run_dir_returns_last:
  assumes sp: "spinup_dir m s p True = (Inr i, s0)"
    and res: "matching_run_dir m s p opts c = (Inr r, s')"
  shows "r = last_run_dir s' (Spinup_Dir i)"
proof (cases "combination opts = ''and''")
  case False
  with matching_run_dir_returns_last_or [OF sp res] show ?thesis by simp
next
  case True
  obtain b s1 where irm: "is_run_matching_options (MODEL_SPINUP_MAX_YEARS m) s0
      (last_run_dir s0 (Spinup_Dir i)) opts = (b, s1)"
    by (cases "is_run_matching_options (MODEL_SPINUP_MAX_YEARS m) s0
      (last_run_dir s0 (Spinup_Dir i)) opts") auto
  note fr = is_run_matching_options_frame [OF irm]
  show ?thesis
  proof (cases b)
    case (Inl e)
    with irm have "is_run_matching_options (MODEL_SPINUP_MAX_YEARS m) s0
      (last_run_dir s0 (Spinup_Dir i)) opts = (Inl e, s1)" by simp
    from matching_run_dir_match_error [OF sp this] res show ?thesis by simp
  next
    case (Inr t)
    show ?thesis
    proof (cases t)
      case True
      with irm Inr have "is_run_matching_options (MODEL_SPINUP_MAX_YEARS m) s0
        (last_run_dir s0 (Spinup_Dir i)) opts = (Inr True, s1)" by simp
      from matching_run_dir_matched [OF sp this] res
      have "r = last_run_dir s0 (Spinup_Dir i)" "s' = s1" by simp_all
      with fr last_run_dir_cong [of s1 s0 "Spinup_Dir i"] show ?thesis by simp
    next
      case False
      with irm Inr have nm: "is_run_matching_options (MODEL_SPINUP_MAX_YEARS m) s0
          (last_run_dir s0 (Spinup_Dir i)) opts = (Inr False, s1)" by simp
      from matching_run_dir_not_matched_Inr [OF sp nm res]
      obtain parameters where lp: "load_parameters s1 i = Inr parameters"
        and seed: "seed_last_run m s1 (last_run_dir s0 (Spinup_Dir i)) parameters c
               = Inr (last_run_dir s0 (Spinup_Dir i))" by auto
      define s2 where "s2 = (case last_run_dir s0 (Spinup_Dir i) of None \<Rightarrow> s1
                | Some rd \<Rightarrow> wait_until_run_job_finished (Run_Path rd) s1)"
      obtain x s3 where sub1: "matching_run_dir m s2 (Parameter_Set_Dir i)
                \<lparr>years = years opts, tolerance = 0, combination = ''or''\<rparr> c = (x, s3)"
        by (cases "matching_run_dir m s2 (Parameter_Set_Dir i)
                \<lparr>years = years opts, tolerance = 0, combination = ''or''\<rparr> c") auto
      have eq: "matching_run_dir m s p opts c =
         (case x of Inl e \<Rightarrow> (Inl e, s3)
          | Inr r1 \<Rightarrow> matching_run_dir m s3 (Parameter_Set_Dir i)
               \<lparr>years = MODEL_SPINUP_MAX_YEARS m, tolerance = tolerance opts,
                combination = ''or''\<rparr> c)"
        unfolding matching_run_dir_and_unfold [OF sp nm \<open>combination opts = ''and''\<close> lp seed]
        by (simp add: Let_def s2_def [symmetric] sub1 split: sum.splits)
      have sub2: "matching_run_dir m s3 (Parameter_Set_Dir i)
               \<lparr>years = MODEL_SPINUP_MAX_YEARS m, tolerance = tolerance opts,
                combination = ''or''\<rparr> c = (Inr r, s')"
      proof (cases x)
        case (Inl e)
        with eq res show ?thesis by simp
      next
        case (Inr r1)
        with eq res show ?thesis by simp
      qed
      from matching_run_dir_returns_last_or [OF spinup_dir_Parameter_Set_Dir sub2]
      show ?thesis by simp
    qed
  qed
qed

subsection \<open>Evaluation of the concrete model\<close>

lemmas witness_defs = model0_def state0_def state1_def state_empty_def job0_def
  spinup_dir_def parameter_set_dir_def database_parameter_entry_def check_parameters_def
  metos3d_model_parameters_dict_def model_parameter_len_def
  is_run_matching_options_def last_run_dir_def run_dirs_def load_job_def get_real_tolerance_def
  load_parameters_def make_new_run_dir_def start_run_def wait_until_run_job_finished_def
  Let_def



subsection \<open>The claims about the matching engine\<close>

text \<open>
  Claim C1. For a run directory whose chain has recorded \<open>Y\<close> total years and whose job
  has reached the tolerance \<open>T\<close>, \<open>is_run_matching_options\<close> returns, under \<open>or\<close>,
  whether \<open>Y \<ge> years\<close> or \<open>T \<le> tolerance\<close>, and under \<open>and\<close> whether
  \<open>(Y \<ge> years and T \<le> tolerance)\<close> or \<open>Y \<ge> MODEL_SPINUP_MAX_YEARS\<close>. Under \<open>and\<close>
  a warning is issued exactly when the result is true while \<open>T > tolerance\<close>, that is when
  only the hard cap satisfied the target; the result is still true and no error is raised.
  Nothing but the list of warnings changes.
\<close>

theorem is_run_matching_options_predicate:
  assumes "get_total_years s (Some rd) = Inr Y"
    and "get_real_tolerance s rd = Inr T"
  shows "(combination opts = ''or'' \<longrightarrow>
            is_run_matching_options M s (Some rd) opts
              = (Inr (Y \<ge> years opts \<or> T \<le> tolerance opts), s))
       \<and> (combination opts = ''and'' \<longrightarrow>
            (let b = ((Y \<ge> years opts \<and> T \<le> tolerance opts) \<or> Y \<ge> M)
             in is_run_matching_options M s (Some rd) opts
                  = (Inr b, if b \<and> T > tolerance opts
                            then warn (Max_Spinup_Years_Reached rd (tolerance opts) M) s
                            else s)))"
  using assms
  by (auto simp: is_run_matching_options_def Let_def simp del: get_total_years.simps)

theorem is_run_matching_options_predicate_witness:
  "get_total_years state0 (Some (Spinup_Dir 0, 0)) = Inr 100
   \<and> get_real_tolerance state0 (Spinup_Dir 0, 0) = Inr (1 / 2)
   \<and> is_run_matching_options 100 state0 (Some (Spinup_Dir 0, 0))
        \<lparr>years = 200, tolerance = 1 / 4, combination = ''and''\<rparr>
      = (Inr True, warn (Max_Spinup_Years_Reached (Spinup_Dir 0, 0) (1 / 4) 100) state0)
   \<and> is_run_matching_options 100 state0 (Some (Spinup_Dir 0, 0))
        \<lparr>years = 200, tolerance = 1 / 4, combination = ''or''\<rparr>
      = (Inr False, state0)"
proof -
  have y: "get_total_years state0 (Some (Spinup_Dir 0, 0)) = Inr 100"
    by (simp add: state0_def state_empty_def job0_def load_job_def run_dirs_def)
  have t: "get_real_tolerance state0 (Spinup_Dir 0, 0) = Inr (1 / 2)"
    by (simp add: get_real_tolerance_def state0_def state_empty_def job0_def load_job_def
          run_dirs_def)
  show ?thesis
    using y t
      is_run_matching_options_predicate
        [OF y t, of "\<lparr>years = 200, tolerance = 1 / 4, combination = ''and''\<rparr>" 100]
      is_run_matching_options_predicate
        [OF y t, of "\<lparr>years = 200, tolerance = 1 / 4, combination = ''or''\<rparr>" 100]
    by (simp add: Let_def)
qed

text \<open>
  Claim C2. If the last run of the chain that the parameters resolve to satisfies the
  matching predicate, \<open>matching_run_dir\<close> returns that run directory; the run directories
  are those before the call, and the call makes no run directory and starts no job (resolving
  a parameter vector may at most have added it to the database). Hence, when a first call has
  returned a run that satisfies the predicate and the parameters resolve to the same
  parameter set again, a second call with the same arguments returns the same run and leaves
  run directories, database and events as they are.
\<close>

theorem matching_run_dir_idempotent:
  "(spinup_dir m s p True = (Inr i, s0)
      \<and> is_run_matching_options (MODEL_SPINUP_MAX_YEARS m) s0 (last_run_dir s0 (Spinup_Dir i)) opts
          = (Inr True, s1)
     \<longrightarrow> matching_run_dir m s p opts c = (Inr (last_run_dir s0 (Spinup_Dir i)), s1)
        \<and> run_dirs_in s1 = run_dirs_in s
        \<and> events s1 = events s0 \<and> parameter_db s1 = parameter_db s0
        \<and> filter creates_or_launches (events s1) = filter creates_or_launches (events s))
   \<and> (spinup_dir m s p True = (Inr i, s0)
      \<and> matching_run_dir m s p opts c = (Inr r, s1)
      \<and> spinup_dir m s1 p True = (Inr i, s1)
      \<and> is_run_matching_options (MODEL_SPINUP_MAX_YEARS m) s1 r opts = (Inr True, s2)
     \<longrightarrow> matching_run_dir m s1 p opts c = (Inr r, s2)
        \<and> run_dirs_in s2 = run_dirs_in s1 \<and> parameter_db s2 = parameter_db s1
        \<and> events s2 = events s1)"
proof (intro conjI impI)
  assume h: "spinup_dir m s p True = (Inr i, s0)
      \<and> is_run_matching_options (MODEL_SPINUP_MAX_YEARS m) s0 (last_run_dir s0 (Spinup_Dir i)) opts
          = (Inr True, s1)"
  then have sp: "spinup_dir m s p True = (Inr i, s0)"
    and ma: "is_run_matching_options (MODEL_SPINUP_MAX_YEARS m) s0 (last_run_dir s0 (Spinup_Dir i)) opts
          = (Inr True, s1)" by simp_all
  note fr = is_run_matching_options_frame [OF ma] and sf = spinup_dir_frame [OF sp]
  show "matching_run_dir m s p opts c = (Inr (last_run_dir s0 (Spinup_Dir i)), s1)"
    by (rule matching_run_dir_matched [OF sp ma])
  show "run_dirs_in s1 = run_dirs_in s" using fr sf by simp
  show "events s1 = events s0" using fr by simp
  show "parameter_db s1 = parameter_db s0" using fr by simp
  show "filter creates_or_launches (events s1) = filter creates_or_launches (events s)"
    using fr sf by simp
next
  assume h: "spinup_dir m s p True = (Inr i, s0)
      \<and> matching_run_dir m s p opts c = (Inr r, s1)
      \<and> spinup_dir m s1 p True = (Inr i, s1)
      \<and> is_run_matching_options (MODEL_SPINUP_MAX_YEARS m) s1 r opts = (Inr True, s2)"
  then have sp: "spinup_dir m s p True = (Inr i, s0)"
    and res: "matching_run_dir m s p opts c = (Inr r, s1)"
    and sp1: "spinup_dir m s1 p True = (Inr i, s1)"
    and ma: "is_run_matching_options (MODEL_SPINUP_MAX_YEARS m) s1 r opts = (Inr True, s2)"
    by simp_all
  have r: "r = last_run_dir s1 (Spinup_Dir i)"
    by (rule matching_run_dir_returns_last [OF sp res])
  note fr = is_run_matching_options_frame [OF ma]
  show "matching_run_dir m s1 p opts c = (Inr r, s2)"
    using matching_run_dir_matched [OF sp1 ma [unfolded r]] r by simp
  show "run_dirs_in s2 = run_dirs_in s1" using fr by simp
  show "parameter_db s2 = parameter_db s1" using fr by simp
  show "events s2 = events s1" using fr by simp
qed


theorem matching_run_dir_idempotent_witness:
  "matching_run_dir model0 state0 (Parameters [1])
      \<lparr>years = 100, tolerance = 0, combination = ''or''\<rparr> False
     = (Inr (Some (Spinup_Dir 0, 0)), state0)
   \<and> matching_run_dir model0 state_empty (Parameters [1])
      \<lparr>years = 100, tolerance = 0, combination = ''or''\<rparr> False
     = (Inr (Some (Spinup_Dir 0, 0)), state1)
   \<and> matching_run_dir model0 state1 (Parameters [1])
      \<lparr>years = 100, tolerance = 0, combination = ''or''\<rparr> False
     = (Inr (Some (Spinup_Dir 0, 0)), state1)
   \<and> events state1 = [Make_Run_Dir (Spinup_Dir 0, 0), Start_Job (Spinup_Dir 0, 0),
                        Wait_Job (Spinup_Dir 0, 0)]"
proof -
  let ?o = "\<lparr>years = 100, tolerance = 0, combination = ''or''\<rparr>"
  have sp0: "spinup_dir model0 state0 (Parameters [1]) True = (Inr 0, state0)"
    by (simp add: witness_defs)
  have ma0: "is_run_matching_options (MODEL_SPINUP_MAX_YEARS model0) state0
               (last_run_dir state0 (Spinup_Dir 0)) ?o = (Inr True, state0)"
    by (simp add: witness_defs)
  have l0: "last_run_dir state0 (Spinup_Dir 0) = Some (Spinup_Dir 0, 0)"
    by (simp add: witness_defs)
  have spe: "spinup_dir model0 state_empty (Parameters [1]) True = (Inr 0, state_empty)"
    by (simp add: witness_defs)
  have nme: "is_run_matching_options (MODEL_SPINUP_MAX_YEARS model0) state_empty
               (last_run_dir state_empty (Spinup_Dir 0)) ?o = (Inr False, state_empty)"
    by (simp add: witness_defs)
  have lp: "load_parameters state_empty 0 = Inr [1, 1]"
    by (simp add: load_parameters_def state_empty_def)
  have le: "last_run_dir state_empty (Spinup_Dir 0) = None"
    by (simp add: last_run_dir_def run_dirs_def state_empty_def Let_def)
  have seed: "seed_last_run model0 state_empty (last_run_dir state_empty (Spinup_Dir 0)) [1, 1] False
     = Inr None"
    by (simp add: seed_last_run_def le)
  have ex: "execute model0 = (\<lambda>fs opts. (job_years opts, 1 / 2))"
    by (simp add: model0_def)
  have first: "matching_run_dir model0 state_empty (Parameters [1]) ?o False
                 = (Inr (Some (Spinup_Dir 0, 0)), state1)"
    unfolding matching_run_dir_or_new [OF spe nme _ lp seed, simplified]
    by (simp add: make_new_run_dir_def start_run_def wait_until_run_job_finished_def Let_def
          run_dirs_def ex state_empty_def state1_def state0_def job0_def)
  have sp1: "spinup_dir model0 state1 (Parameters [1]) True = (Inr 0, state1)"
    by (simp add: witness_defs)
  have ma1: "is_run_matching_options (MODEL_SPINUP_MAX_YEARS model0) state1
               (Some (Spinup_Dir 0, 0)) ?o = (Inr True, state1)"
    by (simp add: witness_defs)
  note part1 = matching_run_dir_idempotent
         [where m = model0 and s = state0 and p = "Parameters [1]" and i = 0 and ?s0.0 = state0
            and opts = ?o and ?s1.0 = state0 and c = False,
          THEN conjunct1, rule_format, OF conjI [OF sp0 ma0]]
  note part2 = matching_run_dir_idempotent
         [where m = model0 and s = state_empty and p = "Parameters [1]" and i = 0
            and ?s0.0 = state_empty and opts = ?o and ?s1.0 = state1 and c = False
            and r = "Some (Spinup_Dir 0, 0)" and ?s2.0 = state1,
          THEN conjunct2, rule_format, OF conjI [OF spe conjI [OF first conjI [OF sp1 ma1]]]]
  have ev: "events state1 = [Make_Run_Dir (Spinup_Dir 0, 0), Start_Job (Spinup_Dir 0, 0),
                        Wait_Job (Spinup_Dir 0, 0)]"
    by (simp add: state1_def)
  from part1 [THEN conjunct1] l0 part2 [THEN conjunct1] first ev
  show ?thesis by simp
qed


text \<open>
  Claim C3. For an \<open>and\<close> target that the last run does not match, \<open>matching_run_dir\<close>
  is, once the parameter file is read and the last run waited for, exactly two calls of
  itself on the same parameter set directory: first with
  \<open>{years, tolerance 0, or}\<close>, then, in the state the first call leaves, with
  \<open>{MODEL_SPINUP_MAX_YEARS, tolerance, or}\<close>, whose result it returns. An error of the
  first call is passed on. With an empty chain and \<open>start_from_closest_parameters\<close> the
  search for the closest parameter set raises before any call.
\<close>

theorem matching_run_dir_and_two_or_calls:
  assumes "spinup_dir m s p True = (Inr i, s0)"
    and "is_run_matching_options (MODEL_SPINUP_MAX_YEARS m) s0 (last_run_dir s0 (Spinup_Dir i)) opts
           = (Inr False, s1)"
    and "combination opts = ''and''"
  shows "matching_run_dir m s p opts c =
     (case load_parameters s1 i of
        Inl e \<Rightarrow> (Inl e, s1)
      | Inr parameters \<Rightarrow>
          if last_run_dir s0 (Spinup_Dir i) = None \<and> c
          then (case closest_parameter_set_dir m s1 parameters False of
                  Inl e \<Rightarrow> (Inl e, s1)
                | Inr x \<Rightarrow> (Inl TypeError, s1))
          else
            (let s2 = (case last_run_dir s0 (Spinup_Dir i) of
                         None \<Rightarrow> s1
                       | Some rd \<Rightarrow> wait_until_run_job_finished (Run_Path rd) s1)
             in case matching_run_dir m s2 (Parameter_Set_Dir i)
                       \<lparr>years = years opts, tolerance = 0, combination = ''or''\<rparr> c of
                  (Inl e, s3) \<Rightarrow> (Inl e, s3)
                | (Inr r1, s3) \<Rightarrow>
                    matching_run_dir m s3 (Parameter_Set_Dir i)
                      \<lparr>years = MODEL_SPINUP_MAX_YEARS m, tolerance = tolerance opts,
                       combination = ''or''\<rparr> c))"
proof (cases "load_parameters s1 i")
  case (Inl e)
  with assms show ?thesis
    by (subst matching_run_dir.simps) (simp add: Let_def)
next
  case (Inr parameters)
  show ?thesis
  proof (cases "last_run_dir s0 (Spinup_Dir i) = None \<and> c")
    case True
    with assms Inr show ?thesis
      by (subst matching_run_dir.simps)
         (auto simp: Let_def closest_parameter_set_dir_def split: sum.splits option.splits)
  next
    case False
    then have "seed_last_run m s1 (last_run_dir s0 (Spinup_Dir i)) parameters c
                 = Inr (last_run_dir s0 (Spinup_Dir i))"
      by (auto simp: seed_last_run_def)
    from matching_run_dir_and_unfold [OF assms Inr this]
    show ?thesis by (simp only: Inr sum.case if_not_P [OF False])
  qed
qed


theorem matching_run_dir_and_two_or_calls_witness:
  "matching_run_dir model0 state0 (Parameter_Set_Dir 0)
      \<lparr>years = 200, tolerance = 1 / 4, combination = ''and''\<rparr> False
     = (case matching_run_dir model0
               (wait_until_run_job_finished (Run_Path (Spinup_Dir 0, 0)) state0)
               (Parameter_Set_Dir 0)
               \<lparr>years = 200, tolerance = 0, combination = ''or''\<rparr> False of
          (Inl e, s3) \<Rightarrow> (Inl e, s3)
        | (Inr r1, s3) \<Rightarrow>
            matching_run_dir model0 s3 (Parameter_Set_Dir 0)
              \<lparr>years = 1000, tolerance = 1 / 4, combination = ''or''\<rparr> False)"
proof -
  let ?o = "\<lparr>years = 200, tolerance = 1 / 4, combination = ''and''\<rparr>"
  have sp0: "spinup_dir model0 state0 (Parameter_Set_Dir 0) True = (Inr 0, state0)"
    by (simp add: spinup_dir_def)
  have nm: "is_run_matching_options (MODEL_SPINUP_MAX_YEARS model0) state0
               (last_run_dir state0 (Spinup_Dir 0)) ?o = (Inr False, state0)"
    by (simp add: witness_defs)
  have l0: "last_run_dir state0 (Spinup_Dir 0) = Some (Spinup_Dir 0, 0)"
    by (simp add: witness_defs)
  have lp: "load_parameters state0 0 = Inr [1, 1]"
    by (simp add: witness_defs)
  have mx: "MODEL_SPINUP_MAX_YEARS model0 = 1000"
    by (simp add: model0_def)
  from matching_run_dir_and_two_or_calls [OF sp0 nm, of False] l0 lp
  show ?thesis by (simp add: mx split: prod.splits sum.splits)
qed


text \<open>
  A new run that \<open>matching_run_dir\<close> creates under \<open>or\<close> is the next run directory
  of the chain; its job is asked for the target years minus the total years of the chain,
  takes its tracer input from the previous last run of the chain (none when the chain is
  empty), gets the stored parameters without the last entry as model parameters, and gets the
  last entry as total concentration factor only when there is no previous run, otherwise 1.
  The events are the wait for the previous run, the new directory, the start and the wait.
  A call that returns never had an empty chain together with
  \<open>start_from_closest_parameters\<close>.
\<close>

lemma matching_run_dir_new_run:
  assumes "spinup_dir m s p True = (Inr i, s0)"
    and "is_run_matching_options (MODEL_SPINUP_MAX_YEARS m) s0 (last_run_dir s0 (Spinup_Dir i)) opts
           = (Inr False, s1)"
    and "combination opts = ''or''"
    and "matching_run_dir m s p opts c = (Inr r, s')"
  shows "\<exists>Y parameters j.
           get_total_years s0 (last_run_dir s0 (Spinup_Dir i)) = Inr Y
         \<and> load_parameters s0 i = Inr parameters
         \<and> \<not> (last_run_dir s0 (Spinup_Dir i) = None \<and> c)
         \<and> r = Some (Spinup_Dir i, length (run_dirs_in s0 (Spinup_Dir i)))
         \<and> load_job s' (Spinup_Dir i, length (run_dirs_in s0 (Spinup_Dir i))) = Inr j
         \<and> options j =
             \<lparr>job_model_parameters = butlast parameters,
              job_years = years opts - Y,
              job_tolerance = tolerance opts,
              job_total_concentration_factor =
                (if last_run_dir s0 (Spinup_Dir i) = None then last parameters else 1),
              job_write_trajectory = False,
              job_tracer_input_dir = last_run_dir s0 (Spinup_Dir i),
              job_setup_of = Spinup\<rparr>
         \<and> events s' = events s0
              @ (case last_run_dir s0 (Spinup_Dir i) of None \<Rightarrow> [] | Some l \<Rightarrow> [Wait_Job l])
              @ [Make_Run_Dir (Spinup_Dir i, length (run_dirs_in s0 (Spinup_Dir i))),
                 Start_Job (Spinup_Dir i, length (run_dirs_in s0 (Spinup_Dir i))),
                 Wait_Job (Spinup_Dir i, length (run_dirs_in s0 (Spinup_Dir i)))]"
  using matching_run_dir_or_created [OF assms] by blast

lemma matching_run_dir_new_run_example:
  "matching_run_dir model0 state0 (Parameter_Set_Dir 0)
      \<lparr>years = 150, tolerance = 1 / 4, combination = ''or''\<rparr> False
     = (Inr (Some (Spinup_Dir 0, 1)),
        snd (matching_run_dir model0 state0 (Parameter_Set_Dir 0)
               \<lparr>years = 150, tolerance = 1 / 4, combination = ''or''\<rparr> False))
   \<and> (\<exists>j. load_job (snd (matching_run_dir model0 state0 (Parameter_Set_Dir 0)
               \<lparr>years = 150, tolerance = 1 / 4, combination = ''or''\<rparr> False))
             (Spinup_Dir 0, 1) = Inr j
         \<and> options j =
             \<lparr>job_model_parameters = [1], job_years = 50, job_tolerance = 1 / 4,
              job_total_concentration_factor = 1, job_write_trajectory = False,
              job_tracer_input_dir = Some (Spinup_Dir 0, 0), job_setup_of = Spinup\<rparr>)"
proof -
  let ?o = "\<lparr>years = 150, tolerance = 1 / 4, combination = ''or''\<rparr>"
  let ?s' = "snd (matching_run_dir model0 state0 (Parameter_Set_Dir 0) ?o False)"
  have sp0: "spinup_dir model0 state0 (Parameter_Set_Dir 0) True = (Inr 0, state0)"
    by (simp add: spinup_dir_def)
  have nm: "is_run_matching_options (MODEL_SPINUP_MAX_YEARS model0) state0
               (last_run_dir state0 (Spinup_Dir 0)) ?o = (Inr False, state0)"
    by (simp add: witness_defs)
  have l0: "last_run_dir state0 (Spinup_Dir 0) = Some (Spinup_Dir 0, 0)"
    by (simp add: witness_defs)
  have lp: "load_parameters state0 0 = Inr [1, 1]"
    by (simp add: witness_defs)
  have seed: "seed_last_run model0 state0 (last_run_dir state0 (Spinup_Dir 0)) [1, 1] False
     = Inr (Some (Spinup_Dir 0, 0))"
    by (simp add: seed_last_run_def l0)
  have "fst (matching_run_dir model0 state0 (Parameter_Set_Dir 0) ?o False)
          = Inr (Some (Spinup_Dir 0, 1))"
    unfolding matching_run_dir_or_new [OF sp0 nm _ lp seed, simplified]
    by (simp add: make_new_run_dir_def start_run_def wait_until_run_job_finished_def Let_def
          run_dirs_def load_job_def state_empty_def state0_def job0_def)
  then have res: "matching_run_dir model0 state0 (Parameter_Set_Dir 0) ?o False
          = (Inr (Some (Spinup_Dir 0, 1)), ?s')"
    by (simp add: prod_eq_iff)
  have gty: "get_total_years state0 (Some (Spinup_Dir 0, 0)) = Inr 100"
    by (simp add: witness_defs)
  have len: "length (run_dirs_in state0 (Spinup_Dir 0)) = 1"
    by (simp add: witness_defs)
  from matching_run_dir_new_run [OF sp0 nm _ res, simplified l0 lp gty len]
  obtain j where "load_job ?s' (Spinup_Dir 0, 1) = Inr j"
    and "options j =
             \<lparr>job_model_parameters = [1], job_years = 50, job_tolerance = 1 / 4,
              job_total_concentration_factor = 1, job_write_trajectory = False,
              job_tracer_input_dir = Some (Spinup_Dir 0, 0), job_setup_of = Spinup\<rparr>"
    by auto
  with res show ?thesis by blast
qed

lemma closest_parameter_set_dir_no_spinup:
  "closest_parameter_set_dir m s parameters False \<noteq> Inr (Some closest)"
  by (simp add: closest_parameter_set_dir_def Let_def split: sum.splits)

text \<open>
  Claim C4. With an empty chain and \<open>start_from_closest_parameters\<close>, a new run is to
  take its tracer input from the chain of the closest parameter set that has a spinup run:
  \<open>matching_run_dir\<close> asks \<open>closest_parameter_set_dir\<close> for it with
  \<open>no_spinup_okay=False\<close>. This call never gives a directory: with a closest index its
  loop condition subscripts the bound method \<open>spinup_dir_with_index\<close>, without one
  the result is \<open>None\<close> and joining the path fails. So whenever the last run does not
  match, the chain is empty and \<open>start_from_closest_parameters\<close> is set,
  \<open>matching_run_dir\<close> raises, for every target, and neither a run directory nor an
  event is added: no run is ever seeded from another chain.
\<close>

theorem matching_run_dir_seed_chain_raises:
  assumes "spinup_dir m s p True = (Inr i, s0)"
    and "is_run_matching_options (MODEL_SPINUP_MAX_YEARS m) s0 (last_run_dir s0 (Spinup_Dir i)) opts
           = (Inr False, s1)"
    and "last_run_dir s0 (Spinup_Dir i) = None"
  shows "\<exists>e. matching_run_dir m s p opts True = (Inl e, s1)
             \<and> run_dirs_in s1 = run_dirs_in s0 \<and> events s1 = events s0"
proof -
  note fr = is_run_matching_options_frame [OF assms(2)]
  have "\<exists>e. matching_run_dir m s p opts True = (Inl e, s1)"
  proof (cases "load_parameters s1 i")
    case (Inl e)
    with assms show ?thesis
      by (subst matching_run_dir.simps) (simp add: Let_def)
  next
    case (Inr parameters)
    have "\<exists>e. (case closest_parameter_set_dir m s1 parameters False of
                    Inl e \<Rightarrow> Inl e
                  | Inr None \<Rightarrow> Inl TypeError
                  | Inr (Some closest) \<Rightarrow> Inr (last_run_dir s1 (Spinup_Dir closest))) = Inl e"
      using closest_parameter_set_dir_no_spinup [of m s1 parameters]
      by (cases "closest_parameter_set_dir m s1 parameters False")
         (auto split: option.splits)
    then obtain e where "(case closest_parameter_set_dir m s1 parameters False of
                    Inl e \<Rightarrow> Inl e
                  | Inr None \<Rightarrow> Inl TypeError
                  | Inr (Some closest) \<Rightarrow> Inr (last_run_dir s1 (Spinup_Dir closest))) = Inl e"
      by blast
    with assms Inr have "matching_run_dir m s p opts True = (Inl e, s1)"
      by (subst matching_run_dir.simps) (simp add: Let_def)
    then show ?thesis by blast
  qed
  with fr show ?thesis by blast
qed

theorem matching_run_dir_seed_chain_raises_witness:
  "matching_run_dir (model0\<lparr>total_concentration_factor_included_in_parameters := True\<rparr>)
      state_empty (Parameter_Set_Dir 0)
      \<lparr>years = 100, tolerance = 0, combination = ''or''\<rparr> True
     = (Inl TypeError, state_empty)"
proof -
  let ?m = "model0\<lparr>total_concentration_factor_included_in_parameters := True\<rparr>"
  let ?o = "\<lparr>years = 100, tolerance = 0, combination = ''or''\<rparr>"
  have sp: "spinup_dir ?m state_empty (Parameter_Set_Dir 0) True = (Inr 0, state_empty)"
    by (simp add: spinup_dir_def)
  have l0: "last_run_dir state_empty (Spinup_Dir 0) = None"
    by (simp add: witness_defs)
  have nm: "is_run_matching_options (MODEL_SPINUP_MAX_YEARS ?m) state_empty
               (last_run_dir state_empty (Spinup_Dir 0)) ?o = (Inr False, state_empty)"
    by (simp add: witness_defs)
  from matching_run_dir_seed_chain_raises [OF sp nm l0]
  obtain e where e: "matching_run_dir ?m state_empty (Parameter_Set_Dir 0) ?o True
                       = (Inl e, state_empty)" by blast
  have lp: "load_parameters state_empty 0 = Inr [1, 1]"
    by (simp add: witness_defs)
  have cl: "closest_parameter_set_dir ?m state_empty [1, 1] False = Inl TypeError"
    by (simp add: closest_parameter_set_dir_def database_parameter_entry_def
          check_parameters_def metos3d_model_parameters_dict_def model_parameter_len_def
          model0_def state_empty_def Let_def)
  have "fst (matching_run_dir ?m state_empty (Parameter_Set_Dir 0) ?o True) = Inl TypeError"
    using sp nm l0 lp cl by (subst matching_run_dir.simps) (simp add: Let_def)
  with e have "e = TypeError" by simp
  with e show ?thesis by simp
qed

subsection \<open>The claims about the derivative\<close>

lemma perturbation_cases:
  "(let v0 = e + hn; violates = (v0 < lo \<or> violates_upper v0 up);
        r = perturbation accuracy_order e p lo up hn
    in (accuracy_order = 1 \<and> violates \<longrightarrow> fst r = p + (- hn))
     \<and> (accuracy_order \<noteq> 1 \<and> v0 < lo \<longrightarrow> fst r = lo)
     \<and> (accuracy_order \<noteq> 1 \<and> \<not> v0 < lo \<and> violates_upper v0 up \<longrightarrow> up = Some (fst r))
     \<and> (\<not> violates \<longrightarrow> fst r = v0)
     \<and> snd r = fst r - p)"
  by (auto simp: perturbation_def Let_def violates_upper_def split: option.splits)

lemma start_h_factor_runs_nth:
  "start_h_factor_runs m loc i h_i factors s = (Inr runs, s') \<Longrightarrow>
     length runs = length factors
     \<and> (\<forall>k < length factors.
          fst (runs ! k) = (database_entry loc)
              [i := fst (perturbation (derivative_accuracy_order m) (database_entry loc ! i)
                           (parameters_now loc ! i) (parameters_lower_bound_ext m ! i)
                           (parameters_upper_bound_ext m ! i) (factors ! k * h_i))]
          \<and> fst (snd (runs ! k)) =
              snd (perturbation (derivative_accuracy_order m) (database_entry loc ! i)
                           (parameters_now loc ! i) (parameters_lower_bound_ext m ! i)
                           (parameters_upper_bound_ext m ! i) (factors ! k * h_i)))"
proof (induction factors arbitrary: s runs)
  case Nil
  then show ?case by simp
next
  case (Cons hf rest)
  let ?r = "perturbation (derivative_accuracy_order m) (database_entry loc ! i)
              (parameters_now loc ! i) (parameters_lower_bound_ext m ! i)
              (parameters_upper_bound_ext m ! i) (hf * h_i)"
  obtain x s1 where run: "partial_derivative_run m loc i
      ((database_entry loc)[i := fst ?r]) (snd ?r) s = (x, s1)"
    by (cases "partial_derivative_run m loc i
      ((database_entry loc)[i := fst ?r]) (snd ?r) s") auto
  obtain y s2 where rest: "start_h_factor_runs m loc i h_i rest s1 = (y, s2)"
    by (cases "start_h_factor_runs m loc i h_i rest s1") auto
  from Cons.prems run rest obtain rd others where x: "x = Inr rd" and y: "y = Inr others"
    and runs: "runs = ((database_entry loc)[i := fst ?r], snd ?r, rd) # others"
    and s2: "s2 = s'"
    by (cases x; cases y) (auto simp: Let_def case_prod_beta)
  from Cons.IH [OF rest [unfolded y s2]] show ?case
    by (auto simp: runs nth_Cons split: nat.splits)
qed


text \<open>
  Claim C5. For the parameter component \<open>i\<close> and each \<open>h\<close> factor, with the nominal
  step \<open>h_factor * h_i\<close> where \<open>h_i\<close> is the typical value times the step size: under
  accuracy order 1 a perturbed value below the lower or above the upper bound makes the sign
  of the step flip and the perturbed value become \<open>parameters[i]\<close> plus the flipped step;
  under accuracy order 2 such a value becomes the violated bound; a value within the bounds
  is kept. In all cases only component \<open>i\<close> of the database entry is changed, and the
  \<open>h\<close> that is kept is the perturbed value minus \<open>parameters[i]\<close>.
\<close>

theorem start_h_factor_runs_bounds:
  assumes "start_h_factor_runs m loc i h_i factors s = (Inr runs, s')"
    and "i < length (database_entry loc)"
    and "k < length factors"
  shows "\<exists>pfd h rd. k < length runs \<and> runs ! k = (pfd, h, rd) \<and>
      (let h_nominal = factors ! k * h_i;
           p = parameters_now loc ! i;
           lo = parameters_lower_bound_ext m ! i;
           up = parameters_upper_bound_ext m ! i;
           v0 = database_entry loc ! i + h_nominal;
           violates = (v0 < lo \<or> violates_upper v0 up)
       in pfd = (database_entry loc)[i := pfd ! i]
          \<and> (derivative_accuracy_order m = 1 \<and> violates \<longrightarrow> pfd ! i = p + (- h_nominal))
          \<and> (derivative_accuracy_order m \<noteq> 1 \<and> v0 < lo \<longrightarrow> pfd ! i = lo)
          \<and> (derivative_accuracy_order m \<noteq> 1 \<and> \<not> v0 < lo \<and> violates_upper v0 up
               \<longrightarrow> up = Some (pfd ! i))
          \<and> (\<not> violates \<longrightarrow> pfd ! i = v0)
          \<and> h = pfd ! i - p)"
proof -
  let ?r = "perturbation (derivative_accuracy_order m) (database_entry loc ! i)
              (parameters_now loc ! i) (parameters_lower_bound_ext m ! i)
              (parameters_upper_bound_ext m ! i) (factors ! k * h_i)"
  from start_h_factor_runs_nth [OF assms(1)] assms(3)
  have len: "k < length runs"
    and pfd: "fst (runs ! k) = (database_entry loc)[i := fst ?r]"
    and h: "fst (snd (runs ! k)) = snd ?r"
    by simp_all
  have at: "fst (runs ! k) ! i = fst ?r"
    using assms(2) by (simp add: pfd)
  obtain pfd' h' rd' where rk: "runs ! k = (pfd', h', rd')"
    by (cases "runs ! k") auto
  from rk pfd h at have p1: "pfd' = (database_entry loc)[i := pfd' ! i]"
    and p2: "pfd' ! i = fst ?r" and p3: "h' = snd ?r"
    by simp_all
  from perturbation_cases [of "database_entry loc ! i" "factors ! k * h_i"
         "parameters_lower_bound_ext m ! i" "parameters_upper_bound_ext m ! i"
         "derivative_accuracy_order m" "parameters_now loc ! i"]
  have "let h_nominal = factors ! k * h_i;
           p = parameters_now loc ! i;
           lo = parameters_lower_bound_ext m ! i;
           up = parameters_upper_bound_ext m ! i;
           v0 = database_entry loc ! i + h_nominal;
           violates = (v0 < lo \<or> violates_upper v0 up)
       in pfd' = (database_entry loc)[i := pfd' ! i]
          \<and> (derivative_accuracy_order m = 1 \<and> violates \<longrightarrow> pfd' ! i = p + (- h_nominal))
          \<and> (derivative_accuracy_order m \<noteq> 1 \<and> v0 < lo \<longrightarrow> pfd' ! i = lo)
          \<and> (derivative_accuracy_order m \<noteq> 1 \<and> \<not> v0 < lo \<and> violates_upper v0 up
               \<longrightarrow> up = Some (pfd' ! i))
          \<and> (\<not> violates \<longrightarrow> pfd' ! i = v0)
          \<and> h' = pfd' ! i - p"
    unfolding Let_def p2 p3 using p1 [unfolded p2] by blast
  with len rk show ?thesis by blast
qed

theorem start_h_factor_runs_bounds_witness:
  "fst (start_h_factor_runs model0 loc0 0 (1 / 10) [1, - 1] state0)
     = Inr [([1 / 10, 1], 1 / 10, Some (Partial_Derivative_Dir 0 (1 / 10) 0 1, 0)),
            ([0, 1], 0, Some (Partial_Derivative_Dir 0 (1 / 10) 0 0, 0))]
   \<and> database_entry loc0 ! 0 + [1, - 1] ! 1 * (1 / 10) < parameters_lower_bound_ext model0 ! 0
   \<and> derivative_accuracy_order model0 \<noteq> 1
   \<and> [0, 1] ! 0 = parameters_lower_bound_ext model0 ! 0
   \<and> (0::real) = [0, 1] ! 0 - parameters_now loc0 ! 0"
proof -
  let ?runs = "[([1 / 10, 1], 1 / 10, Some (Partial_Derivative_Dir 0 (1 / 10) 0 1, 0)),
            ([0, 1], 0, Some (Partial_Derivative_Dir 0 (1 / 10) 0 0, 0))]
            :: perturbation_run list"
  have ev: "fst (start_h_factor_runs model0 loc0 0 (1 / 10) [1, - 1] state0) = Inr ?runs"
    by (simp add: witness_defs loc0_def perturbation_def violates_upper_def
          parameters_lower_bound_ext_def parameters_upper_bound_ext_def
          partial_derivative_run_def sign_int_def
          database_parameter_entry_to_metos3d_model_parameters_dict_def
          case_prod_beta)
  then have res: "start_h_factor_runs model0 loc0 0 (1 / 10) [1, - 1] state0
     = (Inr ?runs, snd (start_h_factor_runs model0 loc0 0 (1 / 10) [1, - 1] state0))"
    by (simp add: prod_eq_iff)
  have i: "0 < length (database_entry loc0)" by (simp add: loc0_def)
  have k: "(1::nat) < length [1, - 1 :: real]" by simp
  from start_h_factor_runs_bounds [OF res i k] ev
  show ?thesis
    by (simp add: Let_def loc0_def model0_def parameters_lower_bound_ext_def
          parameters_upper_bound_ext_def violates_upper_def)
qed


text \<open>
  Claim C6. \<open>_df\<close> raises a \<open>ValueError\<close> and leaves the state as it is (no run
  directory, no job, no database entry, no event) when the accuracy order is neither 1 nor
  2, and when a mask is given whose length differs from that of the parameters. The length
  of the mask is checked first.
\<close>

theorem df_validation_errors:
  "(derivative_accuracy_order m \<noteq> 1 \<and> derivative_accuracy_order m \<noteq> 2 \<longrightarrow>
      (\<exists>e. p_df m load parameters opts mask_opt s = (Inl e, s) \<and> is_ValueError e
           \<and> ((\<forall>given. mask_opt = Some given \<longrightarrow> length given = length parameters)
                \<longrightarrow> e = Accuracy_Order_Not_Supported (derivative_accuracy_order m))))
   \<and> (\<forall>given. mask_opt = Some given \<and> length given \<noteq> length parameters \<longrightarrow>
        p_df m load parameters opts mask_opt s
          = (Inl (Mask_Length (length given) (length parameters)), s))"
  by (cases mask_opt)
     (auto simp: p_df_def prepare_mask_def choose_h_factors_def)


theorem df_validation_errors_witness:
  "p_df (model0\<lparr>derivative_accuracy_order := 3\<rparr>) (p_get_load_trajectory_function_for_all model0 1)
      [1] \<lparr>years = 100, tolerance = 0, combination = ''or''\<rparr> None state0
     = (Inl (Accuracy_Order_Not_Supported 3), state0)
   \<and> p_df model0 (p_get_load_trajectory_function_for_all model0 1)
      [1] \<lparr>years = 100, tolerance = 0, combination = ''or''\<rparr> (Some [True, False]) state0
     = (Inl (Mask_Length 2 1), state0)"
  using df_validation_errors
          [of "model0\<lparr>derivative_accuracy_order := 3\<rparr>"
              "p_get_load_trajectory_function_for_all model0 1" "[1]"
              "\<lparr>years = 100, tolerance = 0, combination = ''or''\<rparr>" None state0]
        df_validation_errors
          [of model0 "p_get_load_trajectory_function_for_all model0 1" "[1]"
              "\<lparr>years = 100, tolerance = 0, combination = ''or''\<rparr>" "Some [True, False]" state0]
  by (auto simp: model0_def)


subsection \<open>The claims about points\<close>

lemma array_min_Min: "array_min xs = Inr v \<Longrightarrow> xs \<noteq> [] \<and> v = Min (set xs)"
  using Min.set_eq_fold [of "hd xs" "tl xs"]
  by (cases xs) (auto simp: array_min_def)

lemma array_max_Max: "array_max xs = Inr v \<Longrightarrow> xs \<noteq> [] \<and> v = Max (set xs)"
  using Max.set_eq_fold [of "hd xs" "tl xs"]
  by (cases xs) (auto simp: array_max_def)

lemma length_4: "length p = 4 \<Longrightarrow> \<exists>a b c d. p = [a, b, c, d]"
  by (auto simp: length_Suc_conv eval_nat_numeral)

lemma clamp_row:
  fixes p :: "real list"
  assumes "length p = 4"
  shows "(let p1 = (if p ! 2 < lo2 then p[2 := lo2] else p);
              p2 = (if p1 ! 3 < lo3 then p1[3 := lo3] else p1);
              p3 = (if p2 ! 2 > hi2 then p2[2 := hi2] else p2)
          in if p3 ! 3 > hi3 then p3[3 := hi3] else p3)
         = [p ! 0, p ! 1, min hi2 (max lo2 (p ! 2)), min hi3 (max lo3 (p ! (3::nat)))]"
proof -
  from length_4 [OF assms] obtain a b c d where p: "p = [a, b, c, d]" by blast
  show ?thesis by (simp add: p Let_def eval_nat_numeral min_def max_def)
qed

lemma clamp_all:
  assumes "list_all (\<lambda>p. length p = 4) pts"
  shows "clamp_above hi3 3 (clamp_above hi2 2 (clamp_below lo3 3 (clamp_below lo2 2 pts)))
         = map (\<lambda>p. [p ! 0, p ! 1, min hi2 (max lo2 (p ! 2)), min hi3 (max lo3 (p ! 3))]) pts"
proof -
  have "clamp_above hi3 3 (clamp_above hi2 2 (clamp_below lo3 3 (clamp_below lo2 2 pts)))
        = map (\<lambda>p. let p1 = (if p ! 2 < lo2 then p[2 := lo2] else p);
              p2 = (if p1 ! 3 < lo3 then p1[3 := lo3] else p1);
              p3 = (if p2 ! 2 > hi2 then p2[2 := hi2] else p2)
          in if p3 ! 3 > hi3 then p3[3 := hi3] else p3) pts"
    by (simp add: clamp_above_def clamp_below_def Let_def comp_def)
  also have "\<dots> = map (\<lambda>p. [p ! 0, p ! 1, min hi2 (max lo2 (p ! 2)), min hi3 (max lo3 (p ! 3))]) pts"
    using assms by (intro map_cong refl clamp_row) (simp add: list_all_iff)
  finally show ?thesis .
qed

lemma tracer_interpolation_points_Inr:
  assumes "tracer_interpolation_points m tracer_points = Inr pts"
  shows "list_all (\<lambda>p. length p = 4) (coordinates_to_map_indices m tracer_points)
         \<and> pts = (if MODEL_INTERPOLATOR_NUMBER_OF_LINEAR_INTERPOLATOR m > 0
                  then clamped_points m (coordinates_to_map_indices m tracer_points)
                  else coordinates_to_map_indices m tracer_points)"
proof -
  let ?c = "coordinates_to_map_indices m tracer_points"
  from assms have all4: "list_all (\<lambda>p. length p = 4) ?c"
    by (auto simp: tracer_interpolation_points_def Let_def split: if_splits)
  show ?thesis
  proof (cases "MODEL_INTERPOLATOR_NUMBER_OF_LINEAR_INTERPOLATOR m > 0")
    case False
    with assms all4 show ?thesis
      by (auto simp: tracer_interpolation_points_def Let_def split: if_splits)
  next
    case True
    with assms all4 obtain vmin vmax where
      mn: "array_min (where_positive_1 (lsm_lsm m)) = Inr vmin"
      and mx: "array_max (where_positive_1 (lsm_lsm m)) = Inr vmax"
      and pts: "pts = clamp_above (real_of_int (lsm_z_dim m - 1)) 3
                         (clamp_above (real vmax) 2
                            (clamp_below 0 3 (clamp_below (real vmin) 2 ?c)))"
      by (auto simp: tracer_interpolation_points_def Let_def split: if_splits sum.splits)
    from array_min_Min [OF mn] array_max_Max [OF mx] pts clamp_all [OF all4] True all4
    show ?thesis by (simp add: clamped_points_def)
  qed
qed

lemma interpolation_points_of_Inr:
  "interpolation_points_of m points = Inr ips \<Longrightarrow>
     length ips = length points
     \<and> (\<forall>t < length points. tracer_interpolation_points m (points ! t) = Inr (ips ! t))"
proof (induction points arbitrary: ips)
  case Nil
  then show ?case by simp
next
  case (Cons tp rest)
  from Cons.prems obtain pts others where
    a: "tracer_interpolation_points m tp = Inr pts"
    and b: "interpolation_points_of m rest = Inr others"
    and c: "ips = pts # others"
    by (auto split: sum.splits)
  from Cons.IH [OF b] a c show ?case
    by (auto simp: nth_Cons split: nat.splits)
qed


text \<open>
  Claim C8. The load function for points converts the points of every tracer with
  \<open>coordinates_to_map_indices\<close> of the land-sea mask and, when the number of linear
  interpolators is positive, clamps two columns of every converted point before it
  interpolates at these points (\<open>clamped_points\<close>): the third column, the index along the
  second axis of the two-dimensional mask, between the least and the greatest such index at
  which the mask is positive, and the fourth column, the vertical index, between 0 and
  \<open>z_dim - 1\<close>. The first column, the temporal index, and the second are not changed.
  Without linear interpolators it interpolates at the converted points.
\<close>

theorem points_converted_then_clamped:
  assumes "p_get_load_trajectory_function_for_points m points = Inr load"
  shows "\<exists>ips. interpolation_points_of m points = Inr ips
           \<and> length ips = length points
           \<and> (\<forall>t < length points.
                 load out t cache = p_interpolate m (out t) (ips ! t) cache
                 \<and> list_all (\<lambda>p. length p = 4) (coordinates_to_map_indices m (points ! t))
                 \<and> ips ! t =
                     (if MODEL_INTERPOLATOR_NUMBER_OF_LINEAR_INTERPOLATOR m > 0
                      then clamped_points m (coordinates_to_map_indices m (points ! t))
                      else coordinates_to_map_indices m (points ! t)))"
proof -
  from assms obtain ips where ips: "interpolation_points_of m points = Inr ips"
    and load: "load = (\<lambda>out tracer_index cache.
                 if tracer_index < length ips
                 then p_interpolate m (out tracer_index) (ips ! tracer_index) cache
                 else (Inl IndexError, cache))"
    by (auto simp: p_get_load_trajectory_function_for_points_def split: sum.splits)
  from interpolation_points_of_Inr [OF ips]
  have len: "length ips = length points"
    and each: "\<forall>t < length points. tracer_interpolation_points m (points ! t) = Inr (ips ! t)"
    by simp_all
  show ?thesis
  proof (intro exI [of _ ips] conjI allI impI)
    show "interpolation_points_of m points = Inr ips" by (rule ips)
    show "length ips = length points" by (rule len)
  next
    fix t assume t: "t < length points"
    then show "load out t cache = p_interpolate m (out t) (ips ! t) cache"
      by (simp add: load len)
    from each t have "tracer_interpolation_points m (points ! t) = Inr (ips ! t)" by simp
    from tracer_interpolation_points_Inr [OF this]
    show "list_all (\<lambda>p. length p = 4) (coordinates_to_map_indices m (points ! t))"
      and "ips ! t =
                     (if MODEL_INTERPOLATOR_NUMBER_OF_LINEAR_INTERPOLATOR m > 0
                      then clamped_points m (coordinates_to_map_indices m (points ! t))
                      else coordinates_to_map_indices m (points ! t))"
      by simp_all
  qed
qed

theorem points_converted_then_clamped_witness:
  "(\<exists>load. p_get_load_trajectory_function_for_points model0
              [[[0, 0, 5, - 1]], [[1, 1, - 2, 7]]] = Inr load)
   \<and> interpolation_points_of model0 [[[0, 0, 5, - 1]], [[1, 1, - 2, 7]]]
        = Inr [[[0, 0, 1, 0]], [[1, 1, 0, 3]]]"
proof -
  have w: "where_positive_1 (lsm_lsm model0) = [1, 0]"
    by (simp add: where_positive_1_def model0_def)
  have ip: "interpolation_points_of model0 [[[0, 0, 5, - 1]], [[1, 1, - 2, 7]]]
        = Inr [[[0, 0, 1, 0]], [[1, 1, 0, 3]]]"
    by (simp add: tracer_interpolation_points_def w array_min_def array_max_def
          clamp_below_def clamp_above_def Let_def)
       (simp add: model0_def)
  then obtain load where
    l: "p_get_load_trajectory_function_for_points model0
              [[[0, 0, 5, - 1]], [[1, 1, - 2, 7]]] = Inr load"
    by (simp add: p_get_load_trajectory_function_for_points_def)
  from points_converted_then_clamped [OF l] ip l show ?thesis by blast
qed


text \<open>
  The temporal index is not clamped: with a positive number of linear interpolators the
  points with the temporal indices \<open>- 5\<close> and \<open>400\<close>, for a mask of 12 time steps, keep
  them, while their third and fourth columns are clamped.
\<close>

theorem points_temporal_index_not_clamped:
  "0 < MODEL_INTERPOLATOR_NUMBER_OF_LINEAR_INTERPOLATOR model0
   \<and> interpolation_points_of model0 [[[- 5, 0, 5, - 1]], [[400, 1, - 2, 7]]]
        = Inr [[[- 5, 0, 1, 0]], [[400, 1, 0, 3]]]
   \<and> \<not> temporal_and_vertical_in_range model0 [[- 5, 0, 1, 0]]
   \<and> \<not> temporal_and_vertical_in_range model0 [[400, 1, 0, 3]]"
proof -
  have w: "where_positive_1 (lsm_lsm model0) = [1, 0]"
    by (simp add: where_positive_1_def model0_def)
  have ip: "interpolation_points_of model0 [[[- 5, 0, 5, - 1]], [[400, 1, - 2, 7]]]
        = Inr [[[- 5, 0, 1, 0]], [[400, 1, 0, 3]]]"
    by (simp add: tracer_interpolation_points_def w array_min_def array_max_def
          clamp_below_def clamp_above_def Let_def)
       (simp add: model0_def)
  have n: "0 < MODEL_INTERPOLATOR_NUMBER_OF_LINEAR_INTERPOLATOR model0"
    by (simp add: model0_def)
  have r: "\<not> temporal_and_vertical_in_range model0 [[- 5, 0, 1, 0]]"
    "\<not> temporal_and_vertical_in_range model0 [[400, 1, 0, 3]]"
    by (simp_all add: temporal_and_vertical_in_range_def model0_def)
  from n ip r show ?thesis by simp
qed

text \<open>
  Claim C9. When \<open>points\<close> is a sequence of point arrays whose length is not 2,
  \<open>f_points\<close> and \<open>df_points\<close> raise the \<open>ValueError\<close> that names this length, whatever
  the parameters are, and leave the state as it is.
\<close>

theorem points_length_error:
  "length points \<noteq> 2 \<longrightarrow>
     f_points m parameters points s = (Inl (Points_Length (length points)), s)
     \<and> df_points m parameters points mask_opt s = (Inl (Points_Length (length points)), s)
     \<and> is_ValueError (Points_Length (length points))"
  by (simp add: f_points_def df_points_def)

theorem points_length_error_witness:
  "f_points model0 [50] [[[0, 0, 0, 0]]] state0 = (Inl (Points_Length 1), state0)
   \<and> df_points model0 [50] [[[0, 0, 0, 0]]] None state0 = (Inl (Points_Length 1), state0)"
  using points_length_error [of "[[[0, 0, 0, 0]]]" model0 "[50]" state0 None]
  by simp


subsection \<open>Lemmas about the derivative\<close>

lemma map2_replicate:
  "map2 op a (replicate (length a) y) = map (\<lambda>x. op x y) a"
  by (induction a) auto

lemma inplace_Inr:
  "inplace op a b = Inr r \<Longrightarrow> r = map2 op a (broadcast (length a) b) \<and> length r = length a"
  by (auto simp: inplace_def broadcast_def map2_replicate split: if_splits)

lemma map2_zero_add:
  "map2 (+) (replicate (length b) (0::real)) b = b"
  by (induction b) auto

lemma signed_alt: "signed k tr = map ((*) ((- 1) ^ k)) tr"
  by (simp add: signed_def)

lemma signed_0: "signed 0 tr = tr"
  by (simp add: signed_def)

lemma signed_1: "signed (Suc 0) tr = map uminus tr"
  by (simp add: signed_def)

lemma inplace_add_zero:
  assumes "inplace (+) (replicate L 0) (signed 0 tr) = Inr r"
  shows "r = broadcast L tr \<and> length r = L"
proof -
  note a = assms [unfolded signed_0]
  from a have "length tr = L \<or> length tr = 1"
    by (auto simp: inplace_def split: if_splits)
  then show ?thesis
  proof
    assume "length tr = L"
    with a map2_zero_add [of tr] show ?thesis
      by (auto simp: inplace_def broadcast_def)
  next
    assume l: "length tr = 1"
    then obtain x where tr: "tr = [x]" by (cases tr) auto
    with a show ?thesis
      by (cases "L = 1") (auto simp: inplace_def broadcast_def split: if_splits)
  qed
qed

lemma inplace_add_neg:
  assumes "inplace (+) R (signed (Suc 0) tr) = Inr r"
  shows "r = map2 (-) R (broadcast (length R) tr)"
proof -
  note a = assms [unfolded signed_1]
  from a have "length tr = length R \<or> length tr = 1"
    by (auto simp: inplace_def split: if_splits)
  then show ?thesis
  proof
    assume l: "length tr = length R"
    have "map2 (+) R (map uminus tr) = map2 (-) R tr"
      using l [symmetric] by (induction R tr rule: list_induct2) auto
    with a l show ?thesis
      by (auto simp: inplace_def broadcast_def)
  next
    assume l: "length tr = 1"
    then obtain x where tr: "tr = [x]" by (cases tr) auto
    show ?thesis
    proof (cases "length R = 1")
      case True
      then obtain y where "R = [y]" by (cases R) auto
      with a tr show ?thesis by (auto simp: inplace_def broadcast_def)
    next
      case False
      with a tr map2_replicate [of "(+)" R "- x"] map2_replicate [of "(-)" R x] show ?thesis
        by (auto simp: inplace_def broadcast_def)
    qed
  qed
qed

lemma inplace_divide_scalar:
  assumes "inplace_divide R [h] = Inr r"
  shows "r = map (\<lambda>x. x / h) R \<and> (R \<noteq> [] \<longrightarrow> h \<noteq> 0)"
proof (cases "length R = 1")
  case True
  then obtain y where "R = [y]" by (cases R) auto
  with assms show ?thesis
    by (auto simp: inplace_divide_def inplace_def split: if_splits sum.splits)
next
  case False
  with assms show ?thesis
    by (auto simp: inplace_divide_def inplace_def split: if_splits sum.splits)
qed

lemma map_result_Inr:
  "map_result g xs = Inr ys \<Longrightarrow>
     length ys = length xs \<and> (\<forall>j < length xs. g (xs ! j) = Inr (ys ! j))"
proof (induction xs arbitrary: ys)
  case Nil
  then show ?case by simp
next
  case (Cons x xs)
  from Cons.prems obtain y rest where a: "g x = Inr y" and b: "map_result g xs = Inr rest"
    and c: "ys = y # rest"
    by (auto split: sum.splits)
  from Cons.IH [OF b] a c show ?case
    by (auto simp: nth_Cons split: nat.splits)
qed

lemma add_trajectory_nth:
  assumes "add_trajectory plen i k traj df = Inr df'" and "length traj = length df"
  shows "length df' = length df
         \<and> (\<forall>t < length df. add_to_tracer plen i k (df ! t) (traj ! t) = Inr (df' ! t))"
  using map_result_Inr [OF assms(1) [unfolded add_trajectory_def]] assms(2)
  by (auto simp: add_to_tracer_def signed_alt Let_def)

lemma add_to_tracer_other:
  assumes "add_to_tracer plen j k d tr = Inr d'" and "i \<noteq> j" and "i < plen"
  shows "(pristine_row plen i d \<longrightarrow> pristine_row plen i d')
         \<and> (has_row plen i R d \<longrightarrow> has_row plen i R d')"
  using assms
  by (cases d)
     (auto simp: add_to_tracer_def pristine_row_def has_row_def Let_def
           split: if_splits sum.splits)

lemma add_to_tracer_first:
  assumes "add_to_tracer plen i 0 d tr = Inr d'" and "pristine_row plen i d" and "i < plen"
  shows "\<exists>R. has_row plen i R d' \<and> R = broadcast (length R) tr"
proof (cases d)
  case None
  with assms obtain row where
    r: "inplace (+) (replicate (length tr) 0) (signed 0 tr) = Inr row"
    and d': "d' = Some ((replicate plen (replicate (length tr) 0))[i := row])"
    by (auto simp: add_to_tracer_def Let_def split: if_splits sum.splits)
  from inplace_add_zero [OF r] d' assms(3) show ?thesis
    by (auto simp: has_row_def)
next
  case (Some rows)
  with assms have len: "length rows = plen" and z: "rows ! i = replicate (length (rows ! i)) 0"
    by (auto simp: pristine_row_def)
  from assms Some obtain row where
    r: "inplace (+) (rows ! i) (signed 0 tr) = Inr row"
    and d': "d' = Some (rows[i := row])"
    by (auto simp: add_to_tracer_def Let_def split: if_splits sum.splits)
  from r z have "inplace (+) (replicate (length (rows ! i)) 0) (signed 0 tr) = Inr row"
    by simp
  from inplace_add_zero [OF this] d' assms(3) len show ?thesis
    by (auto simp: has_row_def)
qed

lemma add_to_tracer_second:
  assumes "add_to_tracer plen i (Suc 0) d tr = Inr d'" and "has_row plen i R d" and "i < plen"
  shows "has_row plen i (map2 (-) R (broadcast (length R) tr)) d'"
proof -
  from assms obtain rows where d: "d = Some rows" and len: "length rows = plen"
    and R: "rows ! i = R"
    by (cases d) (auto simp: has_row_def)
  from assms d obtain row where
    r: "inplace (+) (rows ! i) (signed (Suc 0) tr) = Inr row"
    and d': "d' = Some (rows[i := row])"
    by (auto simp: add_to_tracer_def Let_def split: if_splits sum.splits)
  from inplace_add_neg [OF r] d' assms(3) len R show ?thesis
    by (auto simp: has_row_def)
qed

lemma finish_parameter_nth:
  assumes "finish_parameter accuracy_order f i h_row df = Inr df'"
  shows "length df' = length df
         \<and> (\<forall>t < length df. finish_tracer accuracy_order f i h_row t (df ! t) = Inr (df' ! t))"
  using map_result_Inr [OF assms [unfolded finish_parameter_def]]
  by (auto simp: finish_tracer_def)

lemma finish_tracer_other:
  assumes "finish_tracer accuracy_order f j h_row t d = Inr d'" and "i \<noteq> j" and "i < plen"
  shows "(pristine_row plen i d \<longrightarrow> pristine_row plen i d')
         \<and> (has_row plen i R d \<longrightarrow> has_row plen i R d')"
  using assms
  by (cases d)
     (auto simp: finish_tracer_def pristine_row_def has_row_def Let_def
           split: if_splits sum.splits)

lemma finish_tracer_order_1:
  assumes "finish_tracer 1 f i [h] t d = Inr d'" and "has_row plen i R d"
  shows "has_row plen i (map (\<lambda>x. x / h) (map2 (-) R (broadcast (length R) (f ! t)))) d'"
proof -
  from assms obtain rows where d: "d = Some rows" and len: "length rows = plen"
    and R: "rows ! i = R"
    by (cases d) (auto simp: has_row_def)
  from assms d obtain r row where
    r: "inplace (-) (rows ! i) (f ! t) = Inr r"
    and row: "inplace_divide r [h] = Inr row"
    and d': "d' = Some (rows[i := row])" and i: "i < length rows"
    by (auto simp: finish_tracer_def Let_def split: if_splits sum.splits)
  from inplace_Inr [OF r] inplace_divide_scalar [OF row] d' len R i show ?thesis
    by (auto simp: has_row_def)
qed

lemma finish_tracer_order_2:
  assumes "finish_tracer accuracy_order f i h_row t d = Inr d'" and "has_row plen i R d"
    and "accuracy_order \<noteq> 1"
  shows "has_row plen i (map (\<lambda>x. x / sum_list (map abs h_row)) R) d'"
proof -
  from assms obtain rows where d: "d = Some rows" and len: "length rows = plen"
    and R: "rows ! i = R"
    by (cases d) (auto simp: has_row_def)
  from assms d obtain row where
    row: "inplace_divide (rows ! i) [sum_list (map abs h_row)] = Inr row"
    and d': "d' = Some (rows[i := row])" and i: "i < length rows"
    by (auto simp: finish_tracer_def Let_def split: if_splits sum.splits)
  from inplace_divide_scalar [OF row] d' len R i show ?thesis
    by (auto simp: has_row_def)
qed

lemma appendsI: "events s' = events s @ new \<Longrightarrow> list_all Q new \<Longrightarrow> appends Q s s'"
  by (simp add: appends_def)

lemma appendsD: "appends Q s s' \<Longrightarrow> \<exists>new. events s' = events s @ new \<and> list_all Q new"
  by (metis appends_def append_take_drop_id)

lemma appends_same: "events s' = events s \<Longrightarrow> appends Q s s'"
  by (simp add: appends_def)

lemma appends_trans: "appends Q s s1 \<Longrightarrow> appends Q s1 s2 \<Longrightarrow> appends Q s s2"
proof -
  assume a: "appends Q s s1" and b: "appends Q s1 s2"
  from appendsD [OF a] obtain n1 where n1: "events s1 = events s @ n1" "list_all Q n1" by blast
  from appendsD [OF b] obtain n2 where n2: "events s2 = events s1 @ n2" "list_all Q n2" by blast
  show ?thesis
    by (rule appendsI [of _ _ "n1 @ n2"]) (simp_all add: n1 n2)
qed


lemma load_tracers_Inr:
  "load_tracers load out ts s = (Inr T, s') \<Longrightarrow>
     length T = length ts \<and> events s' = events s \<and> run_dirs_in s' = run_dirs_in s
     \<and> parameter_db s' = parameter_db s"
proof (induction ts arbitrary: s T)
  case Nil
  then show ?case by simp
next
  case (Cons t ts)
  obtain x c where l: "load out t (interpolator_cached s) = (x, c)"
    by (cases "load out t (interpolator_cached s)") auto
  obtain y s2 where r: "load_tracers load out ts (s\<lparr>interpolator_cached := c\<rparr>) = (y, s2)"
    by (cases "load_tracers load out ts (s\<lparr>interpolator_cached := c\<rparr>)") auto
  from Cons.prems l r obtain v vs where x: "x = Inr v" and y: "y = Inr vs"
    and T: "T = v # vs" and s2: "s2 = s'"
    by (cases x; cases y) auto
  from Cons.IH [OF r [unfolded y s2]] T show ?case by simp
qed

lemma p_get_trajectory_Inr:
  assumes "p_get_trajectory m load rd mp s = (Inr T, s')"
  shows "length T = METOS_TRACER_DIM m
         \<and> events s' = events s @ [Start_Trajectory_Job rd, Wait_Trajectory_Job rd]
         \<and> run_dirs_in s' = run_dirs_in s \<and> parameter_db s' = parameter_db s"
  using load_tracers_Inr [OF assms [unfolded p_get_trajectory_def Let_def]]
  by (simp add: start_run_def wait_until_run_job_finished_def Let_def)

lemma add_trajectories_other:
  assumes "add_trajectories m load plen j k runs df s = (Inr df', s')"
    and "length df = METOS_TRACER_DIM m" and "i \<noteq> j" and "i < plen"
  shows "length df' = length df
         \<and> (\<forall>t < length df.
               (pristine_row plen i (df ! t) \<longrightarrow> pristine_row plen i (df' ! t))
               \<and> (\<forall>R. has_row plen i R (df ! t) \<longrightarrow> has_row plen i R (df' ! t)))"
  using assms(1,2)
proof (induction runs arbitrary: k df s)
  case Nil
  then show ?case by simp
next
  case (Cons run rest)
  obtain pfd h rd_opt where run: "run = (pfd, h, rd_opt)" by (cases run) auto
  from Cons.prems(1) run obtain rd where rd: "rd_opt = Some rd"
    by (cases rd_opt) auto
  let ?s1 = "wait_until_run_job_finished (Run_Path rd) s"
  from Cons.prems(1) run rd obtain mp tcf where
    mp: "database_parameter_entry_to_metos3d_model_parameters_dict pfd = Inr (mp, tcf)"
    by (cases "database_parameter_entry_to_metos3d_model_parameters_dict pfd")
       (auto simp: Let_def)
  obtain x s2 where g: "p_get_trajectory m load (Some rd) mp ?s1 = (x, s2)"
    by (cases "p_get_trajectory m load (Some rd) mp ?s1") auto
  from Cons.prems(1) run rd mp g obtain traj where x: "x = Inr traj"
    by (cases x) (auto simp: Let_def)
  from Cons.prems(1) run rd mp g x obtain df1 where
    a: "add_trajectory plen j k traj df = Inr df1"
    and r: "add_trajectories m load plen j (Suc k) rest df1 s2 = (Inr df', s')"
    by (cases "add_trajectory plen j k traj df") (auto simp: Let_def)
  from p_get_trajectory_Inr [OF g [unfolded x]] Cons.prems(2)
  have lt: "length traj = length df" by simp
  note n = add_trajectory_nth [OF a lt]
  from n Cons.prems(2) have l1: "length df1 = METOS_TRACER_DIM m" by simp
  note ih = Cons.IH [OF r l1]
  show ?case
  proof (intro conjI allI impI)
    show "length df' = length df" using ih n by simp
  next
    fix t assume t: "t < length df"
    with n have at: "add_to_tracer plen j k (df ! t) (traj ! t) = Inr (df1 ! t)" by simp
    assume "pristine_row plen i (df ! t)"
    with add_to_tracer_other [OF at assms(3,4)] have "pristine_row plen i (df1 ! t)" by simp
    with ih t n show "pristine_row plen i (df' ! t)" by simp
  next
    fix t R assume t: "t < length df"
    with n have at: "add_to_tracer plen j k (df ! t) (traj ! t) = Inr (df1 ! t)" by simp
    assume "has_row plen i R (df ! t)"
    with add_to_tracer_other [OF at assms(3,4)] have "has_row plen i R (df1 ! t)" by simp
    with ih t n show "has_row plen i R (df' ! t)" by simp
  qed
qed

lemma model_parameters_dict_Inr:
  "database_parameter_entry_to_metos3d_model_parameters_dict pfd = Inr (mp, tcf) \<Longrightarrow>
     mp = butlast pfd \<and> tcf = last pfd \<and> pfd \<noteq> []"
  by (auto simp: database_parameter_entry_to_metos3d_model_parameters_dict_def split: if_splits)

lemma add_trajectories_Cons:
  assumes "add_trajectories m load plen i k ((pfd, h, rd_opt) # rest) df s = (Inr df', s')"
  shows "\<exists>rd T s2 df1. rd_opt = Some rd \<and> pfd \<noteq> []
           \<and> p_get_trajectory m load (Some rd) (butlast pfd)
                 (wait_until_run_job_finished (Run_Path rd) s) = (Inr T, s2)
           \<and> add_trajectory plen i k T df = Inr df1
           \<and> add_trajectories m load plen i (Suc k) rest df1 s2 = (Inr df', s')"
proof -
  from assms obtain rd where rd: "rd_opt = Some rd"
    by (cases rd_opt) auto
  let ?s1 = "wait_until_run_job_finished (Run_Path rd) s"
  from assms rd obtain mp tcf where
    mp: "database_parameter_entry_to_metos3d_model_parameters_dict pfd = Inr (mp, tcf)"
    by (cases "database_parameter_entry_to_metos3d_model_parameters_dict pfd")
       (auto simp: Let_def)
  note b = model_parameters_dict_Inr [OF mp]
  obtain x s2 where g: "p_get_trajectory m load (Some rd) mp ?s1 = (x, s2)"
    by (cases "p_get_trajectory m load (Some rd) mp ?s1") auto
  from assms rd mp g obtain traj where x: "x = Inr traj"
    by (cases x) (auto simp: Let_def)
  from assms rd mp g x obtain df1 where
    a: "add_trajectory plen i k traj df = Inr df1"
    and r: "add_trajectories m load plen i (Suc k) rest df1 s2 = (Inr df', s')"
    by (cases "add_trajectory plen i k traj df") (auto simp: Let_def)
  from rd b g x a r show ?thesis by auto
qed

lemma add_trajectories_frame:
  assumes "add_trajectories m load plen i k runs df s = (Inr df', s')"
    and "\<And>x. Q (Start_Trajectory_Job x)" and "\<And>x. Q (Wait_Trajectory_Job x)"
    and "\<And>pfd h rd. (pfd, h, Some rd) \<in> set runs \<Longrightarrow> Q (Wait_Job rd)"
  shows "appends Q s s' \<and> run_dirs_in s' = run_dirs_in s \<and> parameter_db s' = parameter_db s"
  using assms(1,4)
proof (induction runs arbitrary: k df s)
  case Nil
  then show ?case by (simp add: appends_same)
next
  case (Cons run rest)
  obtain pfd h rd_opt where run: "run = (pfd, h, rd_opt)" by (cases run) auto
  from add_trajectories_Cons [OF Cons.prems(1) [unfolded run]]
  obtain rd T s2 df1 where rd: "rd_opt = Some rd"
    and g: "p_get_trajectory m load (Some rd) (butlast pfd)
                 (wait_until_run_job_finished (Run_Path rd) s) = (Inr T, s2)"
    and r: "add_trajectories m load plen i (Suc k) rest df1 s2 = (Inr df', s')"
    by blast
  have q: "Q (Wait_Job rd)" using Cons.prems(2) [of pfd h rd] run rd by simp
  from p_get_trajectory_Inr [OF g]
  have e2: "events s2 = events s @ [Wait_Job rd, Start_Trajectory_Job (Some rd),
                                     Wait_Trajectory_Job (Some rd)]"
    and f2: "run_dirs_in s2 = run_dirs_in s" "parameter_db s2 = parameter_db s"
    by (simp_all add: wait_until_run_job_finished_def)
  have a2: "appends Q s s2"
    by (rule appendsI [OF e2]) (simp add: q assms(2,3))
  have "appends Q s2 s' \<and> run_dirs_in s' = run_dirs_in s2 \<and> parameter_db s' = parameter_db s2"
    by (rule Cons.IH [OF r]) (use Cons.prems(2) in auto)
  with a2 f2 show ?case by (auto intro: appends_trans)
qed

lemma add_trajectories_one:
  assumes "add_trajectories m load plen i 0 [(pfd, h, rd_opt)] df s = (Inr df', s')"
    and "length df = METOS_TRACER_DIM m" and "i < plen"
  shows "\<exists>rd T. rd_opt = Some rd
           \<and> p_get_trajectory m load (Some rd) (butlast pfd)
                 (wait_until_run_job_finished (Run_Path rd) s) = (Inr T, s')
           \<and> length df' = length df
           \<and> (\<forall>t < length df. pristine_row plen i (df ! t) \<longrightarrow>
                 (\<exists>R. has_row plen i R (df' ! t) \<and> R = broadcast (length R) (T ! t)))"
proof -
  from add_trajectories_Cons [OF assms(1)]
  obtain rd T s2 df1 where rd: "rd_opt = Some rd"
    and g: "p_get_trajectory m load (Some rd) (butlast pfd)
                 (wait_until_run_job_finished (Run_Path rd) s) = (Inr T, s2)"
    and a: "add_trajectory plen i 0 T df = Inr df1"
    and r: "add_trajectories m load plen i (Suc 0) [] df1 s2 = (Inr df', s')"
    by blast
  from r have eq: "df' = df1" "s' = s2" by simp_all
  from p_get_trajectory_Inr [OF g] assms(2) have lt: "length T = length df" by simp
  note n = add_trajectory_nth [OF a lt]
  have main: "\<forall>t < length df. pristine_row plen i (df ! t) \<longrightarrow>
                 (\<exists>R. has_row plen i R (df' ! t) \<and> R = broadcast (length R) (T ! t))"
  proof (intro allI impI)
    fix t assume t: "t < length df" and p: "pristine_row plen i (df ! t)"
    from n t have "add_to_tracer plen i 0 (df ! t) (T ! t) = Inr (df1 ! t)" by simp
    from add_to_tracer_first [OF this p assms(3)] eq
    show "\<exists>R. has_row plen i R (df' ! t) \<and> R = broadcast (length R) (T ! t)" by simp
  qed
  have g': "p_get_trajectory m load (Some rd) (butlast pfd)
            (wait_until_run_job_finished (Run_Path rd) s) = (Inr T, s')"
    using g eq by simp
  have len: "length df' = length df" using n eq by simp
  from rd g' len main show ?thesis by blast
qed

lemma add_trajectories_two:
  assumes "add_trajectories m load plen i 0 [(pfd0, h0, rd_opt0), (pfd1, h1, rd_opt1)] df s
             = (Inr df', s')"
    and "length df = METOS_TRACER_DIM m" and "i < plen"
  shows "\<exists>rd0 rd1 T0 T1 sa. rd_opt0 = Some rd0 \<and> rd_opt1 = Some rd1
           \<and> p_get_trajectory m load (Some rd0) (butlast pfd0)
                 (wait_until_run_job_finished (Run_Path rd0) s) = (Inr T0, sa)
           \<and> p_get_trajectory m load (Some rd1) (butlast pfd1)
                 (wait_until_run_job_finished (Run_Path rd1) sa) = (Inr T1, s')
           \<and> length df' = length df
           \<and> (\<forall>t < length df. pristine_row plen i (df ! t) \<longrightarrow>
                 (\<exists>R. has_row plen i (map2 (-) R (broadcast (length R) (T1 ! t))) (df' ! t)
                      \<and> R = broadcast (length R) (T0 ! t)))"
proof -
  from add_trajectories_Cons [OF assms(1)]
  obtain rd0 T0 s2 df1 where rd0: "rd_opt0 = Some rd0"
    and g0: "p_get_trajectory m load (Some rd0) (butlast pfd0)
                 (wait_until_run_job_finished (Run_Path rd0) s) = (Inr T0, s2)"
    and a0: "add_trajectory plen i 0 T0 df = Inr df1"
    and r0: "add_trajectories m load plen i (Suc 0) [(pfd1, h1, rd_opt1)] df1 s2 = (Inr df', s')"
    by blast
  from add_trajectories_Cons [OF r0]
  obtain rd1 T1 s3 df2 where rd1: "rd_opt1 = Some rd1"
    and g1: "p_get_trajectory m load (Some rd1) (butlast pfd1)
                 (wait_until_run_job_finished (Run_Path rd1) s2) = (Inr T1, s3)"
    and a1: "add_trajectory plen i (Suc 0) T1 df1 = Inr df2"
    and r1: "add_trajectories m load plen i (Suc (Suc 0)) [] df2 s3 = (Inr df', s')"
    by blast
  from r1 have eq: "df' = df2" "s' = s3" by simp_all
  from p_get_trajectory_Inr [OF g0] assms(2) have lt0: "length T0 = length df" by simp
  note n0 = add_trajectory_nth [OF a0 lt0]
  from p_get_trajectory_Inr [OF g1] assms(2) n0 have lt1: "length T1 = length df1" by simp
  note n1 = add_trajectory_nth [OF a1 lt1]
  have main: "\<forall>t < length df. pristine_row plen i (df ! t) \<longrightarrow>
                 (\<exists>R. has_row plen i (map2 (-) R (broadcast (length R) (T1 ! t))) (df' ! t)
                      \<and> R = broadcast (length R) (T0 ! t))"
  proof (intro allI impI)
    fix t assume t: "t < length df" and p: "pristine_row plen i (df ! t)"
    from n0 t have "add_to_tracer plen i 0 (df ! t) (T0 ! t) = Inr (df1 ! t)" by simp
    from add_to_tracer_first [OF this p assms(3)]
    obtain R where R: "has_row plen i R (df1 ! t)" "R = broadcast (length R) (T0 ! t)" by blast
    from n1 n0 t have "add_to_tracer plen i (Suc 0) (df1 ! t) (T1 ! t) = Inr (df2 ! t)" by simp
    from add_to_tracer_second [OF this R(1) assms(3)] R(2) eq
    show "\<exists>R. has_row plen i (map2 (-) R (broadcast (length R) (T1 ! t))) (df' ! t)
              \<and> R = broadcast (length R) (T0 ! t)" by auto
  qed
  have g1': "p_get_trajectory m load (Some rd1) (butlast pfd1)
            (wait_until_run_job_finished (Run_Path rd1) s2) = (Inr T1, s')"
    using g1 eq by simp
  have len: "length df' = length df" using n0 n1 eq by simp
  from rd0 rd1 g0 g1' len main show ?thesis by blast
qed

lemma finish_parameter_other:
  assumes "finish_parameter accuracy_order f j h_row df = Inr df'" and "i \<noteq> j" and "i < plen"
  shows "length df' = length df
         \<and> (\<forall>t < length df.
               (pristine_row plen i (df ! t) \<longrightarrow> pristine_row plen i (df' ! t))
               \<and> (\<forall>R. has_row plen i R (df ! t) \<longrightarrow> has_row plen i R (df' ! t)))"
  using finish_parameter_nth [OF assms(1)] finish_tracer_other [OF _ assms(2,3)]
  by blast

lemma select_masked_nth:
  "length rows = length msk \<Longrightarrow> i < length msk \<Longrightarrow> msk ! i \<Longrightarrow>
     map fst (filter snd (zip rows msk)) ! length (filter id (take i msk)) = rows ! i"
proof (induction rows msk arbitrary: i rule: list_induct2)
  case Nil
  then show ?case by simp
next
  case (Cons r rows b msk)
  show ?case
  proof (cases i)
    case 0
    with Cons.prems show ?thesis by simp
  next
    case (Suc n)
    with Cons.prems Cons.IH [of n] show ?thesis by simp
  qed
qed


lemma calculate_df_Cons:
  assumes "calculate_df m load f plen msk ((i, runs) # rest) df s = (Inr df', s')"
  shows "i < length msk
         \<and> (msk ! i \<longrightarrow>
              (\<exists>df1 s1 df2. add_trajectories m load plen i 0 runs df s = (Inr df1, s1)
                 \<and> finish_parameter (derivative_accuracy_order m) f i
                       (map (\<lambda>(parameters_for_derivative, h, rd). h) runs) df1 = Inr df2
                 \<and> calculate_df m load f plen msk rest df2 s1 = (Inr df', s')))
         \<and> (\<not> msk ! i \<longrightarrow> calculate_df m load f plen msk rest df s = (Inr df', s'))"
proof -
  from assms have i: "i < length msk" by (auto split: if_splits)
  show ?thesis
  proof (cases "msk ! i")
    case False
    with assms i show ?thesis by simp
  next
    case True
    obtain x s1 where a: "add_trajectories m load plen i 0 runs df s = (x, s1)"
      by (cases "add_trajectories m load plen i 0 runs df s") auto
    from assms i True a obtain df1 where x: "x = Inr df1" by (cases x) auto
    from assms i True a x obtain df2 where
      fp: "finish_parameter (derivative_accuracy_order m) f i
                       (map (\<lambda>(parameters_for_derivative, h, rd). h) runs) df1 = Inr df2"
      by (cases "finish_parameter (derivative_accuracy_order m) f i
                       (map (\<lambda>(parameters_for_derivative, h, rd). h) runs) df1") auto
    from assms i True a x fp
    have "calculate_df m load f plen msk rest df2 s1 = (Inr df', s')" by simp
    with i True a x fp show ?thesis by auto
  qed
qed

lemma calculate_df_append:
  "calculate_df m load f plen msk (xs @ ys) df s =
     (case calculate_df m load f plen msk xs df s of
        (Inl e, s1) \<Rightarrow> (Inl e, s1)
      | (Inr df1, s1) \<Rightarrow> calculate_df m load f plen msk ys df1 s1)"
proof (induction xs arbitrary: df s)
  case Nil
  then show ?case by simp
next
  case (Cons x xs)
  obtain i runs where x: "x = (i, runs)" by (cases x) auto
  show ?case
    unfolding x
    by (simp add: Cons.IH split: prod.splits sum.splits)
qed

lemma calculate_df_other:
  assumes "calculate_df m load f plen msk es df s = (Inr df', s')"
    and "length df = METOS_TRACER_DIM m" and "i \<notin> fst ` set es" and "i < plen"
  shows "length df' = length df
         \<and> (\<forall>t < length df.
               (pristine_row plen i (df ! t) \<longrightarrow> pristine_row plen i (df' ! t))
               \<and> (\<forall>R. has_row plen i R (df ! t) \<longrightarrow> has_row plen i R (df' ! t)))"
  using assms(1,2,3)
proof (induction es arbitrary: df s)
  case Nil
  then show ?case by simp
next
  case (Cons x es)
  obtain j runs where x: "x = (j, runs)" by (cases x) auto
  from Cons.prems(3) x have ij: "i \<noteq> j" and rest: "i \<notin> fst ` set es" by auto
  note c = calculate_df_Cons [OF Cons.prems(1) [unfolded x]]
  show ?case
  proof (cases "msk ! j")
    case False
    with c have "calculate_df m load f plen msk es df s = (Inr df', s')" by simp
    from Cons.IH [OF this Cons.prems(2) rest] show ?thesis .
  next
    case True
    with c obtain df1 s1 df2 where
      a: "add_trajectories m load plen j 0 runs df s = (Inr df1, s1)"
      and fp: "finish_parameter (derivative_accuracy_order m) f j
                       (map (\<lambda>(parameters_for_derivative, h, rd). h) runs) df1 = Inr df2"
      and r: "calculate_df m load f plen msk es df2 s1 = (Inr df', s')"
      by blast
    note p1 = add_trajectories_other [OF a Cons.prems(2) ij assms(4)]
    note p2 = finish_parameter_other [OF fp ij assms(4)]
    from p1 p2 Cons.prems(2) have l2: "length df2 = METOS_TRACER_DIM m" by simp
    note p3 = Cons.IH [OF r l2 rest]
    show ?thesis
    proof (intro conjI allI impI)
      show "length df' = length df" using p1 p2 p3 by simp
    next
      fix t assume t: "t < length df" and "pristine_row plen i (df ! t)"
      with p1 have "pristine_row plen i (df1 ! t)" by simp
      with p2 p1 t have "pristine_row plen i (df2 ! t)" by simp
      with p3 p2 p1 t show "pristine_row plen i (df' ! t)" by simp
    next
      fix t R assume t: "t < length df" and "has_row plen i R (df ! t)"
      with p1 have "has_row plen i R (df1 ! t)" by simp
      with p2 p1 t have "has_row plen i R (df2 ! t)" by simp
      with p3 p2 p1 t show "has_row plen i R (df' ! t)" by simp
    qed
  qed
qed

lemma calculate_df_frame:
  assumes "calculate_df m load f plen msk es df s = (Inr df', s')"
    and "\<And>x. Q (Start_Trajectory_Job x)" and "\<And>x. Q (Wait_Trajectory_Job x)"
    and "\<And>j runs pfd h rd. (j, runs) \<in> set es \<Longrightarrow> msk ! j \<Longrightarrow> (pfd, h, Some rd) \<in> set runs
           \<Longrightarrow> Q (Wait_Job rd)"
  shows "appends Q s s' \<and> run_dirs_in s' = run_dirs_in s \<and> parameter_db s' = parameter_db s"
  using assms(1,4)
proof (induction es arbitrary: df s)
  case Nil
  then show ?case by (simp add: appends_same)
next
  case (Cons x es)
  obtain j runs where x: "x = (j, runs)" by (cases x) auto
  note c = calculate_df_Cons [OF Cons.prems(1) [unfolded x]]
  show ?case
  proof (cases "msk ! j")
    case False
    with c have r: "calculate_df m load f plen msk es df s = (Inr df', s')" by simp
    show ?thesis
      by (rule Cons.IH [OF r]) (use Cons.prems(2) in \<open>simp; blast\<close>)
  next
    case True
    with c obtain df1 s1 df2 where
      a: "add_trajectories m load plen j 0 runs df s = (Inr df1, s1)"
      and r: "calculate_df m load f plen msk es df2 s1 = (Inr df', s')"
      by blast
    have p1: "appends Q s s1 \<and> run_dirs_in s1 = run_dirs_in s
              \<and> parameter_db s1 = parameter_db s"
      by (rule add_trajectories_frame [OF a assms(2,3)])
         (use Cons.prems(2) [of j runs] x True in auto)
    have p2: "appends Q s1 s' \<and> run_dirs_in s' = run_dirs_in s1
              \<and> parameter_db s' = parameter_db s1"
      by (rule Cons.IH [OF r]) (use Cons.prems(2) in \<open>simp; blast\<close>)
    from p1 p2 show ?thesis by (auto intro: appends_trans)
  qed
qed

text \<open>The block of one parameter: from a pristine row to the finite difference.\<close>

lemma block_order_1:
  assumes a: "add_trajectories m load plen i 0 [(pfd, h, rd_opt)] df s = (Inr df1, s1)"
    and fp: "finish_parameter 1 f i [h] df1 = Inr df2"
    and len: "length df = METOS_TRACER_DIM m" and i: "i < plen"
    and t: "t < length df" and p: "pristine_row plen i (df ! t)"
  shows "\<exists>rd T R. rd_opt = Some rd
           \<and> p_get_trajectory m load (Some rd) (butlast pfd)
                 (wait_until_run_job_finished (Run_Path rd) s) = (Inr T, s1)
           \<and> length df2 = length df
           \<and> has_row plen i R (df2 ! t)
           \<and> R = map (\<lambda>x. x / h)
                   (map2 (-) (broadcast (length R) (T ! t)) (broadcast (length R) (f ! t)))"
proof -
  from add_trajectories_one [OF a len i]
  obtain rd T where rd: "rd_opt = Some rd"
    and g: "p_get_trajectory m load (Some rd) (butlast pfd)
              (wait_until_run_job_finished (Run_Path rd) s) = (Inr T, s1)"
    and l1: "length df1 = length df"
    and row: "\<forall>t < length df. pristine_row plen i (df ! t) \<longrightarrow>
                 (\<exists>R. has_row plen i R (df1 ! t) \<and> R = broadcast (length R) (T ! t))"
    by blast
  from row t p obtain R0 where R0: "has_row plen i R0 (df1 ! t)"
    and R0eq: "R0 = broadcast (length R0) (T ! t)" by blast
  from finish_parameter_nth [OF fp] l1 have l2: "length df2 = length df" by simp
  from finish_parameter_nth [OF fp] t l1
  have "finish_tracer 1 f i [h] t (df1 ! t) = Inr (df2 ! t)" by simp
  note fin = finish_tracer_order_1 [OF this R0]
  let ?R = "map (\<lambda>x. x / h) (map2 (-) R0 (broadcast (length R0) (f ! t)))"
  have lb: "length (broadcast n b) = n \<or> n = length b" for n and b :: array
    by (auto simp: broadcast_def)
  have lf: "length (broadcast (length R0) (f ! t)) = length R0"
    by (auto simp: broadcast_def)
  have lR: "length ?R = length R0" by (simp add: lf)
  have "?R = map (\<lambda>x. x / h)
               (map2 (-) (broadcast (length ?R) (T ! t)) (broadcast (length ?R) (f ! t)))"
    unfolding lR using R0eq by simp
  with rd g fin l2 show ?thesis by blast
qed

lemma block_order_2:
  assumes a: "add_trajectories m load plen i 0 [(pfd0, h0, rd_opt0), (pfd1, h1, rd_opt1)] df s
                = (Inr df1, s1)"
    and fp: "finish_parameter accuracy_order f i [h0, h1] df1 = Inr df2"
    and o: "accuracy_order \<noteq> 1"
    and len: "length df = METOS_TRACER_DIM m" and i: "i < plen"
    and t: "t < length df" and p: "pristine_row plen i (df ! t)"
  shows "\<exists>rd0 rd1 T0 T1 sa R. rd_opt0 = Some rd0 \<and> rd_opt1 = Some rd1
           \<and> p_get_trajectory m load (Some rd0) (butlast pfd0)
                 (wait_until_run_job_finished (Run_Path rd0) s) = (Inr T0, sa)
           \<and> p_get_trajectory m load (Some rd1) (butlast pfd1)
                 (wait_until_run_job_finished (Run_Path rd1) sa) = (Inr T1, s1)
           \<and> length df2 = length df
           \<and> has_row plen i R (df2 ! t)
           \<and> R = map (\<lambda>x. x / (\<bar>h0\<bar> + \<bar>h1\<bar>))
                   (map2 (-) (broadcast (length R) (T0 ! t)) (broadcast (length R) (T1 ! t)))"
proof -
  from add_trajectories_two [OF a len i]
  obtain rd0 rd1 T0 T1 sa where rd: "rd_opt0 = Some rd0" "rd_opt1 = Some rd1"
    and g0: "p_get_trajectory m load (Some rd0) (butlast pfd0)
               (wait_until_run_job_finished (Run_Path rd0) s) = (Inr T0, sa)"
    and g1: "p_get_trajectory m load (Some rd1) (butlast pfd1)
               (wait_until_run_job_finished (Run_Path rd1) sa) = (Inr T1, s1)"
    and l1: "length df1 = length df"
    and row: "\<forall>t < length df. pristine_row plen i (df ! t) \<longrightarrow>
                 (\<exists>R. has_row plen i (map2 (-) R (broadcast (length R) (T1 ! t))) (df1 ! t)
                      \<and> R = broadcast (length R) (T0 ! t))"
    by blast
  from row t p obtain R0 where
    R0: "has_row plen i (map2 (-) R0 (broadcast (length R0) (T1 ! t))) (df1 ! t)"
    and R0eq: "R0 = broadcast (length R0) (T0 ! t)" by blast
  from finish_parameter_nth [OF fp] l1 have l2: "length df2 = length df" by simp
  from finish_parameter_nth [OF fp] t l1
  have "finish_tracer accuracy_order f i [h0, h1] t (df1 ! t) = Inr (df2 ! t)" by simp
  note fin = finish_tracer_order_2 [OF this R0 o]
  let ?R = "map (\<lambda>x. x / sum_list (map abs [h0, h1]))
              (map2 (-) R0 (broadcast (length R0) (T1 ! t)))"
  have lf: "length (broadcast (length R0) (T1 ! t)) = length R0"
    by (auto simp: broadcast_def)
  have lR: "length ?R = length R0" by (simp add: lf)
  have "?R = map (\<lambda>x. x / (\<bar>h0\<bar> + \<bar>h1\<bar>))
               (map2 (-) (broadcast (length ?R) (T0 ! t)) (broadcast (length ?R) (T1 ! t)))"
    unfolding lR using R0eq by simp
  with rd g0 g1 fin l2 show ?thesis by blast
qed

lemma is_run_matching_options_None:
  "is_run_matching_options M s None opts = (Inr False, s)"
  by (simp add: is_run_matching_options_def)

lemma partial_derivative_run_Inr:
  assumes run: "partial_derivative_run m loc i pfd h s = (Inr rd, s')"
    and q1: "\<And>k. Q (Remove_Contents (Partial_Derivative_Dir (parameter_set_index loc)
                       (derivative_step_size m) i (sign_int h), k))"
    and q2: "\<And>k. Q (Make_Run_Dir (Partial_Derivative_Dir (parameter_set_index loc)
                       (derivative_step_size m) i (sign_int h), k))"
    and q3: "\<And>k. Q (Start_Job (Partial_Derivative_Dir (parameter_set_index loc)
                       (derivative_step_size m) i (sign_int h), k))"
  shows "(\<exists>k. rd = Some (Partial_Derivative_Dir (parameter_set_index loc)
                       (derivative_step_size m) i (sign_int h), k))
         \<and> appends Q s s' \<and> parameter_db s' = parameter_db s"
proof -
  let ?D = "Partial_Derivative_Dir (parameter_set_index loc) (derivative_step_size m) i
              (sign_int h)"
  let ?lr = "last_run_dir s ?D"
  let ?sp = "case ?lr of None \<Rightarrow> None
             | Some rd \<Rightarrow> (case load_job s rd of Inl e \<Rightarrow> None
                            | Inr j \<Rightarrow> job_tracer_input_dir (options j))"
  let ?o1 = "\<lparr>years = derivative_years m, tolerance = 0, combination = ''or''\<rparr>"
  obtain x1 s1 where m1: "is_run_matching_options (MODEL_SPINUP_MAX_YEARS m) s ?lr ?o1 = (x1, s1)"
    by (cases "is_run_matching_options (MODEL_SPINUP_MAX_YEARS m) s ?lr ?o1") auto
  note f1 = is_run_matching_options_frame [OF m1]
  from run m1 obtain run_matching where x1: "x1 = Inr run_matching"
    by (cases x1) (auto simp: partial_derivative_run_def  Let_def)
  obtain x2 s2 where m2:
    "(if \<not> run_matching then (Inr True, s1)
      else (case is_run_matching_options (MODEL_SPINUP_MAX_YEARS m) s1 ?sp
                   (spinup_options_derivative_base loc) of
              (Inl e, s2) \<Rightarrow> (Inl e, s2)
            | (Inr spinup_matching, s2) \<Rightarrow> (Inr (\<not> spinup_matching), s2))) = (x2, s2)"
    by (cases "(if \<not> run_matching then (Inr True, s1)
      else (case is_run_matching_options (MODEL_SPINUP_MAX_YEARS m) s1 ?sp
                   (spinup_options_derivative_base loc) of
              (Inl e, s2) \<Rightarrow> (Inl e, s2)
            | (Inr spinup_matching, s2) \<Rightarrow> (Inr (\<not> spinup_matching), s2)))") auto
  have f2: "events s2 = events s1 \<and> run_dirs_in s2 = run_dirs_in s1
            \<and> parameter_db s2 = parameter_db s1"
  proof (cases run_matching)
    case False
    with m2 show ?thesis by simp
  next
    case True
    obtain y t where m3: "is_run_matching_options (MODEL_SPINUP_MAX_YEARS m) s1 ?sp
                   (spinup_options_derivative_base loc) = (y, t)"
      by (cases "is_run_matching_options (MODEL_SPINUP_MAX_YEARS m) s1 ?sp
                   (spinup_options_derivative_base loc)") auto
    from m2 True m3 have "s2 = t" by (cases y) auto
    with is_run_matching_options_frame [OF m3] show ?thesis by simp
  qed
  from run m1 x1 m2 obtain make_new where x2: "x2 = Inr make_new"
    by (cases x2) (auto simp: partial_derivative_run_def  Let_def)
  have unf: "partial_derivative_run m loc i pfd h s =
     (if make_new then
        (let s3 = (case ?lr of None \<Rightarrow> s2 | Some rd \<Rightarrow> remove_contents rd s2);
             (rd, s4) = make_new_run_dir s3 ?D
         in case database_parameter_entry_to_metos3d_model_parameters_dict pfd of
              Inl e \<Rightarrow> (Inl e, s4)
            | Inr (model_parameters, total_concentration_factor) \<Rightarrow>
                (Inr (Some rd),
                 start_run m model_parameters (Run_Path rd) (derivative_years m) 0
                   Derivative False total_concentration_factor
                   (spinup_matching_run_dir loc) False s4))
      else (Inr ?lr, s2))"
    using m1 x1 m2 x2
    by (simp add: partial_derivative_run_def Let_def)
  show ?thesis
  proof (cases make_new)
    case False
    with unf run have rd: "rd = ?lr" and s': "s' = s2" by simp_all
    from False m2 x2 have rm: "run_matching" by (auto split: if_splits)
    have "?lr \<noteq> None"
    proof
      assume "?lr = None"
      with m1 x1 rm show False by (simp add: is_run_matching_options_None)
    qed
    then obtain r where r: "?lr = Some r" by auto
    from last_run_dir_Some [OF r] have "fst r = ?D" by simp
    then have "\<exists>k. ?lr = Some (?D, k)" using r by (cases r) auto
    moreover have "appends Q s s'" using f1 f2 s' by (simp add: appends_same)
    moreover have "parameter_db s' = parameter_db s" using f1 f2 s' by simp
    ultimately show ?thesis using rd by simp
  next
    case True
    let ?s3 = "case ?lr of None \<Rightarrow> s2 | Some rd \<Rightarrow> remove_contents rd s2"
    let ?n = "length (run_dirs_in ?s3 ?D)"
    let ?s4 = "snd (make_new_run_dir ?s3 ?D)"
    have mk: "fst (make_new_run_dir ?s3 ?D) = (?D, ?n)"
      by (simp add: make_new_run_dir_def Let_def run_dirs_def)
    from unf run True obtain mp tcf where
      rd0: "rd = Some (fst (make_new_run_dir ?s3 ?D))"
      and s0: "s' = start_run m mp (Run_Path (fst (make_new_run_dir ?s3 ?D)))
                   (derivative_years m) 0
                   Derivative False tcf (spinup_matching_run_dir loc) False ?s4"
      by (cases "database_parameter_entry_to_metos3d_model_parameters_dict pfd")
         (auto simp: Let_def case_prod_beta)
    have rd: "rd = Some (?D, ?n)" using rd0 mk by simp
    have s': "s' = start_run m mp (Run_Path (?D, ?n)) (derivative_years m) 0
                   Derivative False tcf (spinup_matching_run_dir loc) False ?s4"
      using s0 mk by simp
    have e3: "events ?s3 = events s @ (case ?lr of None \<Rightarrow> [] | Some r \<Rightarrow> [Remove_Contents r])"
      using f1 f2 by (simp add: remove_contents_def split: option.splits)
    have e4: "events ?s4 = events ?s3 @ [Make_Run_Dir (?D, ?n)]"
      by (simp add: make_new_run_dir_def Let_def run_dirs_def)
    have e5: "events s' = events ?s4 @ [Start_Job (?D, ?n)]"
      by (simp add: s' start_run_def Let_def case_prod_beta)
    have lrD: "\<And>r. ?lr = Some r \<Longrightarrow> \<exists>k. r = (?D, k)"
    proof -
      fix r assume "?lr = Some r"
      from last_run_dir_Some [OF this] show "\<exists>k. r = (?D, k)" by (cases r) auto
    qed
    have all: "list_all Q ((case ?lr of None \<Rightarrow> [] | Some r \<Rightarrow> [Remove_Contents r])
                 @ [Make_Run_Dir (?D, ?n), Start_Job (?D, ?n)])"
      using lrD q1 q2 q3 by (cases ?lr) auto
    have "appends Q s s'"
      by (rule appendsI [OF _ all]) (simp add: e5 e4 e3)
    moreover have "parameter_db s' = parameter_db s"
      using f1 f2
      by (simp add: s' start_run_def Let_def case_prod_beta make_new_run_dir_def
            remove_contents_def split: option.splits)
    ultimately show ?thesis using rd by simp
  qed
qed

lemma start_h_factor_runs_frame:
  assumes "start_h_factor_runs m loc i h_i factors s = (Inr runs, s')"
    and q: "\<And>sg k. Q (Remove_Contents (Partial_Derivative_Dir (parameter_set_index loc)
                       (derivative_step_size m) i sg, k))
                \<and> Q (Make_Run_Dir (Partial_Derivative_Dir (parameter_set_index loc)
                       (derivative_step_size m) i sg, k))
                \<and> Q (Start_Job (Partial_Derivative_Dir (parameter_set_index loc)
                       (derivative_step_size m) i sg, k))"
  shows "appends Q s s' \<and> parameter_db s' = parameter_db s
         \<and> list_all (in_parameter_dir m loc i) runs"
  using assms(1)
proof (induction factors arbitrary: s runs)
  case Nil
  then show ?case by (simp add: appends_same)
next
  case (Cons hf rest)
  let ?r = "perturbation (derivative_accuracy_order m) (database_entry loc ! i)
              (parameters_now loc ! i) (parameters_lower_bound_ext m ! i)
              (parameters_upper_bound_ext m ! i) (hf * h_i)"
  obtain x s1 where run: "partial_derivative_run m loc i
      ((database_entry loc)[i := fst ?r]) (snd ?r) s = (x, s1)"
    by (cases "partial_derivative_run m loc i
      ((database_entry loc)[i := fst ?r]) (snd ?r) s") auto
  obtain y s2 where rest: "start_h_factor_runs m loc i h_i rest s1 = (y, s2)"
    by (cases "start_h_factor_runs m loc i h_i rest s1") auto
  from Cons.prems run rest obtain rd others where x: "x = Inr rd" and y: "y = Inr others"
    and runs: "runs = ((database_entry loc)[i := fst ?r], snd ?r, rd) # others"
    and s2: "s2 = s'"
    by (cases x; cases y) (auto simp: Let_def case_prod_beta)
  have p: "(\<exists>k. rd = Some (Partial_Derivative_Dir (parameter_set_index loc)
                       (derivative_step_size m) i (sign_int (snd ?r)), k))
           \<and> appends Q s s1 \<and> parameter_db s1 = parameter_db s"
    by (rule partial_derivative_run_Inr [OF run [unfolded x]]) (use q in blast)+
  note ih = Cons.IH [OF rest [unfolded y s2]]
  from p have "in_parameter_dir m loc i ((database_entry loc)[i := fst ?r], snd ?r, rd)"
    by (auto simp: in_parameter_dir_def)
  with p ih runs show ?case by (auto intro: appends_trans)
qed

lemma start_partial_derivative_runs_Inr:
  assumes "start_partial_derivative_runs m loc idxs s = (Inr table, s')"
    and q: "\<And>i sg k. i \<in> set idxs \<Longrightarrow> partial_derivatives_mask loc ! i \<Longrightarrow>
                  Q (Remove_Contents (Partial_Derivative_Dir (parameter_set_index loc)
                       (derivative_step_size m) i sg, k))
                \<and> Q (Make_Run_Dir (Partial_Derivative_Dir (parameter_set_index loc)
                       (derivative_step_size m) i sg, k))
                \<and> Q (Start_Job (Partial_Derivative_Dir (parameter_set_index loc)
                       (derivative_step_size m) i sg, k))"
  shows "length table = length idxs
         \<and> appends Q s s' \<and> parameter_db s' = parameter_db s
         \<and> (\<forall>n < length idxs.
               idxs ! n < length (partial_derivatives_mask loc)
               \<and> (\<not> partial_derivatives_mask loc ! (idxs ! n) \<longrightarrow> table ! n = [])
               \<and> (partial_derivatives_mask loc ! (idxs ! n) \<longrightarrow>
                    idxs ! n < length (database_entry loc)
                    \<and> list_all (in_parameter_dir m loc (idxs ! n)) (table ! n)
                    \<and> (\<exists>sa sb. start_h_factor_runs m loc (idxs ! n)
                                  (parameters_typical_values_ext m ! (idxs ! n)
                                     * derivative_step_size m)
                                  (h_factors loc) sa = (Inr (table ! n), sb))))"
  using assms
proof (induction idxs arbitrary: s table)
  case Nil
  then show ?case by (simp add: appends_same)
next
  case (Cons i rest)
  from Cons.prems(1) have il: "i < length (partial_derivatives_mask loc)"
    by (auto split: if_splits)
  have qrest: "\<And>j sg k. j \<in> set rest \<Longrightarrow> partial_derivatives_mask loc ! j \<Longrightarrow>
                  Q (Remove_Contents (Partial_Derivative_Dir (parameter_set_index loc)
                       (derivative_step_size m) j sg, k))
                \<and> Q (Make_Run_Dir (Partial_Derivative_Dir (parameter_set_index loc)
                       (derivative_step_size m) j sg, k))
                \<and> Q (Start_Job (Partial_Derivative_Dir (parameter_set_index loc)
                       (derivative_step_size m) j sg, k))"
    using Cons.prems(2) by simp
  show ?case
  proof (cases "partial_derivatives_mask loc ! i")
    case False
    obtain y s2 where r: "start_partial_derivative_runs m loc rest s = (y, s2)"
      by (cases "start_partial_derivative_runs m loc rest s") auto
    from Cons.prems(1) il False r obtain others where y: "y = Inr others"
      and tb: "table = [] # others" and s2: "s2 = s'"
      by (cases y) auto
    note ih = Cons.IH [OF r [unfolded y s2] qrest]
    from ih tb il False show ?thesis
      by (auto simp: nth_Cons split: nat.splits)
  next
    case True
    from Cons.prems(1) il True have ie: "i < length (database_entry loc)"
      by (auto split: if_splits)
    let ?h_i = "parameters_typical_values_ext m ! i * derivative_step_size m"
    obtain x s1 where h: "start_h_factor_runs m loc i ?h_i (h_factors loc) s = (x, s1)"
      by (cases "start_h_factor_runs m loc i ?h_i (h_factors loc) s") auto
    obtain y s2 where r: "start_partial_derivative_runs m loc rest s1 = (y, s2)"
      by (cases "start_partial_derivative_runs m loc rest s1") auto
    from Cons.prems(1) il True h r obtain runs others where x: "x = Inr runs"
      and y: "y = Inr others" and tb: "table = runs # others" and s2: "s2 = s'"
      by (cases x; cases y) (auto simp: Let_def split: if_splits)
    have p: "appends Q s s1 \<and> parameter_db s1 = parameter_db s
             \<and> list_all (in_parameter_dir m loc i) runs"
      by (rule start_h_factor_runs_frame [OF h [unfolded x]])
         (use Cons.prems(2) [of i] True in simp)
    note ih = Cons.IH [OF r [unfolded y s2] qrest]
    have here: "\<exists>sa sb. start_h_factor_runs m loc i ?h_i (h_factors loc) sa = (Inr runs, sb)"
      using h x by blast
    from ih p have "appends Q s s'" by (auto intro: appends_trans)
    with ih p tb il True ie here show ?thesis
      by (auto simp: nth_Cons split: nat.splits)
  qed
qed

lemma parameter_set_dir_appends:
  "parameter_set_dir m s parameters create = (x, s') \<Longrightarrow>
     appends (\<lambda>e. \<not> perturbation_event e) s s' \<and> run_dirs_in s' = run_dirs_in s"
  by (auto simp: parameter_set_dir_def add_value_def Let_def appends_def
                 perturbation_event_def
           split: sum.splits option.splits if_splits)

lemma spinup_dir_appends:
  "spinup_dir m s p create = (x, s') \<Longrightarrow> appends (\<lambda>e. \<not> perturbation_event e) s s'"
  by (cases p)
     (auto simp: spinup_dir_def appends_same dest: parameter_set_dir_appends
           split: prod.splits sum.splits option.splits)

lemma matching_run_dir_spinup_dir:
  assumes "matching_run_dir m s p opts c = (Inr r, s')"
  shows "\<exists>i s0. spinup_dir m s p True = (Inr i, s0)"
proof -
  obtain x s0 where sp: "spinup_dir m s p True = (x, s0)"
    by (cases "spinup_dir m s p True") auto
  from assms sp show ?thesis
    by (cases x) (auto simp: matching_run_dir.simps [of m s p opts c])
qed

lemma matching_run_dir_appends_or:
  assumes res: "matching_run_dir m s p opts c = (Inr r, s')"
    and comb: "combination opts \<noteq> ''and''"
  shows "appends (\<lambda>e. \<not> perturbation_event e) s s'"
proof -
  from matching_run_dir_spinup_dir [OF res]
  obtain i s0 where sp: "spinup_dir m s p True = (Inr i, s0)" by blast
  note a0 = spinup_dir_appends [OF sp]
  obtain b s1 where irm: "is_run_matching_options (MODEL_SPINUP_MAX_YEARS m) s0
      (last_run_dir s0 (Spinup_Dir i)) opts = (b, s1)"
    by (cases "is_run_matching_options (MODEL_SPINUP_MAX_YEARS m) s0
      (last_run_dir s0 (Spinup_Dir i)) opts") auto
  note fr = is_run_matching_options_frame [OF irm]
  show ?thesis
  proof (cases b)
    case (Inl e)
    with irm have "is_run_matching_options (MODEL_SPINUP_MAX_YEARS m) s0
      (last_run_dir s0 (Spinup_Dir i)) opts = (Inl e, s1)" by simp
    from matching_run_dir_match_error [OF sp this] res show ?thesis by simp
  next
    case (Inr t)
    show ?thesis
    proof (cases t)
      case True
      with irm Inr have "is_run_matching_options (MODEL_SPINUP_MAX_YEARS m) s0
        (last_run_dir s0 (Spinup_Dir i)) opts = (Inr True, s1)" by simp
      from matching_run_dir_matched [OF sp this] res have "s' = s1" by simp
      with fr have "appends (\<lambda>e. \<not> perturbation_event e) s0 s'"
        by (simp add: appends_same)
      with a0 show ?thesis by (rule appends_trans)
    next
      case False
      with irm Inr have nm: "is_run_matching_options (MODEL_SPINUP_MAX_YEARS m) s0
          (last_run_dir s0 (Spinup_Dir i)) opts = (Inr False, s1)" by simp
      from matching_run_dir_not_matched_Inr [OF sp nm res] comb
      have or: "combination opts = ''or''" by blast
      from matching_run_dir_or_created [OF sp nm or res]
      have ev: "events s' = events s0
              @ (case last_run_dir s0 (Spinup_Dir i) of None \<Rightarrow> [] | Some l \<Rightarrow> [Wait_Job l])
              @ [Make_Run_Dir (Spinup_Dir i, length (run_dirs_in s0 (Spinup_Dir i))),
                 Start_Job (Spinup_Dir i, length (run_dirs_in s0 (Spinup_Dir i))),
                 Wait_Job (Spinup_Dir i, length (run_dirs_in s0 (Spinup_Dir i)))]"
        by blast
      have "list_all (\<lambda>e. \<not> perturbation_event e)
              ((case last_run_dir s0 (Spinup_Dir i) of None \<Rightarrow> [] | Some l \<Rightarrow> [Wait_Job l])
              @ [Make_Run_Dir (Spinup_Dir i, length (run_dirs_in s0 (Spinup_Dir i))),
                 Start_Job (Spinup_Dir i, length (run_dirs_in s0 (Spinup_Dir i))),
                 Wait_Job (Spinup_Dir i, length (run_dirs_in s0 (Spinup_Dir i)))])"
        using last_run_dir_Some [of s0 "Spinup_Dir i"]
        by (cases "last_run_dir s0 (Spinup_Dir i)") (auto simp: perturbation_event_def)
      from appendsI [OF ev this] a0 show ?thesis by (blast intro: appends_trans)
    qed
  qed
qed

lemma matching_run_dir_appends:
  assumes res: "matching_run_dir m s p opts c = (Inr r, s')"
  shows "appends (\<lambda>e. \<not> perturbation_event e) s s'"
proof (cases "combination opts = ''and''")
  case False
  from matching_run_dir_appends_or [OF res False] show ?thesis .
next
  case True
  from matching_run_dir_spinup_dir [OF res]
  obtain i s0 where sp: "spinup_dir m s p True = (Inr i, s0)" by blast
  note a0 = spinup_dir_appends [OF sp]
  obtain b s1 where irm: "is_run_matching_options (MODEL_SPINUP_MAX_YEARS m) s0
      (last_run_dir s0 (Spinup_Dir i)) opts = (b, s1)"
    by (cases "is_run_matching_options (MODEL_SPINUP_MAX_YEARS m) s0
      (last_run_dir s0 (Spinup_Dir i)) opts") auto
  note fr = is_run_matching_options_frame [OF irm]
  show ?thesis
  proof (cases b)
    case (Inl e)
    with irm have "is_run_matching_options (MODEL_SPINUP_MAX_YEARS m) s0
      (last_run_dir s0 (Spinup_Dir i)) opts = (Inl e, s1)" by simp
    from matching_run_dir_match_error [OF sp this] res show ?thesis by simp
  next
    case (Inr t)
    show ?thesis
    proof (cases t)
      case True
      with irm Inr have "is_run_matching_options (MODEL_SPINUP_MAX_YEARS m) s0
        (last_run_dir s0 (Spinup_Dir i)) opts = (Inr True, s1)" by simp
      from matching_run_dir_matched [OF sp this] res have "s' = s1" by simp
      with fr have "appends (\<lambda>e. \<not> perturbation_event e) s0 s'"
        by (simp add: appends_same)
      with a0 show ?thesis by (rule appends_trans)
    next
      case False
      with irm Inr have nm: "is_run_matching_options (MODEL_SPINUP_MAX_YEARS m) s0
          (last_run_dir s0 (Spinup_Dir i)) opts = (Inr False, s1)" by simp
      from matching_run_dir_not_matched_Inr [OF sp nm res]
      obtain parameters where lp: "load_parameters s1 i = Inr parameters"
        and seed: "seed_last_run m s1 (last_run_dir s0 (Spinup_Dir i)) parameters c
               = Inr (last_run_dir s0 (Spinup_Dir i))" by auto
      define s2 where "s2 = (case last_run_dir s0 (Spinup_Dir i) of None \<Rightarrow> s1
                | Some rd \<Rightarrow> wait_until_run_job_finished (Run_Path rd) s1)"
      have e2: "events s2 = events s0
          @ (case last_run_dir s0 (Spinup_Dir i) of None \<Rightarrow> [] | Some l \<Rightarrow> [Wait_Job l])"
        using fr by (simp add: s2_def wait_until_run_job_finished_def split: option.splits)
      have "list_all (\<lambda>e. \<not> perturbation_event e)
              (case last_run_dir s0 (Spinup_Dir i) of None \<Rightarrow> [] | Some l \<Rightarrow> [Wait_Job l])"
        using last_run_dir_Some [of s0 "Spinup_Dir i"]
        by (cases "last_run_dir s0 (Spinup_Dir i)") (auto simp: perturbation_event_def)
      with e2 have a2: "appends (\<lambda>e. \<not> perturbation_event e) s0 s2"
        by (intro appendsI) simp_all
      obtain x s3 where sub1: "matching_run_dir m s2 (Parameter_Set_Dir i)
                \<lparr>years = years opts, tolerance = 0, combination = ''or''\<rparr> c = (x, s3)"
        by (cases "matching_run_dir m s2 (Parameter_Set_Dir i)
                \<lparr>years = years opts, tolerance = 0, combination = ''or''\<rparr> c") auto
      have eq: "matching_run_dir m s p opts c =
         (case x of Inl e \<Rightarrow> (Inl e, s3)
          | Inr r1 \<Rightarrow> matching_run_dir m s3 (Parameter_Set_Dir i)
               \<lparr>years = MODEL_SPINUP_MAX_YEARS m, tolerance = tolerance opts,
                combination = ''or''\<rparr> c)"
        unfolding matching_run_dir_and_unfold [OF sp nm True lp seed]
        by (simp add: Let_def s2_def [symmetric] sub1 split: sum.splits)
      from eq res obtain r1 where x: "x = Inr r1"
        and sub2: "matching_run_dir m s3 (Parameter_Set_Dir i)
               \<lparr>years = MODEL_SPINUP_MAX_YEARS m, tolerance = tolerance opts,
                combination = ''or''\<rparr> c = (Inr r, s')"
        by (cases x) auto
      have a3: "appends (\<lambda>e. \<not> perturbation_event e) s2 s3"
        by (rule matching_run_dir_appends_or [OF sub1 [unfolded x]]) simp
      have a4: "appends (\<lambda>e. \<not> perturbation_event e) s3 s'"
        by (rule matching_run_dir_appends_or [OF sub2]) simp
      from a0 a2 a3 a4 show ?thesis by (blast intro: appends_trans)
    qed
  qed
qed

lemma p_get_trajectory_appends:
  assumes "p_get_trajectory m load rd mp s = (Inr T, s')"
  shows "appends (\<lambda>e. \<not> perturbation_event e) s s'"
  using p_get_trajectory_Inr [OF assms]
  by (intro appendsI [of _ _ "[Start_Trajectory_Job rd, Wait_Trajectory_Job rd]"])
     (simp_all add: perturbation_event_def)

lemma p_f_Inr:
  assumes "p_f m load parameters opts s = (Inr f, s')"
  shows "appends (\<lambda>e. \<not> perturbation_event e) s s' \<and> length f = METOS_TRACER_DIM m"
proof -
  obtain x s1 where mr: "matching_run_dir m s (Parameters parameters) opts
             (MODEL_START_FROM_CLOSEST_PARAMETER_SET m) = (x, s1)"
    by (cases "matching_run_dir m s (Parameters parameters) opts
             (MODEL_START_FROM_CLOSEST_PARAMETER_SET m)") auto
  from assms mr obtain r where x: "x = Inr r"
    by (cases x) (auto simp: p_f_def)
  from assms mr x obtain mp tcf where
    "metos3d_model_parameters_dict m parameters = Inr (mp, tcf)"
    and g: "p_get_trajectory m load r mp s1 = (Inr f, s')"
    by (cases "metos3d_model_parameters_dict m parameters") (auto simp: p_f_def)
  from matching_run_dir_appends [OF mr [unfolded x]] p_get_trajectory_appends [OF g]
    p_get_trajectory_Inr [OF g]
  show ?thesis by (blast intro: appends_trans)
qed

lemma base_run_and_f_Inr:
  assumes "base_run_and_f m load parameters sm smy s = (Inr (base_dir, f), s')"
  shows "appends (\<lambda>e. \<not> perturbation_event e) s s'
         \<and> (derivative_accuracy_order m = 1 \<longrightarrow>
              length f = METOS_TRACER_DIM m
              \<and> (\<exists>base_years. p_f m load parameters
                     \<lparr>years = base_years + derivative_years m, tolerance = 0,
                      combination = ''or''\<rparr> s = (Inr f, s')))"
proof (cases "derivative_accuracy_order m = 1")
  case False
  with assms show ?thesis by (simp add: base_run_and_f_def appends_same)
next
  case True
  from assms True obtain rd where sm: "sm = Some rd"
    by (cases sm) (auto simp: base_run_and_f_def)
  from assms True sm obtain py where
    py: "get_total_years s (previous_run_dir rd) = Inr py"
    by (cases "get_total_years s (previous_run_dir rd)") (auto simp: base_run_and_f_def Let_def)
  define by' where "by' = (if py = smy - derivative_years m then py else smy)"
  obtain x s1 where pf: "p_f m load parameters
        \<lparr>years = by' + derivative_years m, tolerance = 0, combination = ''or''\<rparr> s = (x, s1)"
    by (cases "p_f m load parameters
        \<lparr>years = by' + derivative_years m, tolerance = 0, combination = ''or''\<rparr> s") auto
  from assms True sm py pf have "x = Inr f \<and> s1 = s'"
    by (cases x) (auto simp: base_run_and_f_def Let_def by'_def split: if_splits)
  with pf have pf': "p_f m load parameters
        \<lparr>years = by' + derivative_years m, tolerance = 0, combination = ''or''\<rparr> s = (Inr f, s')"
    by simp
  from p_f_Inr [OF pf'] pf' True show ?thesis by blast
qed

lemma apply_mask_nth:
  assumes "apply_mask msk dfa = Inr df"
  shows "length df = length dfa
         \<and> (\<forall>t < length dfa. \<exists>rows. dfa ! t = Some rows \<and> length rows = length msk
                \<and> df ! t = map fst (filter snd (zip rows msk)))"
proof -
  note n = map_result_Inr [OF assms [unfolded apply_mask_def]]
  show ?thesis
  proof (intro conjI allI impI)
    from n show "length df = length dfa" by simp
  next
    fix t assume t: "t < length dfa"
    with n have e: "(case dfa ! t of None \<Rightarrow> Inl TypeError
             | Some rows \<Rightarrow>
                 if length msk \<noteq> length rows then Inl IndexError
                 else (let selected = map fst (filter snd (zip rows msk))
                       in if length selected \<noteq> length (filter id msk) then Inl AssertionError
                          else Inr selected)) = Inr (df ! t)" by blast
    then obtain rows where r: "dfa ! t = Some rows" by (cases "dfa ! t") auto
    from e r show "\<exists>rows. dfa ! t = Some rows \<and> length rows = length msk
                \<and> df ! t = map fst (filter snd (zip rows msk))"
      by (auto simp: Let_def split: if_splits)
  qed
qed

lemma zip_upt_split:
  assumes "length table = n" and "i < n"
  shows "zip [0..<n] table
         = zip [0..<i] (take i table) @ (i, table ! i) # zip [Suc i..<n] (drop (Suc i) table)"
proof -
  have u: "[0..<n] = [0..<i] @ i # [Suc i..<n]"
  proof -
    from assms(2) obtain k where n: "n = i + k" and k: "0 < k"
      by (metis less_imp_add_positive)
    have "[0..<i + k] = [0..<i] @ [i..<i + k]" by (rule upt_add_eq_append) simp
    also have "[i..<i + k] = i # [Suc i..<i + k]" using k by (simp add: upt_conv_Cons)
    finally show ?thesis by (simp add: n)
  qed
  have tb: "table = take i table @ table ! i # drop (Suc i) table"
    using assms by (simp add: id_take_nth_drop)
  have "zip [0..<n] table
        = zip ([0..<i] @ i # [Suc i..<n]) (take i table @ table ! i # drop (Suc i) table)"
    using u tb by simp
  also have "\<dots> = zip [0..<i] (take i table) @ zip (i # [Suc i..<n]) (table ! i # drop (Suc i) table)"
    using assms by (intro zip_append) simp
  finally show ?thesis by simp
qed


lemma p_df_Inr:
  assumes "p_df m load parameters opts mask_opt s = (Inr df, s')"
  shows "\<exists>msk factors loc f entry0 s3 s4 table dfa.
           prepare_mask m parameters mask_opt = Inr msk
         \<and> choose_h_factors (derivative_accuracy_order m) = Inr factors
         \<and> database_parameter_entry m parameters = Inr entry0
         \<and> database_entry loc = entry0[length entry0 - 1 := 1]
         \<and> parameters_now loc = (if total_concentration_factor_included_in_parameters m
                                  then entry0[length entry0 - 1 := 1] else parameters)
         \<and> partial_derivatives_mask loc = msk
         \<and> h_factors loc = factors
         \<and> appends (\<lambda>e. \<not> perturbation_event e) s s3
         \<and> (derivative_accuracy_order m = 1 \<longrightarrow>
              length f = METOS_TRACER_DIM m
              \<and> (\<exists>base_years sa. appends (\<lambda>e. \<not> perturbation_event e) s sa
                     \<and> p_f m load parameters
                          \<lparr>years = base_years + derivative_years m, tolerance = 0,
                           combination = ''or''\<rparr> sa = (Inr f, s3)))
         \<and> start_partial_derivative_runs m loc [0..<length entry0] s3 = (Inr table, s4)
         \<and> calculate_df m load f (length entry0) msk (zip [0..<length entry0] table)
              (replicate (METOS_TRACER_DIM m) None) s4 = (Inr dfa, s')
         \<and> apply_mask msk dfa = Inr df"
proof -
  note d = assms [unfolded p_df_def]
  from d obtain msk where msk: "prepare_mask m parameters mask_opt = Inr msk"
    by (cases "prepare_mask m parameters mask_opt") auto
  from d msk obtain factors where
    fa: "choose_h_factors (derivative_accuracy_order m) = Inr factors"
    by (cases "choose_h_factors (derivative_accuracy_order m)") auto
  obtain x1 s1 where psd: "parameter_set_dir m s parameters True = (x1, s1)"
    by (cases "parameter_set_dir m s parameters True") auto
  from d msk fa psd obtain index where x1: "x1 = Inr (Some index)"
    by (cases x1) (auto split: option.splits)
  let ?base = "\<lparr>years = years opts - derivative_years m, tolerance = tolerance opts,
                  combination = combination opts\<rparr>"
  obtain x2 s2 where mr: "matching_run_dir m s1 (Parameter_Set_Dir index) ?base
             (MODEL_START_FROM_CLOSEST_PARAMETER_SET m) = (x2, s2)"
    by (cases "matching_run_dir m s1 (Parameter_Set_Dir index) ?base
             (MODEL_START_FROM_CLOSEST_PARAMETER_SET m)") auto
  from d msk fa psd x1 mr obtain sm where x2: "x2 = Inr sm"
    by (cases x2) (auto simp: Let_def)
  from d msk fa psd x1 mr x2 obtain smy where gty: "get_total_years s2 sm = Inr smy"
    by (cases "get_total_years s2 sm") (auto simp: Let_def)
  obtain x3 s3 where br: "base_run_and_f m load parameters sm smy s2 = (x3, s3)"
    by (cases "base_run_and_f m load parameters sm smy s2") auto
  from d msk fa psd x1 mr x2 gty br obtain base_dir f where x3: "x3 = Inr (base_dir, f)"
    by (cases x3) (auto simp: Let_def)
  from d msk fa psd x1 mr x2 gty br x3 obtain entry0 where
    dpe: "database_parameter_entry m parameters = Inr entry0"
    by (cases "database_parameter_entry m parameters") (auto simp: Let_def)
  from d msk fa psd x1 mr x2 gty br x3 dpe have ne: "entry0 \<noteq> []"
    by (auto simp: Let_def split: if_splits)
  define loc where "loc = \<lparr>parameter_set_index = index,
                 spinup_options_derivative_base = ?base,
                 spinup_matching_run_dir = base_dir,
                 database_entry = entry0[length entry0 - 1 := 1],
                 parameters_now =
                   (if total_concentration_factor_included_in_parameters m
                    then entry0[length entry0 - 1 := 1] else parameters),
                 partial_derivatives_mask = msk,
                 h_factors = factors\<rparr>"
  obtain x4 s4 where st: "start_partial_derivative_runs m loc [0..<length entry0] s3 = (x4, s4)"
    by (cases "start_partial_derivative_runs m loc [0..<length entry0] s3") auto
  note d' = d [unfolded msk fa psd x1 mr x2 gty br x3 dpe Let_def sum.case prod.case
                 option.case if_not_P [OF ne] length_list_update, folded loc_def]
  from d' st obtain table where x4: "x4 = Inr table"
    by (cases x4) auto
  obtain x5 s5 where ca: "calculate_df m load f (length entry0) msk (zip [0..<length entry0] table)
              (replicate (METOS_TRACER_DIM m) None) s4 = (x5, s5)"
    by (cases "calculate_df m load f (length entry0) msk (zip [0..<length entry0] table)
              (replicate (METOS_TRACER_DIM m) None) s4") auto
  from d' st x4 ca obtain dfa where x5: "x5 = Inr dfa"
    by (cases x5) auto
  from d' st x4 ca x5 have am: "apply_mask msk dfa = Inr df" and s5: "s5 = s'"
    by (cases "apply_mask msk dfa"; simp)+
  have a1: "appends (\<lambda>e. \<not> perturbation_event e) s s1"
    using parameter_set_dir_appends [OF psd] by simp
  have a2: "appends (\<lambda>e. \<not> perturbation_event e) s1 s2"
    by (rule matching_run_dir_appends [OF mr [unfolded x2]])
  note b = base_run_and_f_Inr [OF br [unfolded x3]]
  from a1 a2 have a12: "appends (\<lambda>e. \<not> perturbation_event e) s s2"
    by (rule appends_trans)
  from a12 b have a3: "appends (\<lambda>e. \<not> perturbation_event e) s s3"
    by (blast intro: appends_trans)
  from a12 b have b': "derivative_accuracy_order m = 1 \<longrightarrow>
              length f = METOS_TRACER_DIM m
              \<and> (\<exists>base_years sa. appends (\<lambda>e. \<not> perturbation_event e) s sa
                     \<and> p_f m load parameters
                          \<lparr>years = base_years + derivative_years m, tolerance = 0,
                           combination = ''or''\<rparr> sa = (Inr f, s3))"
    by blast
  have locs: "database_entry loc = entry0[length entry0 - 1 := 1]"
    "parameters_now loc = (if total_concentration_factor_included_in_parameters m
                                  then entry0[length entry0 - 1 := 1] else parameters)"
    "partial_derivatives_mask loc = msk" "h_factors loc = factors"
    by (simp_all add: loc_def)
  from msk fa dpe locs a3 b' st [unfolded x4] ca [unfolded x5 s5] am
  show ?thesis by blast
qed

lemma mask_entry_length:
  assumes "prepare_mask m parameters mask_opt = Inr msk"
    and "database_parameter_entry m parameters = Inr entry0"
  shows "length msk = length entry0"
  using assms
  by (auto simp: prepare_mask_def database_parameter_entry_def
           split: option.splits if_splits sum.splits)

lemma calculate_df_row:
  assumes ca: "calculate_df m load f n msk (zip [0..<n] table)
                 (replicate (METOS_TRACER_DIM m) None) s4 = (Inr dfa, s')"
    and lt: "length table = n" and i: "i < n" and mi: "msk ! i"
    and t: "t < METOS_TRACER_DIM m"
  shows "\<exists>dfp sp df1 s1 df2.
           length dfp = METOS_TRACER_DIM m
         \<and> run_dirs_in sp = run_dirs_in s' \<and> run_dirs_in s1 = run_dirs_in s'
         \<and> pristine_row n i (dfp ! t)
         \<and> add_trajectories m load n i 0 (table ! i) dfp sp = (Inr df1, s1)
         \<and> finish_parameter (derivative_accuracy_order m) f i
               (map (\<lambda>(parameters_for_derivative, h, rd). h) (table ! i)) df1 = Inr df2
         \<and> (length df2 = METOS_TRACER_DIM m \<longrightarrow>
               length dfa = METOS_TRACER_DIM m
               \<and> (\<forall>R. has_row n i R (df2 ! t) \<longrightarrow> has_row n i R (dfa ! t)))"
proof -
  let ?pre = "zip [0..<i] (take i table)"
  let ?post = "zip [Suc i..<n] (drop (Suc i) table)"
  let ?df0 = "replicate (METOS_TRACER_DIM m) (None :: array list option)"
  note ca' = ca [unfolded zip_upt_split [OF lt i] calculate_df_append]
  obtain x sp where pre: "calculate_df m load f n msk ?pre ?df0 s4 = (x, sp)"
    by (cases "calculate_df m load f n msk ?pre ?df0 s4") auto
  from ca' pre obtain dfp where x: "x = Inr dfp" by (cases x) auto
  from ca' pre x have cb: "calculate_df m load f n msk ((i, table ! i) # ?post) dfp sp
                             = (Inr dfa, s')" by simp
  have ni: "i \<notin> fst ` set ?pre"
    by (auto dest!: set_zip_leftD)
  from calculate_df_other [OF pre [unfolded x] _ ni i]
  have lp: "length dfp = METOS_TRACER_DIM m"
    and pp: "\<forall>t < METOS_TRACER_DIM m. pristine_row n i (?df0 ! t) \<longrightarrow> pristine_row n i (dfp ! t)"
    by simp_all
  from pp t have pr: "pristine_row n i (dfp ! t)" by (simp add: pristine_row_def)
  from calculate_df_Cons [OF cb] mi obtain df1 s1 df2 where
    a: "add_trajectories m load n i 0 (table ! i) dfp sp = (Inr df1, s1)"
    and fp: "finish_parameter (derivative_accuracy_order m) f i
                 (map (\<lambda>(parameters_for_derivative, h, rd). h) (table ! i)) df1 = Inr df2"
    and rest: "calculate_df m load f n msk ?post df2 s1 = (Inr dfa, s')"
    by blast
  have nj: "i \<notin> fst ` set ?post"
    by (auto dest!: set_zip_leftD)
  have fin: "length df2 = METOS_TRACER_DIM m \<longrightarrow>
               length dfa = METOS_TRACER_DIM m
               \<and> (\<forall>R. has_row n i R (df2 ! t) \<longrightarrow> has_row n i R (dfa ! t))"
  proof
    assume l2: "length df2 = METOS_TRACER_DIM m"
    from calculate_df_other [OF rest l2 nj i] l2 t
    show "length dfa = METOS_TRACER_DIM m
               \<and> (\<forall>R. has_row n i R (df2 ! t) \<longrightarrow> has_row n i R (dfa ! t))"
      by simp
  qed
  from calculate_df_frame [OF pre [unfolded x], of "\<lambda>e. True"]
  have r1: "run_dirs_in sp = run_dirs_in s4" by simp
  from calculate_df_frame [OF ca, of "\<lambda>e. True"]
  have r2: "run_dirs_in s' = run_dirs_in s4" by simp
  from calculate_df_frame [OF rest, of "\<lambda>e. True"]
  have r3: "run_dirs_in s' = run_dirs_in s1" by simp
  from r1 r2 r3 have rr: "run_dirs_in sp = run_dirs_in s'" "run_dirs_in s1 = run_dirs_in s'"
    by simp_all
  from lp rr pr a fp fin show ?thesis by blast
qed

lemma apply_mask_row:
  assumes am: "apply_mask msk dfa = Inr df" and t: "t < length dfa"
    and h: "has_row n i R (dfa ! t)" and i: "i < length msk" and mi: "msk ! i"
  shows "df ! t ! length (filter id (take i msk)) = R"
proof -
  from apply_mask_nth [OF am] t obtain rows where r: "dfa ! t = Some rows"
    and l: "length rows = length msk"
    and d: "df ! t = map fst (filter snd (zip rows msk))" by blast
  from h r have "rows ! i = R" by (simp add: has_row_def)
  with select_masked_nth [OF l i mi] d show ?thesis by simp
qed

lemma choose_h_factors_Inr:
  "choose_h_factors accuracy_order = Inr factors \<Longrightarrow>
     (accuracy_order = 1 \<and> factors = [1]) \<or> (accuracy_order = 2 \<and> factors = [1, - 1])"
  by (auto simp: choose_h_factors_def split: if_splits)

lemma df_events:
  assumes a3: "appends (\<lambda>e. \<not> perturbation_event e) s s3"
    and st: "start_partial_derivative_runs m loc idxs s3 = (Inr table, s4)"
    and ca: "calculate_df m load f n msk es df0 s4 = (Inr dfa, s')"
  shows "\<exists>pre launches waits.
           events s' = events s @ pre @ launches @ waits
         \<and> list_all (\<lambda>e. \<not> perturbation_event e) pre
         \<and> list_all (\<lambda>e. \<not> is_wait e) launches
         \<and> list_all (\<lambda>e. \<not> is_start e) waits"
proof -
  from appendsD [OF a3] obtain pre where
    p: "events s3 = events s @ pre" "list_all (\<lambda>e. \<not> perturbation_event e) pre" by blast
  have "appends (\<lambda>e. \<not> is_wait e) s3 s4"
    using start_partial_derivative_runs_Inr [OF st, of "\<lambda>e. \<not> is_wait e"] by simp
  from appendsD [OF this] obtain launches where
    l: "events s4 = events s3 @ launches" "list_all (\<lambda>e. \<not> is_wait e) launches" by blast
  have "appends (\<lambda>e. \<not> is_start e) s4 s'"
    using calculate_df_frame [OF ca, of "\<lambda>e. \<not> is_start e"] by simp
  from appendsD [OF this] obtain waits where
    w: "events s' = events s4 @ waits" "list_all (\<lambda>e. \<not> is_start e) waits" by blast
  from p l w show ?thesis by auto
qed





subsection \<open>The claims about the assembly of the derivative\<close>

text \<open>
  Claim C7. Let \<open>_df\<close> return \<open>df\<close>, and let parameter \<open>i\<close> be selected by the mask
  that the loops use. The perturbations of parameter \<open>i\<close> are the ones that the loop over
  the \<open>h\<close> factors made, each with its run in the partial derivative directory of
  \<open>i\<close>, and for every tracer \<open>t\<close> the row of \<open>df\<close> for parameter \<open>i\<close> is, under
  accuracy order 1, the trajectory of the run of the perturbation minus the trajectory
  \<open>f\<close> of the parameters themselves, divided by the \<open>h\<close> of the perturbation, and
  otherwise the trajectory of the run of the first perturbation (factor 1) minus that of the
  second (factor -1), divided by the sum of the absolute values of their \<open>h\<close>. An array of
  one element is repeated to the length of the row, as numpy does. \<open>f\<close> is computed
  before any event about the run of a perturbation. Each trajectory is taken right after
  the wait for its run, from the run directory and the model parameters of the
  perturbation, with the run directories as they are when the call returns. The events of
  the call are events that are not about runs of perturbations, then events without a wait
  for a run, then events without a start of a run: every wait for the run of a perturbation
  comes after all of them were started.
\<close>

theorem df_finite_differences:
  assumes "p_df m load parameters opts mask_opt s = (Inr df, s')"
    and "prepare_mask m parameters mask_opt = Inr msk"
    and "i < length msk" and "msk ! i"
    and "t < METOS_TRACER_DIM m"
  shows "\<exists>loc entry0 runs sa sb.
           database_parameter_entry m parameters = Inr entry0
         \<and> database_entry loc = entry0[length entry0 - 1 := 1]
         \<and> parameters_now loc = (if total_concentration_factor_included_in_parameters m
                                  then entry0[length entry0 - 1 := 1] else parameters)
         \<and> choose_h_factors (derivative_accuracy_order m) = Inr (h_factors loc)
         \<and> start_h_factor_runs m loc i
              (parameters_typical_values_ext m ! i * derivative_step_size m)
              (h_factors loc) sa = (Inr runs, sb)
         \<and> list_all (in_parameter_dir m loc i) runs
         \<and> (derivative_accuracy_order m = 1 \<longrightarrow>
              (\<exists>f base_years s0 s1 pfd h rd T s2 s3.
                  appends (\<lambda>e. \<not> perturbation_event e) s s0
                \<and> p_f m load parameters
                    \<lparr>years = base_years + derivative_years m, tolerance = 0,
                     combination = ''or''\<rparr> s0 = (Inr f, s1)
                \<and> run_dirs_in s2 = run_dirs_in s'
                \<and> runs = [(pfd, h, Some rd)]
                \<and> p_get_trajectory m load (Some rd) (butlast pfd)
                     (wait_until_run_job_finished (Run_Path rd) s2) = (Inr T, s3)
                \<and> df ! t ! masked_position msk i
                    = map (\<lambda>x. x / h)
                        (map2 (-)
                           (broadcast (length (df ! t ! masked_position msk i)) (T ! t))
                           (broadcast (length (df ! t ! masked_position msk i)) (f ! t)))))
         \<and> (derivative_accuracy_order m \<noteq> 1 \<longrightarrow>
              (\<exists>pfd0 h0 rd0 pfd1 h1 rd1 T0 T1 s2 s3 s4.
                  runs = [(pfd0, h0, Some rd0), (pfd1, h1, Some rd1)]
                \<and> run_dirs_in s2 = run_dirs_in s' \<and> run_dirs_in s3 = run_dirs_in s'
                \<and> p_get_trajectory m load (Some rd0) (butlast pfd0)
                     (wait_until_run_job_finished (Run_Path rd0) s2) = (Inr T0, s3)
                \<and> p_get_trajectory m load (Some rd1) (butlast pfd1)
                     (wait_until_run_job_finished (Run_Path rd1) s3) = (Inr T1, s4)
                \<and> df ! t ! masked_position msk i
                    = map (\<lambda>x. x / (\<bar>h0\<bar> + \<bar>h1\<bar>))
                        (map2 (-)
                           (broadcast (length (df ! t ! masked_position msk i)) (T0 ! t))
                           (broadcast (length (df ! t ! masked_position msk i)) (T1 ! t)))))
         \<and> (\<exists>pre launches waits.
               events s' = events s @ pre @ launches @ waits
             \<and> list_all (\<lambda>e. \<not> perturbation_event e) pre
             \<and> list_all (\<lambda>e. \<not> is_wait e) launches
             \<and> list_all (\<lambda>e. \<not> is_start e) waits)"
proof -
  from p_df_Inr [OF assms(1)] obtain msk' factors loc f entry0 s3 s4 table dfa where
    pm: "prepare_mask m parameters mask_opt = Inr msk'"
    and fa: "choose_h_factors (derivative_accuracy_order m) = Inr factors"
    and dpe: "database_parameter_entry m parameters = Inr entry0"
    and le: "database_entry loc = entry0[length entry0 - 1 := 1]"
    and pn: "parameters_now loc = (if total_concentration_factor_included_in_parameters m
                                  then entry0[length entry0 - 1 := 1] else parameters)"
    and lm: "partial_derivatives_mask loc = msk'"
    and lh: "h_factors loc = factors"
    and a3: "appends (\<lambda>e. \<not> perturbation_event e) s s3"
    and bf: "derivative_accuracy_order m = 1 \<longrightarrow>
              length f = METOS_TRACER_DIM m
              \<and> (\<exists>base_years sa. appends (\<lambda>e. \<not> perturbation_event e) s sa
                     \<and> p_f m load parameters
                          \<lparr>years = base_years + derivative_years m, tolerance = 0,
                           combination = ''or''\<rparr> sa = (Inr f, s3))"
    and st: "start_partial_derivative_runs m loc [0..<length entry0] s3 = (Inr table, s4)"
    and ca: "calculate_df m load f (length entry0) msk' (zip [0..<length entry0] table)
              (replicate (METOS_TRACER_DIM m) None) s4 = (Inr dfa, s')"
    and am: "apply_mask msk' dfa = Inr df"
    by blast
  from pm assms(2) have mm: "msk' = msk" by simp
  note lm = lm [unfolded mm] and ca = ca [unfolded mm] and am = am [unfolded mm]
  let ?n = "length entry0"
  let ?pos = "masked_position msk i"
  from mask_entry_length [OF assms(2) dpe] assms(3) have i: "i < ?n" by simp
  note sp = start_partial_derivative_runs_Inr [OF st, of "\<lambda>e. \<not> is_wait e", simplified]
  from sp have lt: "length table = ?n" by simp
  from sp have "\<forall>k < ?n. partial_derivatives_mask loc ! k \<longrightarrow>
           list_all (in_parameter_dir m loc k) (table ! k)"
    by simp
  with i assms(4) lm have dirs: "list_all (in_parameter_dir m loc i) (table ! i)" by simp
  from sp have "\<forall>k < ?n. partial_derivatives_mask loc ! k \<longrightarrow>
           (\<exists>sa sb. start_h_factor_runs m loc k
              (parameters_typical_values_ext m ! k * derivative_step_size m)
              (h_factors loc) sa = (Inr (table ! k), sb))"
    by simp
  with i assms(4) lm obtain sa sb where
    sh: "start_h_factor_runs m loc i
           (parameters_typical_values_ext m ! i * derivative_step_size m)
           (h_factors loc) sa = (Inr (table ! i), sb)"
    by blast
  from start_h_factor_runs_nth [OF sh] lh
  have lr: "length (table ! i) = length factors" by simp
  from calculate_df_row [OF ca lt i assms(4,5)] obtain dfp sp' df1 s1 df2 where
    lp: "length dfp = METOS_TRACER_DIM m"
    and rsp: "run_dirs_in sp' = run_dirs_in s'" and rs1: "run_dirs_in s1 = run_dirs_in s'"
    and pr: "pristine_row ?n i (dfp ! t)"
    and a: "add_trajectories m load ?n i 0 (table ! i) dfp sp' = (Inr df1, s1)"
    and fp: "finish_parameter (derivative_accuracy_order m) f i
               (map (\<lambda>(parameters_for_derivative, h, rd). h) (table ! i)) df1 = Inr df2"
    and fin: "length df2 = METOS_TRACER_DIM m \<longrightarrow>
               length dfa = METOS_TRACER_DIM m
               \<and> (\<forall>R. has_row ?n i R (df2 ! t) \<longrightarrow> has_row ?n i R (dfa ! t))"
    by blast
  from assms(5) lp have t: "t < length dfp" by simp
  note ev = df_events [OF a3 st ca]
  have o1: "derivative_accuracy_order m = 1 \<longrightarrow>
              (\<exists>f base_years s0 s1 pfd h rd T s2 s3.
                  appends (\<lambda>e. \<not> perturbation_event e) s s0
                \<and> p_f m load parameters
                    \<lparr>years = base_years + derivative_years m, tolerance = 0,
                     combination = ''or''\<rparr> s0 = (Inr f, s1)
                \<and> run_dirs_in s2 = run_dirs_in s'
                \<and> table ! i = [(pfd, h, Some rd)]
                \<and> p_get_trajectory m load (Some rd) (butlast pfd)
                     (wait_until_run_job_finished (Run_Path rd) s2) = (Inr T, s3)
                \<and> df ! t ! ?pos
                    = map (\<lambda>x. x / h)
                        (map2 (-)
                           (broadcast (length (df ! t ! ?pos)) (T ! t))
                           (broadcast (length (df ! t ! ?pos)) (f ! t))))"
  proof
    assume o: "derivative_accuracy_order m = 1"
    with choose_h_factors_Inr [OF fa] have "factors = [1]" by simp
    with lr obtain run where "table ! i = [run]"
      by (cases "table ! i") auto
    then obtain pfd h rd_opt where run: "table ! i = [(pfd, h, rd_opt)]"
      by (cases run) auto
    from a run have a': "add_trajectories m load ?n i 0 [(pfd, h, rd_opt)] dfp sp' = (Inr df1, s1)"
      by simp
    from fp run o have fp': "finish_parameter 1 f i [h] df1 = Inr df2" by simp
    from block_order_1 [OF a' fp' lp i t pr] obtain rd T R where
      rd: "rd_opt = Some rd"
      and g: "p_get_trajectory m load (Some rd) (butlast pfd)
                (wait_until_run_job_finished (Run_Path rd) sp') = (Inr T, s1)"
      and l2: "length df2 = length dfp"
      and hr: "has_row ?n i R (df2 ! t)"
      and R: "R = map (\<lambda>x. x / h)
                   (map2 (-) (broadcast (length R) (T ! t)) (broadcast (length R) (f ! t)))"
      by blast
    from fin l2 lp hr have la: "length dfa = METOS_TRACER_DIM m"
      and ha: "has_row ?n i R (dfa ! t)" by simp_all
    from la assms(5) have ta: "t < length dfa" by simp
    from apply_mask_row [OF am ta ha assms(3,4)]
    have row: "df ! t ! ?pos = R" by (simp add: masked_position_def)
    from bf o obtain base_years s0 where
      ap: "appends (\<lambda>e. \<not> perturbation_event e) s s0"
      and pf: "p_f m load parameters
             \<lparr>years = base_years + derivative_years m, tolerance = 0,
              combination = ''or''\<rparr> s0 = (Inr f, s3)" by blast
    have eq: "df ! t ! ?pos
                    = map (\<lambda>x. x / h)
                        (map2 (-)
                           (broadcast (length (df ! t ! ?pos)) (T ! t))
                           (broadcast (length (df ! t ! ?pos)) (f ! t)))"
      unfolding row by (rule R)
    from ap pf rsp run [unfolded rd] g eq
    show "\<exists>f base_years s0 s1 pfd h rd T s2 s3.
                  appends (\<lambda>e. \<not> perturbation_event e) s s0
                \<and> p_f m load parameters
                    \<lparr>years = base_years + derivative_years m, tolerance = 0,
                     combination = ''or''\<rparr> s0 = (Inr f, s1)
                \<and> run_dirs_in s2 = run_dirs_in s'
                \<and> table ! i = [(pfd, h, Some rd)]
                \<and> p_get_trajectory m load (Some rd) (butlast pfd)
                     (wait_until_run_job_finished (Run_Path rd) s2) = (Inr T, s3)
                \<and> df ! t ! ?pos
                    = map (\<lambda>x. x / h)
                        (map2 (-)
                           (broadcast (length (df ! t ! ?pos)) (T ! t))
                           (broadcast (length (df ! t ! ?pos)) (f ! t)))"
      by blast
  qed
  have o2: "derivative_accuracy_order m \<noteq> 1 \<longrightarrow>
              (\<exists>pfd0 h0 rd0 pfd1 h1 rd1 T0 T1 s2 s3 s4.
                  table ! i = [(pfd0, h0, Some rd0), (pfd1, h1, Some rd1)]
                \<and> run_dirs_in s2 = run_dirs_in s' \<and> run_dirs_in s3 = run_dirs_in s'
                \<and> p_get_trajectory m load (Some rd0) (butlast pfd0)
                     (wait_until_run_job_finished (Run_Path rd0) s2) = (Inr T0, s3)
                \<and> p_get_trajectory m load (Some rd1) (butlast pfd1)
                     (wait_until_run_job_finished (Run_Path rd1) s3) = (Inr T1, s4)
                \<and> df ! t ! ?pos
                    = map (\<lambda>x. x / (\<bar>h0\<bar> + \<bar>h1\<bar>))
                        (map2 (-)
                           (broadcast (length (df ! t ! ?pos)) (T0 ! t))
                           (broadcast (length (df ! t ! ?pos)) (T1 ! t))))"
  proof
    assume o: "derivative_accuracy_order m \<noteq> 1"
    with choose_h_factors_Inr [OF fa] have "factors = [1, - 1]" by simp
    with lr obtain run0 run1 where "table ! i = [run0, run1]"
      by (cases "table ! i"; cases "tl (table ! i)") auto
    then obtain pfd0 h0 rd_opt0 pfd1 h1 rd_opt1 where
      run: "table ! i = [(pfd0, h0, rd_opt0), (pfd1, h1, rd_opt1)]"
      by (cases run0; cases run1) auto
    from a run have a': "add_trajectories m load ?n i 0
        [(pfd0, h0, rd_opt0), (pfd1, h1, rd_opt1)] dfp sp' = (Inr df1, s1)"
      by simp
    from fp run have fp': "finish_parameter (derivative_accuracy_order m) f i [h0, h1] df1
                             = Inr df2" by simp
    from block_order_2 [OF a' fp' o lp i t pr] obtain rd0 rd1 T0 T1 sm R where
      rd: "rd_opt0 = Some rd0" "rd_opt1 = Some rd1"
      and g0: "p_get_trajectory m load (Some rd0) (butlast pfd0)
                (wait_until_run_job_finished (Run_Path rd0) sp') = (Inr T0, sm)"
      and g1: "p_get_trajectory m load (Some rd1) (butlast pfd1)
                (wait_until_run_job_finished (Run_Path rd1) sm) = (Inr T1, s1)"
      and l2: "length df2 = length dfp"
      and hr: "has_row ?n i R (df2 ! t)"
      and R: "R = map (\<lambda>x. x / (\<bar>h0\<bar> + \<bar>h1\<bar>))
                   (map2 (-) (broadcast (length R) (T0 ! t)) (broadcast (length R) (T1 ! t)))"
      by blast
    from fin l2 lp hr have la: "length dfa = METOS_TRACER_DIM m"
      and ha: "has_row ?n i R (dfa ! t)" by simp_all
    from la assms(5) have ta: "t < length dfa" by simp
    from apply_mask_row [OF am ta ha assms(3,4)]
    have row: "df ! t ! ?pos = R" by (simp add: masked_position_def)
    have eq: "df ! t ! ?pos
                    = map (\<lambda>x. x / (\<bar>h0\<bar> + \<bar>h1\<bar>))
                        (map2 (-)
                           (broadcast (length (df ! t ! ?pos)) (T0 ! t))
                           (broadcast (length (df ! t ! ?pos)) (T1 ! t)))"
      unfolding row by (rule R)
    from p_get_trajectory_Inr [OF g0] rsp
    have rsm: "run_dirs_in sm = run_dirs_in s'"
      by (simp add: wait_until_run_job_finished_def)
    from run [unfolded rd] rsp rsm g0 g1 eq
    show "\<exists>pfd0 h0 rd0 pfd1 h1 rd1 T0 T1 s2 s3 s4.
                  table ! i = [(pfd0, h0, Some rd0), (pfd1, h1, Some rd1)]
                \<and> run_dirs_in s2 = run_dirs_in s' \<and> run_dirs_in s3 = run_dirs_in s'
                \<and> p_get_trajectory m load (Some rd0) (butlast pfd0)
                     (wait_until_run_job_finished (Run_Path rd0) s2) = (Inr T0, s3)
                \<and> p_get_trajectory m load (Some rd1) (butlast pfd1)
                     (wait_until_run_job_finished (Run_Path rd1) s3) = (Inr T1, s4)
                \<and> df ! t ! ?pos
                    = map (\<lambda>x. x / (\<bar>h0\<bar> + \<bar>h1\<bar>))
                        (map2 (-)
                           (broadcast (length (df ! t ! ?pos)) (T0 ! t))
                           (broadcast (length (df ! t ! ?pos)) (T1 ! t)))"
      by blast
  qed
  from fa lh have fa': "choose_h_factors (derivative_accuracy_order m) = Inr (h_factors loc)"
    by simp
  show ?thesis
    apply (rule exI [of _ loc], rule exI [of _ entry0], rule exI [of _ "table ! i"])
    apply (rule exI [of _ sa], rule exI [of _ sb])
    apply (intro conjI)
    apply (rule dpe, rule le, rule pn, rule fa', rule sh, rule dirs, rule o1, rule o2, rule ev)
    done
qed

theorem df_finite_differences_witness:
  "fst (p_df model1 (p_get_load_trajectory_function_for_all model1 1) [1]
          \<lparr>years = 110, tolerance = 0, combination = ''or''\<rparr> (Some [True]) state0)
     = Inr [[[1]], [[1]]]
   \<and> (\<exists>pre launches waits.
         events (snd (p_df model1 (p_get_load_trajectory_function_for_all model1 1) [1]
                   \<lparr>years = 110, tolerance = 0, combination = ''or''\<rparr> (Some [True]) state0))
           = events state0 @ pre @ launches @ waits
       \<and> list_all (\<lambda>e. \<not> perturbation_event e) pre
       \<and> list_all (\<lambda>e. \<not> is_wait e) launches
       \<and> list_all (\<lambda>e. \<not> is_start e) waits)"
proof -
  let ?r = "p_df model1 (p_get_load_trajectory_function_for_all model1 1) [1]
          \<lparr>years = 110, tolerance = 0, combination = ''or''\<rparr> (Some [True]) state0"
  have f: "fst ?r = Inr [[[1]], [[1]]]" by code_simp
  then have res: "?r = (Inr [[[1]], [[1]]], snd ?r)" by (simp add: prod_eq_iff)
  have pm: "prepare_mask model1 [1] (Some [True]) = Inr [True, False]"
    by (simp add: prepare_mask_def model1_def model0_def)
  have h3: "(0::nat) < length [True, False]" by simp
  have h4: "[True, False] ! 0" by simp
  have h5: "0 < METOS_TRACER_DIM model1" by (simp add: model1_def model0_def)
  from df_finite_differences [OF res pm h3 h4 h5]
  have "\<exists>pre launches waits.
         events (snd ?r) = events state0 @ pre @ launches @ waits
       \<and> list_all (\<lambda>e. \<not> perturbation_event e) pre
       \<and> list_all (\<lambda>e. \<not> is_wait e) launches
       \<and> list_all (\<lambda>e. \<not> is_start e) waits"
    by blast
  with f show ?thesis by (rule conjI)
qed




end
